(* ===== verification/Prelude.thy ===== *)
theory Prelude
  imports Main "HOL-Library.Word" "HOL-Library.List_Lexorder" "HOL-Library.Monad_Syntax"
begin

text \<open>
  Shared vocabulary of the development.

  \<^item> The C integer types as words. A signed type has the same representation as the
    unsigned one of its width (two's complement) and is read with \<open>sint\<close>, so that the
    source's casts between the two are identities, as they are on the hardware.
  \<^item> Undefined behaviour of C is the value \<open>None\<close>: a read or a write outside a buffer,
    and a signed addition that overflows. An operation that returns \<open>Some\<close> for all
    arguments of interest is therefore free of undefined behaviour.
  \<^item> C buffers are byte lists; the primitives below are the element access, memset and
    memcpy of the standard library.
  \<^item> \<open>for_loop\<close> is the C loop \<^verbatim>\<open>for (i = lo; i < hi; i++)\<close> over a state.
  \<^item> Little- and big-endian byte strings of words with their round trips and, for
    big-endian strings, the agreement of byte order with numeric order.
\<close>

unbundle bit_operations_syntax

type_synonym u8 = "8 word"
type_synonym u16 = "16 word"
type_synonym u32 = "32 word"
type_synonym u64 = "64 word"
type_synonym i16 = "16 word"
type_synonym i64 = "64 word"
type_synonym bytes = "u8 list"

named_theorems buffer_simps \<open>success conditions and results of buffer primitives\<close>
named_theorems layout_simps \<open>where a byte of a overwritten buffer comes from\<close>

subsection \<open>Buffers\<close>

definition buf_read :: "bytes \<Rightarrow> nat \<Rightarrow> u8 option" where
  "buf_read b i = (if i < length b then Some (b ! i) else None)"

definition buf_write :: "bytes \<Rightarrow> nat \<Rightarrow> u8 \<Rightarrow> bytes option" where
  "buf_write b i v = (if i < length b then Some (b[i := v]) else None)"

text \<open>\<open>overwrite off xs b\<close> replaces the bytes of \<open>b\<close> from \<open>off\<close> on by \<open>xs\<close>.\<close>

definition overwrite :: "nat \<Rightarrow> 'a list \<Rightarrow> 'a list \<Rightarrow> 'a list" where
  "overwrite off xs b = take off b @ xs @ drop (off + length xs) b"

definition chunk :: "nat \<Rightarrow> nat \<Rightarrow> 'a list \<Rightarrow> 'a list" where
  "chunk off n b = take n (drop off b)"

definition memset :: "bytes \<Rightarrow> nat \<Rightarrow> u8 \<Rightarrow> nat \<Rightarrow> bytes option" where
  "memset b off v n =
     (if off + n \<le> length b then Some (overwrite off (replicate n v) b) else None)"

definition memcpy :: "bytes \<Rightarrow> nat \<Rightarrow> bytes \<Rightarrow> nat \<Rightarrow> nat \<Rightarrow> bytes option" where
  "memcpy dst doff src soff n =
     (if doff + n \<le> length dst \<and> soff + n \<le> length src
      then Some (overwrite doff (chunk soff n src) dst) else None)"

function for_loop :: "nat \<Rightarrow> nat \<Rightarrow> (nat \<Rightarrow> 's \<Rightarrow> 's option) \<Rightarrow> 's \<Rightarrow> 's option" where
  "for_loop i n body s =
     (if i < n then (case body i s of None \<Rightarrow> None | Some s' \<Rightarrow> for_loop (Suc i) n body s')
      else Some s)"
  by pat_completeness auto
termination
  by (relation "measure (\<lambda>(i, n, body, s). n - i)") auto

declare for_loop.simps [simp del]

lemma for_loop_done [simp]: "n \<le> i \<Longrightarrow> for_loop i n body s = Some s"
  by (simp add: for_loop.simps)

lemma for_loop_step:
  "i < n \<Longrightarrow> for_loop i n body s = Option.bind (body i s) (for_loop (Suc i) n body)"
  by (subst for_loop.simps) (simp split: option.split)

lemma for_loop_snoc:
  "lo \<le> n \<Longrightarrow> for_loop lo (Suc n) body s = Option.bind (for_loop lo n body s) (body n)"
proof (induction "n - lo" arbitrary: lo s)
  case 0
  then show ?case by (simp add: for_loop_step bind_eq_Some_conv) (cases "body n s"; simp)
next
  case (Suc m)
  then have lt: "lo < n" and m: "m = n - Suc lo" and le: "Suc lo \<le> n" by auto
  show ?case
    using lt Suc.hyps(1)[OF m le] by (cases "body lo s") (simp_all add: for_loop_step)
qed


subsection \<open>Buffer lemmas\<close>

lemma buf_read_Some [buffer_simps]:
  "i < length b \<Longrightarrow> buf_read b i = Some (b ! i)"
  by (simp add: buf_read_def)

lemma length_overwrite [simp]:
  "off + length xs \<le> length b \<Longrightarrow> length (overwrite off xs b) = length b"
  by (simp add: overwrite_def)

lemma overwrite_Nil [simp]: "overwrite off [] b = b"
  by (simp add: overwrite_def)

lemma nth_overwrite [layout_simps]:
  assumes "off + length xs \<le> length b" and "i < length b"
  shows "overwrite off xs b ! i =
           (if off \<le> i \<and> i < off + length xs then xs ! (i - off) else b ! i)"
  using assms by (auto simp: overwrite_def nth_append)

lemma overwrite_snoc:
  assumes "off + length xs < length b"
  shows "(overwrite off xs b)[off + length xs := x] = overwrite off (xs @ [x]) b"
  using assms by (intro nth_equalityI) (auto simp: nth_list_update nth_overwrite nth_append)

lemma length_chunk [simp]: "off + n \<le> length b \<Longrightarrow> length (chunk off n b) = n"
  by (simp add: chunk_def)

lemma nth_chunk [layout_simps]:
  "off + n \<le> length b \<Longrightarrow> i < n \<Longrightarrow> chunk off n b ! i = b ! (off + i)"
  by (simp add: chunk_def)

lemma chunk_overwrite_same:
  "off + length xs \<le> length b \<Longrightarrow> chunk off (length xs) (overwrite off xs b) = xs"
  by (simp add: chunk_def overwrite_def)

lemma chunk_overwrite_disjoint:
  assumes "off + length xs \<le> length b" and "o' + n \<le> length b"
    and "o' + n \<le> off \<or> off + length xs \<le> o'"
  shows "chunk o' n (overwrite off xs b) = chunk o' n b"
  using assms by (intro nth_equalityI) (auto simp: nth_chunk nth_overwrite)

lemma overwrite_chunk_id:
  "off + n \<le> length b \<Longrightarrow> overwrite off (chunk off n b) b = b"
  by (intro nth_equalityI) (auto simp: nth_overwrite nth_chunk)

lemma chunk_cong:
  assumes "off + n \<le> length b" and "off + n \<le> length b'"
    and "\<And>i. off \<le> i \<Longrightarrow> i < off + n \<Longrightarrow> b ! i = b' ! i"
  shows "chunk off n b = chunk off n b'"
  using assms by (intro nth_equalityI) (auto simp: nth_chunk)

text \<open>The byte-storing loop of an encoder is one overwrite; it fails exactly when it
  leaves the buffer.\<close>

lemma for_loop_write:
  "for_loop 0 n (\<lambda>i b. buf_write b (off + i) (g i)) b =
     (if n = 0 \<or> off + n \<le> length b then Some (overwrite off (map g [0..<n]) b) else None)"
proof (induction n)
  case 0
  then show ?case by simp
next
  case (Suc n)
  have "Option.bind (Some (overwrite off (map g [0..<n]) b))
          (\<lambda>b. buf_write b (off + n) (g n)) =
        (if off + Suc n \<le> length b then Some (overwrite off (map g [0..<Suc n]) b) else None)"
    if "n = 0 \<or> off + n \<le> length b"
    using that overwrite_snoc[of off "map g [0..<n]" b "g n"]
    by (cases "n = 0") (auto simp: buf_write_def)
  with Suc show ?case by (auto simp: for_loop_snoc)
qed

text \<open>The byte-collecting loop of a decoder folds over a chunk; it fails exactly when
  it leaves the buffer.\<close>

lemma for_loop_read:
  "for_loop 0 n (\<lambda>i v. Option.bind (buf_read b (off + i)) (\<lambda>x. Some (f i x v))) v =
     (if n = 0 \<or> off + n \<le> length b
      then Some (fold (\<lambda>i. f i (chunk off n b ! i)) [0..<n] v) else None)"
proof (induction n)
  case 0
  then show ?case by simp
next
  case (Suc n)
  have eq: "fold (\<lambda>i. f i (chunk off n b ! i)) [0..<n] v =
        fold (\<lambda>i. f i (chunk off (Suc n) b ! i)) [0..<n] v" if "off + Suc n \<le> length b"
    using that by (intro fold_cong) (auto simp: nth_chunk)
  show ?case
  proof (cases "off + Suc n \<le> length b")
    case True
    with Suc eq show ?thesis by (simp add: for_loop_snoc buf_read_def nth_chunk)
  next
    case False
    with Suc show ?thesis by (auto simp: for_loop_snoc buf_read_def)
  qed
qed

subsection \<open>Little-endian byte strings\<close>

definition le_bytes :: "nat \<Rightarrow> 'a::len word \<Rightarrow> bytes" where
  "le_bytes n w = map (\<lambda>i. ucast (drop_bit (i * 8) w AND 0xFF)) [0..<n]"

definition le_word :: "nat \<Rightarrow> bytes \<Rightarrow> 'a::len word" where
  "le_word n bs = fold (\<lambda>i v. v OR push_bit (i * 8) (ucast (bs ! i))) [0..<n] 0"

lemma length_le_bytes [simp]: "length (le_bytes n w) = n"
  by (simp add: le_bytes_def)

lemma bit_0xFF: "bit (0xFF :: 'a::len word) j \<longleftrightarrow> j < 8 \<and> j < LENGTH('a)"
proof -
  have "(0xFF :: 'a word) = mask 8" by (simp add: mask_eq_exp_minus_1)
  then show ?thesis by (simp only: bit_mask_iff) auto
qed

lemma bit_0xFF_int: "bit (0xFF :: int) j \<longleftrightarrow> j < 8"
proof -
  have "(0xFF :: int) = mask 8" by (simp add: mask_eq_exp_minus_1)
  then show ?thesis by (simp only: bit_mask_iff) auto
qed

lemma bit_le_bytes:
  fixes w :: "'a::len word"
  shows "i < n \<Longrightarrow> bit (le_bytes n w ! i) j \<longleftrightarrow> j < 8 \<and> bit w (i * 8 + j)"
  by (auto simp: le_bytes_def bit_simps bit_0xFF bit_0xFF_int dest: bit_imp_le_length)

lemma bit_le_word_aux:
  "bit (fold (\<lambda>i v. v OR push_bit (i * 8) (ucast (bs ! i))) [0..<n] (0 :: 'a::len word)) k
     \<longleftrightarrow> k < LENGTH('a) \<and> k div 8 < n \<and> bit (bs ! (k div 8) :: u8) (k mod 8)"
proof (induction n)
  case 0
  then show ?case by simp
next
  case (Suc n)
  have "n * 8 \<le> k \<and> bit (bs ! n :: u8) (k - n * 8) \<longleftrightarrow> k div 8 = n \<and> bit (bs ! n) (k mod 8)"
  proof (cases "n * 8 \<le> k")
    case True
    then obtain d where d: "k = n * 8 + d" using le_Suc_ex by blast
    show ?thesis
    proof (cases "d < 8")
      case True
      with d show ?thesis by simp
    next
      case False
      then have "k div 8 \<noteq> n" using d by auto
      moreover have "\<not> bit (bs ! n :: u8) d"
        using False by (auto dest: bit_imp_le_length)
      ultimately show ?thesis using d by simp
    qed
  next
    case False
    then show ?thesis by auto
  qed
  with Suc show ?case
    by (auto simp: bit_simps less_Suc_eq)
qed

lemma bit_le_word:
  "bit (le_word n bs :: 'a::len word) k \<longleftrightarrow>
     k < LENGTH('a) \<and> k div 8 < n \<and> bit (bs ! (k div 8)) (k mod 8)"
  unfolding le_word_def by (rule bit_le_word_aux)

lemma le_word_le_bytes:
  fixes w :: "'a::len word"
  assumes "LENGTH('a) = n * 8"
  shows "le_word n (le_bytes n w) = w"
proof (rule bit_word_eqI)
  fix k assume "k < LENGTH('a)"
  with assms have "k div 8 < n" by (simp add: less_mult_imp_div_less)
  moreover have "k div 8 * 8 + k mod 8 = k" by simp
  ultimately show "bit (le_word n (le_bytes n w) :: 'a word) k \<longleftrightarrow> bit w k"
    using \<open>k < LENGTH('a)\<close> by (simp add: bit_le_word bit_le_bytes)
qed

lemma le_bytes_le_word:
  assumes "LENGTH('a::len) = n * 8" and "length bs = n"
  shows "le_bytes n (le_word n bs :: 'a word) = bs"
proof (rule nth_equalityI)
  show "length (le_bytes n (le_word n bs :: 'a word)) = length bs" using assms by simp
  fix i assume "i < length (le_bytes n (le_word n bs :: 'a word))"
  then have i: "i < n" by simp
  show "le_bytes n (le_word n bs :: 'a word) ! i = bs ! i"
  proof (rule bit_word_eqI)
    fix j assume j: "j < LENGTH(8)"
    then have "i * 8 + j < LENGTH('a)" using i assms(1) by simp
    then show "bit (le_bytes n (le_word n bs :: 'a word) ! i) j \<longleftrightarrow> bit (bs ! i) j"
      using i j by (simp add: bit_le_bytes bit_le_word)
  qed
qed

subsection \<open>Byte strings in numeric and in lexicographic order\<close>

definition be_value :: "bytes \<Rightarrow> nat" where
  "be_value bs = foldl (\<lambda>a b. a * 256 + unat b) 0 bs"

lemma be_value_shift:
  "foldl (\<lambda>a b. a * 256 + unat (b :: u8)) a bs = a * 256 ^ length bs + be_value bs"
proof (induction bs arbitrary: a)
  case Nil
  then show ?case by (simp add: be_value_def)
next
  case (Cons x xs)
  have "foldl (\<lambda>a b. a * 256 + unat b) a (x # xs) =
          (a * 256 + unat x) * 256 ^ length xs + be_value xs"
    using Cons[of "a * 256 + unat x"] by simp
  moreover have "be_value (x # xs) = unat x * 256 ^ length xs + be_value xs"
    using Cons[of "unat x"] by (simp add: be_value_def)
  ultimately show ?case by (simp add: algebra_simps)
qed

lemma be_value_Nil [simp]: "be_value [] = 0"
  by (simp add: be_value_def)

lemma be_value_Cons [simp]: "be_value (x # xs) = unat x * 256 ^ length xs + be_value xs"
  using be_value_shift[of "unat x" xs] by (simp add: be_value_def)

lemma unat_u8_less: "unat (x :: u8) < 256"
  using unsigned_less [of x, where ?'a = nat] by simp

lemma be_value_less: "be_value bs < 256 ^ length bs"
proof (induction bs)
  case Nil
  then show ?case by simp
next
  case (Cons x xs)
  have "unat x * 256 ^ length xs \<le> 255 * 256 ^ length xs"
    using unat_u8_less[of x] by (intro mult_right_mono) linarith+
  with Cons have "unat x * 256 ^ length xs + be_value xs <
      255 * 256 ^ length xs + 256 ^ length xs" by linarith
  then show ?case by simp
qed

text \<open>Byte strings of equal length are in lexicographic order exactly when their
  big-endian values are in numeric order.\<close>

lemma lex_less_be_value:
  "length xs = length ys \<Longrightarrow> xs < ys \<longleftrightarrow> be_value xs < be_value ys"
proof (induction xs ys rule: list_induct2)
  case Nil
  then show ?case by simp
next
  case (Cons x xs y ys)
  let ?p = "256 ^ length xs :: nat"
  have bx: "be_value xs < ?p" and b: "be_value ys < ?p"
    using be_value_less[of xs] be_value_less[of ys] Cons.hyps by auto
  have lt: "unat u * ?p + p < unat v * ?p + q"
    if "unat u < unat v" "p < ?p" for u v :: u8 and p q
  proof -
    have "Suc (unat u) * ?p \<le> unat v * ?p" using that by (intro mult_right_mono) auto
    with that show ?thesis by simp
  qed
  show ?case
  proof (cases x y rule: linorder_cases)
    case less
    with lt[of x y "be_value xs" "be_value ys"] bx Cons.hyps show ?thesis
      by (simp add: word_less_nat_alt)
  next
    case equal
    with Cons show ?thesis by simp
  next
    case greater
    with lt[of y x "be_value ys" "be_value xs"] b Cons.hyps show ?thesis
      by (auto simp: word_less_nat_alt)
  qed
qed

lemma lex_append_same [simp]:
  "p @ xs < p @ (ys :: 'a::order list) \<longleftrightarrow> xs < ys"
  by (induction p) auto

lemma lex_le_append_same [simp]:
  "p @ xs \<le> p @ (ys :: 'a::order list) \<longleftrightarrow> xs \<le> ys"
  by (induction p) auto

text \<open>Two strings whose equally long heads differ compare as their heads do.\<close>

lemma lex_append_neq:
  fixes p q :: "'a::order list"
  assumes "length p = length q" and "p \<noteq> q"
  shows "p @ xs < q @ ys \<longleftrightarrow> p < q"
  using assms by (induction p q rule: list_induct2) auto

lemma lex_le_append_neq:
  fixes p q :: "'a::linorder list"
  assumes "length p = length q" and "p \<noteq> q"
  shows "p @ xs \<le> q @ ys \<longleftrightarrow> p < q"
  using assms by (induction p q rule: list_induct2) auto

end
