(* ===== verification/Packet.thy ===== *)
theory Packet
  imports Prelude
begin

text \<open>
  The 100-byte entity packet: \<^verbatim>\<open>src/gen/xr_grid_entity_packet.{h,c}\<close>.

  The struct is a record, the put and get helpers are the C loops over a byte buffer, and
  encode and decode are the source's statement sequences. \<open>None\<close> is a read or a write
  outside the buffer. The interface between the helpers and the two codecs is the locale
  \<open>wire_field\<close> (a fixed-width field written and read at an offset), interpreted for
  the u32, i64 and i16 helpers; the codec theorems rest on its laws.
\<close>

subsection \<open>Data\<close>

definition XR_PACKET_SIZE :: nat where
  "XR_PACKET_SIZE = 100"

definition XR_PACKET_PAYLOAD_OFFSET :: nat where
  "XR_PACKET_PAYLOAD_OFFSET = 58"

definition XR_PACKET_PAYLOAD_LEN :: nat where
  "XR_PACKET_PAYLOAD_LEN = XR_PACKET_SIZE - XR_PACKET_PAYLOAD_OFFSET"

definition XR_PACKET_V_MAX_PHYSICAL_DEFAULT_UM_PER_TICK :: int where
  "XR_PACKET_V_MAX_PHYSICAL_DEFAULT_UM_PER_TICK = 500000"

lemmas packet_consts =
  XR_PACKET_SIZE_def XR_PACKET_PAYLOAD_OFFSET_def XR_PACKET_PAYLOAD_LEN_def

record xr_grid_entity_packet_t =
  global_id :: u32
  pos_um_x :: i64
  pos_um_y :: i64
  pos_um_z :: i64
  vel_x :: i16
  vel_y :: i16
  vel_z :: i16
  hlc :: u32
  class_owner :: u32
  sub_index :: u32
  rot_x :: i16
  rot_y :: i16
  rot_z :: i16
  payload :: bytes

text \<open>The payload is a C array of fixed length: the type invariant of the record.\<close>

definition packet_wf :: "xr_grid_entity_packet_t \<Rightarrow> bool" where
  "packet_wf p \<longleftrightarrow> length (payload p) = XR_PACKET_PAYLOAD_LEN"

subsection \<open>Operations\<close>

definition put_u32 :: "bytes \<Rightarrow> nat \<Rightarrow> u32 \<Rightarrow> bytes option" where
  "put_u32 b off v =
     for_loop 0 4 (\<lambda>i b. buf_write b (off + i) (ucast (drop_bit (i * 8) v AND 0xFF))) b"

definition get_u32 :: "bytes \<Rightarrow> nat \<Rightarrow> u32 option" where
  "get_u32 b off =
     for_loop 0 4 (\<lambda>i v. Option.bind (buf_read b (off + i))
       (\<lambda>x. Some (v OR push_bit (i * 8) (ucast x)))) 0"

definition put_i64 :: "bytes \<Rightarrow> nat \<Rightarrow> i64 \<Rightarrow> bytes option" where
  "put_i64 b off v =
     (let u = (v :: u64) in
      for_loop 0 8 (\<lambda>i b. buf_write b (off + i) (ucast (drop_bit (i * 8) u AND 0xFF))) b)"

definition get_i64 :: "bytes \<Rightarrow> nat \<Rightarrow> i64 option" where
  "get_i64 b off =
     for_loop 0 8 (\<lambda>i u. Option.bind (buf_read b (off + i))
       (\<lambda>x. Some (u OR push_bit (i * 8) (ucast x)))) (0 :: u64)"

definition put_i16 :: "bytes \<Rightarrow> nat \<Rightarrow> i16 \<Rightarrow> bytes option" where
  "put_i16 b off v =
     (let u = (v :: u16) in do {
        b \<leftarrow> buf_write b off (ucast (u AND 0xFF));
        buf_write b (off + 1) (ucast (drop_bit 8 u AND 0xFF))
      })"

definition get_i16 :: "bytes \<Rightarrow> nat \<Rightarrow> i16 option" where
  "get_i16 b off = do {
     lo \<leftarrow> buf_read b off;
     hi \<leftarrow> buf_read b (off + 1);
     Some ((ucast lo :: u16) OR push_bit 8 (ucast hi))
   }"

definition xr_grid_entity_packet_encode :: "xr_grid_entity_packet_t \<Rightarrow> bytes \<Rightarrow> bytes option" where
  "xr_grid_entity_packet_encode p buf = do {
     buf \<leftarrow> memset buf 0 0 XR_PACKET_SIZE;
     buf \<leftarrow> put_u32 buf 0 (global_id p);
     buf \<leftarrow> put_i64 buf 4 (pos_um_x p);
     buf \<leftarrow> put_i64 buf 12 (pos_um_y p);
     buf \<leftarrow> put_i64 buf 20 (pos_um_z p);
     buf \<leftarrow> put_i16 buf 28 (vel_x p);
     buf \<leftarrow> put_i16 buf 30 (vel_y p);
     buf \<leftarrow> put_i16 buf 32 (vel_z p);
     buf \<leftarrow> put_u32 buf 40 (hlc p);
     buf \<leftarrow> put_u32 buf 44 (class_owner p);
     buf \<leftarrow> put_u32 buf 48 (sub_index p);
     buf \<leftarrow> put_i16 buf 52 (rot_x p);
     buf \<leftarrow> put_i16 buf 54 (rot_y p);
     buf \<leftarrow> put_i16 buf 56 (rot_z p);
     memcpy buf XR_PACKET_PAYLOAD_OFFSET (payload p) 0 XR_PACKET_PAYLOAD_LEN
   }"

definition xr_grid_entity_packet_decode ::
    "bytes \<Rightarrow> xr_grid_entity_packet_t \<Rightarrow> xr_grid_entity_packet_t option" where
  "xr_grid_entity_packet_decode buf p = do {
     v_global_id \<leftarrow> get_u32 buf 0;
     v_pos_x \<leftarrow> get_i64 buf 4;
     v_pos_y \<leftarrow> get_i64 buf 12;
     v_pos_z \<leftarrow> get_i64 buf 20;
     v_vel_x \<leftarrow> get_i16 buf 28;
     v_vel_y \<leftarrow> get_i16 buf 30;
     v_vel_z \<leftarrow> get_i16 buf 32;
     v_hlc \<leftarrow> get_u32 buf 40;
     v_class_owner \<leftarrow> get_u32 buf 44;
     v_sub_index \<leftarrow> get_u32 buf 48;
     v_rot_x \<leftarrow> get_i16 buf 52;
     v_rot_y \<leftarrow> get_i16 buf 54;
     v_rot_z \<leftarrow> get_i16 buf 56;
     v_payload \<leftarrow> memcpy (payload p) 0 buf XR_PACKET_PAYLOAD_OFFSET XR_PACKET_PAYLOAD_LEN;
     Some (p\<lparr>global_id := v_global_id,
             pos_um_x := v_pos_x, pos_um_y := v_pos_y, pos_um_z := v_pos_z,
             vel_x := v_vel_x, vel_y := v_vel_y, vel_z := v_vel_z,
             hlc := v_hlc, class_owner := v_class_owner, sub_index := v_sub_index,
             rot_x := v_rot_x, rot_y := v_rot_y, rot_z := v_rot_z,
             payload := v_payload\<rparr>)
   }"

subsection \<open>The interface of a wire field\<close>

text \<open>\<open>zero_pad a n r\<close> is a buffer whose written part is \<open>a\<close>, followed by \<open>n\<close>
  bytes that are still zero from memset and by \<open>r\<close>, the bytes behind the packet.\<close>

definition zero_pad :: "bytes \<Rightarrow> nat \<Rightarrow> bytes \<Rightarrow> bytes" where
  "zero_pad a n r = a @ replicate n 0 @ r"

lemma overwrite_zero_pad:
  assumes "length a \<le> off" and "off + length xs \<le> length a + n"
  shows "overwrite off xs (zero_pad a n r) =
    zero_pad (a @ replicate (off - length a) 0 @ xs) (n - (off - length a) - length xs) r"
proof -
  obtain g where g: "off = length a + g" using assms(1) le_Suc_ex by blast
  obtain m where m: "n = g + length xs + m"
    using assms(2) g by (metis add_le_cancel_left add.assoc le_Suc_ex)
  show ?thesis
    by (simp add: overwrite_def zero_pad_def g m replicate_add)
qed

locale wire_field =
  fixes width :: nat
    and put :: "bytes \<Rightarrow> nat \<Rightarrow> 'v \<Rightarrow> bytes option"
    and get :: "bytes \<Rightarrow> nat \<Rightarrow> 'v option"
    and enc :: "'v \<Rightarrow> bytes"
    and dec :: "bytes \<Rightarrow> 'v"
  assumes length_enc: "length (enc v) = width"
    and put_eq: "put b off v =
      (if off + width \<le> length b then Some (overwrite off (enc v) b) else None)"
    and get_eq: "get b off =
      (if off + width \<le> length b then Some (dec (chunk off width b)) else None)"
    and dec_enc: "dec (enc v) = v"
    and enc_dec: "length bs = width \<Longrightarrow> enc (dec bs) = bs"
begin

lemma put_then_get: "put b off v = Some b' \<Longrightarrow> get b' off = Some v"
  by (auto simp: put_eq get_eq length_enc dec_enc
      chunk_overwrite_same[of off "enc v", unfolded length_enc] split: if_splits)

lemma put_keeps_other_field:
  assumes "put b off v = Some b'" and "o' + width \<le> off \<or> off + width \<le> o'"
  shows "get b' o' = get b o'"
  using assms
  by (auto simp: put_eq get_eq length_enc chunk_overwrite_disjoint split: if_splits)

lemma get_then_put: "get b off = Some v \<Longrightarrow> put b off v = Some b"
  by (auto simp: put_eq get_eq enc_dec overwrite_chunk_id split: if_splits)

lemma put_zero_pad:
  assumes "length a \<le> off" and "off + width \<le> length a + n"
  shows "put (zero_pad a n r) off v =
    Some (zero_pad (a @ replicate (off - length a) 0 @ enc v) (n - (off - length a) - width) r)"
  using assms overwrite_zero_pad[of a off "enc v" n r]
  by (simp add: put_eq length_enc) (simp add: zero_pad_def)

lemma get_in: "off + width \<le> length b \<Longrightarrow> get b off = Some (dec (chunk off width b))"
  by (simp add: get_eq)

lemma get_out: "length b < off + width \<Longrightarrow> get b off = None"
  by (simp add: get_eq)

end

lemma put_u32_eq: "put_u32 b off v =
    (if off + 4 \<le> length b then Some (overwrite off (le_bytes 4 v) b) else None)"
  unfolding put_u32_def le_bytes_def by (subst for_loop_write) simp

lemma get_u32_eq: "get_u32 b off =
    (if off + 4 \<le> length b then Some (le_word 4 (chunk off 4 b)) else None)"
  unfolding get_u32_def le_word_def by (subst for_loop_read) simp

interpretation u32_field: wire_field 4 put_u32 get_u32 "le_bytes 4" "le_word 4"
  by unfold_locales (simp_all add: put_u32_eq get_u32_eq le_word_le_bytes le_bytes_le_word)

lemma put_i64_eq: "put_i64 b off v =
    (if off + 8 \<le> length b then Some (overwrite off (le_bytes 8 v) b) else None)"
  unfolding put_i64_def le_bytes_def Let_def by (subst for_loop_write) simp

lemma get_i64_eq: "get_i64 b off =
    (if off + 8 \<le> length b then Some (le_word 8 (chunk off 8 b)) else None)"
  unfolding get_i64_def le_word_def by (subst for_loop_read) simp

interpretation i64_field: wire_field 8 put_i64 get_i64 "le_bytes 8" "le_word 8"
  by unfold_locales (simp_all add: put_i64_eq get_i64_eq le_word_le_bytes le_bytes_le_word)

text \<open>The two-byte helpers are written without a loop; they are the same two steps.\<close>

lemma put_i16_eq: "put_i16 b off v =
    (if off + 2 \<le> length b then Some (overwrite off (le_bytes 2 v) b) else None)"
proof -
  have "put_i16 b off v =
      for_loop 0 2 (\<lambda>i b. buf_write b (off + i) (ucast (drop_bit (i * 8) v AND 0xFF))) b"
    by (simp add: put_i16_def for_loop_snoc numeral_2_eq_2 Let_def)
  then show ?thesis by (simp add: for_loop_write le_bytes_def)
qed

lemma get_i16_eq: "get_i16 b off =
    (if off + 2 \<le> length b then Some (le_word 2 (chunk off 2 b)) else None)"
  by (auto simp: get_i16_def buf_read_def le_word_def upt_rec nth_chunk numeral_2_eq_2)

interpretation i16_field: wire_field 2 put_i16 get_i16 "le_bytes 2" "le_word 2"
  by unfold_locales (simp_all add: put_i16_eq get_i16_eq le_word_le_bytes le_bytes_le_word)

lemmas field_puts = u32_field.put_zero_pad i64_field.put_zero_pad i16_field.put_zero_pad
lemmas field_gets = u32_field.get_in i64_field.get_in i16_field.get_in


subsection \<open>The wire layout\<close>

text \<open>The field table of the header: thirteen little-endian fields, six reserved zero
  bytes at offset 34, and the payload.\<close>

definition packet_wire :: "xr_grid_entity_packet_t \<Rightarrow> bytes" where
  "packet_wire p =
     le_bytes 4 (global_id p) @
     le_bytes 8 (pos_um_x p) @ le_bytes 8 (pos_um_y p) @ le_bytes 8 (pos_um_z p) @
     le_bytes 2 (vel_x p) @ le_bytes 2 (vel_y p) @ le_bytes 2 (vel_z p) @
     replicate 6 0 @
     le_bytes 4 (hlc p) @ le_bytes 4 (class_owner p) @ le_bytes 4 (sub_index p) @
     le_bytes 2 (rot_x p) @ le_bytes 2 (rot_y p) @ le_bytes 2 (rot_z p) @
     payload p"

definition wire_packet :: "bytes \<Rightarrow> xr_grid_entity_packet_t" where
  "wire_packet b =
     \<lparr>global_id = le_word 4 (chunk 0 4 b),
      pos_um_x = le_word 8 (chunk 4 8 b),
      pos_um_y = le_word 8 (chunk 12 8 b),
      pos_um_z = le_word 8 (chunk 20 8 b),
      vel_x = le_word 2 (chunk 28 2 b),
      vel_y = le_word 2 (chunk 30 2 b),
      vel_z = le_word 2 (chunk 32 2 b),
      hlc = le_word 4 (chunk 40 4 b),
      class_owner = le_word 4 (chunk 44 4 b),
      sub_index = le_word 4 (chunk 48 4 b),
      rot_x = le_word 2 (chunk 52 2 b),
      rot_y = le_word 2 (chunk 54 2 b),
      rot_z = le_word 2 (chunk 56 2 b),
      payload = chunk 58 42 b\<rparr>"

lemma length_packet_wire: "packet_wf p \<Longrightarrow> length (packet_wire p) = 100"
  by (simp add: packet_wire_def packet_wf_def packet_consts)

lemma memset_zero_pad:
  "n \<le> length b \<Longrightarrow> memset b 0 0 n = Some (zero_pad [] n (drop n b))"
  by (simp add: memset_def zero_pad_def overwrite_def)

lemma memcpy_zero_pad:
  assumes "length src = n" and "length a = off"
  shows "memcpy (zero_pad a n r) off src 0 n = Some (a @ src @ r)"
  using assms by (simp add: memcpy_def zero_pad_def overwrite_def chunk_def)

lemma encode_in:
  assumes "packet_wf p" and "100 \<le> length buf"
  shows "xr_grid_entity_packet_encode p buf = Some (packet_wire p @ drop 100 buf)"
  using assms
  by (simp add: xr_grid_entity_packet_encode_def packet_consts packet_wf_def memset_zero_pad
      field_puts memcpy_zero_pad packet_wire_def)

lemma encode_out:
  "length buf < 100 \<Longrightarrow> xr_grid_entity_packet_encode p buf = None"
  by (simp add: xr_grid_entity_packet_encode_def memset_def packet_consts)

lemma decode_in:
  assumes "packet_wf p0" and "100 \<le> length buf"
  shows "xr_grid_entity_packet_decode buf p0 = Some (wire_packet buf)"
proof -
  have "memcpy (payload p0) 0 buf 58 42 = Some (chunk 58 42 buf)"
    using assms by (simp add: memcpy_def packet_wf_def packet_consts overwrite_def)
  then show ?thesis
    using assms(2)
    by (simp add: xr_grid_entity_packet_decode_def packet_consts field_gets wire_packet_def)
qed

lemma wire_packet_wf: "100 \<le> length buf \<Longrightarrow> packet_wf (wire_packet buf)"
  by (simp add: wire_packet_def packet_wf_def packet_consts)

lemma wire_packet_packet_wire:
  assumes "packet_wf p"
  shows "wire_packet (packet_wire p @ r) = p"
  using assms
  by (simp add: wire_packet_def packet_wire_def chunk_def packet_wf_def packet_consts
      le_word_le_bytes)

lemma chunk_chunk_append:
  "chunk off n b @ chunk (off + n) m b = chunk off (n + m) b"
  by (simp add: chunk_def take_add add.commute[of n off])

text \<open>Re-encoding a decoded buffer gives its first hundred bytes with the six reserved
  bytes cleared.\<close>

lemma packet_wire_wire_packet:
  assumes "100 \<le> length b"
  shows "packet_wire (wire_packet b) = chunk 0 34 b @ replicate 6 0 @ chunk 40 60 b"
proof -
  have head: "chunk 0 34 b = chunk 0 4 b @ chunk 4 8 b @ chunk 12 8 b @ chunk 20 8 b @
      chunk 28 2 b @ chunk 30 2 b @ chunk 32 2 b"
    using chunk_chunk_append[of 0 4 b 30] chunk_chunk_append[of 4 8 b 22]
      chunk_chunk_append[of 12 8 b 14] chunk_chunk_append[of 20 8 b 6]
      chunk_chunk_append[of 28 2 b 4] chunk_chunk_append[of 30 2 b 2] by simp
  have tail: "chunk 40 60 b = chunk 40 4 b @ chunk 44 4 b @ chunk 48 4 b @
      chunk 52 2 b @ chunk 54 2 b @ chunk 56 2 b @ chunk 58 42 b"
    using chunk_chunk_append[of 40 4 b 56] chunk_chunk_append[of 44 4 b 52]
      chunk_chunk_append[of 48 4 b 48] chunk_chunk_append[of 52 2 b 46]
      chunk_chunk_append[of 54 2 b 44] chunk_chunk_append[of 56 2 b 42] by simp
  show ?thesis
    using assms
    by (simp add: packet_wire_def wire_packet_def head tail le_bytes_le_word)
qed

lemma take_100_chunks: "take 100 b = chunk 0 34 b @ chunk 34 6 b @ chunk 40 60 b"
  using chunk_chunk_append[of 0 34 b 66] chunk_chunk_append[of 34 6 b 60]
  by (simp add: chunk_def)


subsection \<open>Correctness of the codec\<close>

text \<open>C18: encode writes exactly the documented layout. On a buffer of at least 100 bytes
  it never leaves the buffer, overwrites the first 100 bytes with the field table (little
  endian, six reserved zero bytes) whatever the buffer held before, and keeps every byte
  behind them; on a shorter buffer it runs out of bounds.\<close>

theorem encode_layout:
  assumes "packet_wf p"
  shows "xr_grid_entity_packet_encode p buf =
    (if 100 \<le> length buf then Some (packet_wire p @ drop 100 buf) else None)"
  using assms by (simp add: encode_in encode_out)

definition sample_packet :: xr_grid_entity_packet_t where
  "sample_packet =
     \<lparr>global_id = 7, pos_um_x = 1000, pos_um_y = -5, pos_um_z = 0x0102030405060708,
      vel_x = 100, vel_y = -100, vel_z = 32767, hlc = 0x1FF, class_owner = 0x01000002,
      sub_index = 9, rot_x = -1, rot_y = 2, rot_z = -3, payload = replicate 42 0xAB\<rparr>"

lemma sample_packet_wf: "packet_wf sample_packet"
  by (simp add: packet_wf_def sample_packet_def packet_consts)

theorem encode_layout_witness:
  "packet_wf sample_packet \<and>
   xr_grid_entity_packet_encode sample_packet (replicate 101 0xEE) =
     Some (packet_wire sample_packet @ [0xEE])"
  using encode_layout[OF sample_packet_wf, of "replicate 101 0xEE"] sample_packet_wf
  by simp

text \<open>C16: decode after encode is the identity. For every packet, every target struct and
  every buffer of at least 100 bytes, encoding succeeds and decoding the result (with
  whatever bytes follow the packet) gives back all fourteen fields.\<close>

theorem decode_encode:
  assumes "packet_wf p" and "packet_wf p0" and "100 \<le> length buf"
  shows "\<exists>b. xr_grid_entity_packet_encode p buf = Some b \<and> length b = length buf \<and>
             xr_grid_entity_packet_decode b p0 = Some p"
proof (intro exI conjI)
  let ?b = "packet_wire p @ drop 100 buf"
  show "xr_grid_entity_packet_encode p buf = Some ?b"
    using assms by (simp add: encode_in)
  show "length ?b = length buf" using assms by (simp add: length_packet_wire)
  then show "xr_grid_entity_packet_decode ?b p0 = Some p"
    using assms by (simp add: decode_in wire_packet_packet_wire del: length_append)
qed

theorem decode_encode_witness:
  "packet_wf sample_packet \<and> 100 \<le> length (replicate 100 (0::u8)) \<and>
   (\<exists>b. xr_grid_entity_packet_encode sample_packet (replicate 100 0) = Some b \<and>
        length b = length (replicate 100 (0::u8)) \<and>
        xr_grid_entity_packet_decode b sample_packet = Some sample_packet)"
  using decode_encode[OF sample_packet_wf sample_packet_wf, of "replicate 100 0"]
    sample_packet_wf by simp

text \<open>C17: decode never reads outside a buffer of at least 100 bytes, and encoding what
  it read reproduces those 100 bytes exactly when the six reserved bytes at offset 34 are
  zero; otherwise the reserved bytes, and only they, are cleared.\<close>

theorem encode_decode:
  assumes "packet_wf p0" and "100 \<le> length b" and "100 \<le> length buf"
  shows "\<exists>p b'. xr_grid_entity_packet_decode b p0 = Some p \<and> packet_wf p \<and>
    xr_grid_entity_packet_encode p buf = Some b' \<and>
    take 100 b' = chunk 0 34 b @ replicate 6 0 @ chunk 40 60 b \<and>
    (take 100 b' = take 100 b \<longleftrightarrow> chunk 34 6 b = replicate 6 0)"
proof (intro exI conjI)
  let ?p = "wire_packet b" and ?b' = "packet_wire (wire_packet b) @ drop 100 buf"
  show "xr_grid_entity_packet_decode b p0 = Some ?p" using assms by (simp add: decode_in)
  show wf: "packet_wf ?p" using assms by (simp add: wire_packet_wf)
  show "xr_grid_entity_packet_encode ?p buf = Some ?b'"
    using wf assms by (simp add: encode_in)
  show t: "take 100 ?b' = chunk 0 34 b @ replicate 6 0 @ chunk 40 60 b"
    using assms length_packet_wire[OF wf] by (simp add: packet_wire_wire_packet)
  show "take 100 ?b' = take 100 b \<longleftrightarrow> chunk 34 6 b = replicate 6 0"
    unfolding t take_100_chunks[of b] by auto
qed

text \<open>The first golden vector of the test suite.\<close>

definition golden_row_1 :: bytes where
  "golden_row_1 =
   [0x01, 0x00, 0x00, 0x00, 0x00, 0x6c, 0xca, 0x88, 0xff, 0xff, 0xff, 0xff, 0x37, 0x0a, 0xcb,
    0x88, 0xff, 0xff, 0xff, 0xff, 0x6e, 0xa8, 0xcb, 0x88, 0xff, 0xff, 0xff, 0xff, 0x01, 0x80,
    0x02, 0x80, 0x03, 0x80, 0x00, 0x00, 0x00, 0x00, 0x00, 0x00, 0x02, 0x00, 0x00, 0x00, 0x03,
    0x00, 0x00, 0x00, 0x04, 0x00, 0x00, 0x00, 0x04, 0x80, 0x05, 0x80, 0x06, 0x80, 0x00, 0x1f,
    0x3e, 0x5d, 0x7c, 0x9b, 0xba, 0xd9, 0xf8, 0x17, 0x36, 0x55, 0x74, 0x93, 0xb2, 0xd1, 0xf0,
    0x0f, 0x2e, 0x4d, 0x6c, 0x8b, 0xaa, 0xc9, 0xe8, 0x07, 0x26, 0x45, 0x64, 0x83, 0xa2, 0xc1,
    0xe0, 0xff, 0x1e, 0x3d, 0x5c, 0x7b, 0x9a, 0xb9, 0xd8, 0xf7]"

theorem encode_decode_witness:
  "packet_wf sample_packet \<and> 100 \<le> length golden_row_1 \<and> chunk 34 6 golden_row_1 = replicate 6 0 \<and>
   (\<exists>p b'. xr_grid_entity_packet_decode golden_row_1 sample_packet = Some p \<and>
      xr_grid_entity_packet_encode p (replicate 100 0) = Some b' \<and>
      take 100 b' = golden_row_1)"
proof -
  have len: "length golden_row_1 = 100" by (simp add: golden_row_1_def)
  have gap: "chunk 34 6 golden_row_1 = replicate 6 0"
    by (simp add: golden_row_1_def chunk_def numeral_eq_Suc)
  show ?thesis
    using encode_decode[OF sample_packet_wf, of golden_row_1 "replicate 100 0"] len gap
      sample_packet_wf by auto
qed

end
