(* ===== verification/Kv.thy ===== *)
theory Kv
  imports Packet
begin

text \<open>
  The FoundationDB keyspace and value encoding: \<^verbatim>\<open>src/zf_kv.{h,c}\<close>.

  A key builder writes into a caller's buffer and returns the length; the key the caller
  hands to the database is the prefix of that length (\<open>c_key\<close>). Keys are compared as
  the database compares them, lexicographically by unsigned bytes, which is the order on
  \<open>u8 list\<close>. A C pointer into a buffer (\<^verbatim>\<open>buf + off\<close>) is the buffer with an offset.
  The zone value is a packed struct copied in host byte order: the byte order is the
  parameter \<open>host_le\<close>, and the double \<^verbatim>\<open>cost\<close> is its 64-bit pattern.
\<close>

subsection \<open>Data\<close>

definition c_string :: "string \<Rightarrow> bytes" where
  "c_string s = map of_char s"

definition SS_ZF_ZONE :: string where
  "SS_ZF_ZONE = ''zf/zone/''"

definition SS_ZF_ENTITY :: string where
  "SS_ZF_ENTITY = ''zf/entity/''"

record zf_zone_val_t =
  authority_cap :: u32
  interest_cap :: u32
  cost :: u64
  population :: u32

type_synonym zf_entity_val_t = xr_grid_entity_packet_t

definition ZF_ZONE_VAL_SIZE :: nat where
  "ZF_ZONE_VAL_SIZE = 20"

definition ZF_ENTITY_VAL_SIZE :: nat where
  "ZF_ENTITY_VAL_SIZE = XR_PACKET_SIZE"

text \<open>The structs after \<^verbatim>\<open>memset(val, 0, sizeof(*val))\<close>.\<close>

definition packet_zero :: zf_entity_val_t where
  "packet_zero =
     \<lparr>global_id = 0, pos_um_x = 0, pos_um_y = 0, pos_um_z = 0, vel_x = 0, vel_y = 0, vel_z = 0,
      hlc = 0, class_owner = 0, sub_index = 0, rot_x = 0, rot_y = 0, rot_z = 0,
      payload = replicate 42 0\<rparr>"

definition zone_val_zero :: zf_zone_val_t where
  "zone_val_zero = \<lparr>authority_cap = 0, interest_cap = 0, cost = 0, population = 0\<rparr>"

subsection \<open>Operations\<close>

definition zf_kv_encode_u32_be :: "bytes \<Rightarrow> nat \<Rightarrow> u32 \<Rightarrow> bytes option" where
  "zf_kv_encode_u32_be buf off val = do {
     buf \<leftarrow> buf_write buf (off + 0) (ucast (drop_bit 24 val AND 0xFF));
     buf \<leftarrow> buf_write buf (off + 1) (ucast (drop_bit 16 val AND 0xFF));
     buf \<leftarrow> buf_write buf (off + 2) (ucast (drop_bit 8 val AND 0xFF));
     buf_write buf (off + 3) (ucast (val AND 0xFF))
   }"

definition zf_kv_decode_u32_be :: "bytes \<Rightarrow> nat \<Rightarrow> u32 option" where
  "zf_kv_decode_u32_be buf off = do {
     b0 \<leftarrow> buf_read buf (off + 0);
     b1 \<leftarrow> buf_read buf (off + 1);
     b2 \<leftarrow> buf_read buf (off + 2);
     b3 \<leftarrow> buf_read buf (off + 3);
     Some (push_bit 24 (ucast b0) OR push_bit 16 (ucast b1) OR push_bit 8 (ucast b2) OR ucast b3)
   }"

definition append_prefix :: "bytes \<Rightarrow> string \<Rightarrow> (bytes \<times> nat) option" where
  "append_prefix buf prefix = do {
     let len = length prefix;
     buf \<leftarrow> memcpy buf 0 (c_string prefix) 0 len;
     Some (buf, len)
   }"

definition zf_kv_zone_key :: "bytes \<Rightarrow> u32 \<Rightarrow> (bytes \<times> nat) option" where
  "zf_kv_zone_key buf z_id = do {
     (buf, off) \<leftarrow> append_prefix buf SS_ZF_ZONE;
     buf \<leftarrow> zf_kv_encode_u32_be buf off z_id;
     Some (buf, off + 4)
   }"

definition zf_kv_entity_key :: "bytes \<Rightarrow> u32 \<Rightarrow> u32 \<Rightarrow> (bytes \<times> nat) option" where
  "zf_kv_entity_key buf z_id e_id = do {
     (buf, off) \<leftarrow> append_prefix buf SS_ZF_ENTITY;
     buf \<leftarrow> zf_kv_encode_u32_be buf off z_id;
     let off = off + 4;
     buf \<leftarrow> buf_write buf off (of_char (CHR ''/''));
     let off = off + 1;
     buf \<leftarrow> zf_kv_encode_u32_be buf off e_id;
     Some (buf, off + 4)
   }"

definition zf_kv_entity_range_begin :: "bytes \<Rightarrow> u32 \<Rightarrow> (bytes \<times> nat) option" where
  "zf_kv_entity_range_begin buf z_id = do {
     (buf, off) \<leftarrow> append_prefix buf SS_ZF_ENTITY;
     buf \<leftarrow> zf_kv_encode_u32_be buf off z_id;
     let off = off + 4;
     buf \<leftarrow> buf_write buf off (of_char (CHR ''/''));
     let off = off + 1;
     Some (buf, off)
   }"

definition zf_kv_entity_range_end :: "bytes \<Rightarrow> u32 \<Rightarrow> (bytes \<times> nat) option" where
  "zf_kv_entity_range_end buf z_id = do {
     (buf, off) \<leftarrow> zf_kv_entity_range_begin buf z_id;
     buf \<leftarrow> buf_write buf off 0xFF;
     let off = off + 1;
     Some (buf, off)
   }"

text \<open>The bytes of the packed zone struct in host order, and the struct they stand for.\<close>

definition host_bytes :: "bool \<Rightarrow> nat \<Rightarrow> 'a::len word \<Rightarrow> bytes" where
  "host_bytes host_le n w = (if host_le then le_bytes n w else rev (le_bytes n w))"

definition host_word :: "bool \<Rightarrow> nat \<Rightarrow> bytes \<Rightarrow> 'a::len word" where
  "host_word host_le n bs = (if host_le then le_word n bs else le_word n (rev bs))"

definition zone_val_bytes :: "bool \<Rightarrow> zf_zone_val_t \<Rightarrow> bytes" where
  "zone_val_bytes host_le v =
     host_bytes host_le 4 (authority_cap v) @ host_bytes host_le 4 (interest_cap v) @
     host_bytes host_le 8 (cost v) @ host_bytes host_le 4 (population v)"

definition zone_val_of_bytes :: "bool \<Rightarrow> bytes \<Rightarrow> zf_zone_val_t" where
  "zone_val_of_bytes host_le b =
     \<lparr>authority_cap = host_word host_le 4 (chunk 0 4 b),
      interest_cap = host_word host_le 4 (chunk 4 4 b),
      cost = host_word host_le 8 (chunk 8 8 b),
      population = host_word host_le 4 (chunk 16 4 b)\<rparr>"

definition zf_kv_encode_zone :: "bool \<Rightarrow> bytes \<Rightarrow> zf_zone_val_t \<Rightarrow> bytes option" where
  "zf_kv_encode_zone host_le buf val =
     memcpy buf 0 (zone_val_bytes host_le val) 0 ZF_ZONE_VAL_SIZE"

definition zf_kv_decode_zone :: "bool \<Rightarrow> bytes \<Rightarrow> int \<Rightarrow> zf_zone_val_t option" where
  "zf_kv_decode_zone host_le buf len =
     (if int ZF_ZONE_VAL_SIZE \<le> len
      then map_option (zone_val_of_bytes host_le)
             (memcpy (zone_val_bytes host_le zone_val_zero) 0 buf 0 ZF_ZONE_VAL_SIZE)
      else Some zone_val_zero)"

definition zf_kv_encode_entity :: "bytes \<Rightarrow> zf_entity_val_t \<Rightarrow> bytes option" where
  "zf_kv_encode_entity buf val = xr_grid_entity_packet_encode val buf"

definition zf_kv_decode_entity :: "bytes \<Rightarrow> int \<Rightarrow> zf_entity_val_t option" where
  "zf_kv_decode_entity buf len =
     (if int ZF_ENTITY_VAL_SIZE \<le> len
      then xr_grid_entity_packet_decode buf packet_zero
      else Some packet_zero)"

text \<open>The key a caller passes on: the first \<open>len\<close> bytes of the buffer.\<close>

fun c_key :: "(bytes \<times> nat) option \<Rightarrow> bytes" where
  "c_key (Some (buf, len)) = take len buf"
| "c_key None = []"


subsection \<open>Big-endian words\<close>

definition be32 :: "u32 \<Rightarrow> bytes" where
  "be32 w = rev (le_bytes 4 w)"

lemma length_be32 [simp]: "length (be32 w) = 4"
  by (simp add: be32_def)

lemma be32_eq:
  "be32 w = [ucast (drop_bit 24 w AND 0xFF), ucast (drop_bit 16 w AND 0xFF),
             ucast (drop_bit 8 w AND 0xFF), ucast (w AND 0xFF)]"
  by (simp add: be32_def le_bytes_def upt_rec)

lemma be32_inject [simp]: "be32 v = be32 w \<longleftrightarrow> v = w"
proof
  assume "be32 v = be32 w"
  then have "le_word 4 (le_bytes 4 v) = (le_word 4 (le_bytes 4 w) :: u32)"
    by (simp add: be32_def)
  then show "v = w" by (simp add: le_word_le_bytes)
qed simp

lemma unat_byte_of_u32:
  "unat (ucast (drop_bit n (w :: u32) AND 0xFF) :: u8) = unat w div 2 ^ n mod 256"
proof -
  have "drop_bit n w AND 0xFF = take_bit 8 (drop_bit n w)"
    by (simp add: take_bit_eq_mask mask_eq_exp_minus_1)
  then have "unat (ucast (drop_bit n w AND 0xFF) :: u8) = take_bit 8 (drop_bit n (unat w))"
    using unsigned_less [of w, where ?'a = nat]
    by (simp only: unsigned_ucast_eq unsigned_take_bit_eq unsigned_drop_bit_eq)
      (simp add: take_bit_nat_eq_self)
  then show ?thesis by (simp add: take_bit_eq_mod drop_bit_eq_div)
qed

lemma nat_base_256:
  fixes n :: nat
  assumes "n < 4294967296"
  shows "n div 16777216 mod 256 * 16777216 + n div 65536 mod 256 * 65536 +
    n div 256 mod 256 * 256 + n mod 256 = n"
proof -
  have 1: "n div 256 * 256 + n mod 256 = n" by simp
  have 2: "n div 65536 * 256 + n div 256 mod 256 = n div 256"
    using div_mult_mod_eq[of "n div 256" 256] div_mult2_eq[of n 256 256] by simp
  have 3: "n div 16777216 * 256 + n div 65536 mod 256 = n div 65536"
    using div_mult_mod_eq[of "n div 65536" 256] div_mult2_eq[of n 65536 256] by simp
  have 4: "n div 16777216 mod 256 = n div 16777216"
    using assms by (intro mod_less) (simp add: less_mult_imp_div_less)
  show ?thesis unfolding 4 using 1 2 3 by linarith
qed

lemma be_value_be32: "be_value (be32 w) = unat w"
proof -
  have "be_value (be32 w) = unat w div 16777216 mod 256 * 16777216 +
      unat w div 65536 mod 256 * 65536 + unat w div 256 mod 256 * 256 + unat w mod 256"
    using unat_byte_of_u32[of 24 w] unat_byte_of_u32[of 16 w] unat_byte_of_u32[of 8 w]
      unat_byte_of_u32[of 0 w]
    by (simp add: be32_eq)
  also have "\<dots> = unat w"
    using unsigned_less [of w, where ?'a = nat] by (intro nat_base_256) simp
  finally show ?thesis .
qed

lemma be32_less_iff: "be32 v < be32 w \<longleftrightarrow> v < w"
  by (simp add: lex_less_be_value be_value_be32 word_less_nat_alt)

lemma hd_be32_less: "hd (be32 w) < 0xFF \<longleftrightarrow> w < 0xFF000000"
proof -
  have "unat w div 2 ^ 24 < 256"
    using unsigned_less [of w, where ?'a = nat] by (simp add: less_mult_imp_div_less)
  then have "unat (hd (be32 w)) = unat w div 2 ^ 24"
    using unat_byte_of_u32[of 24 w] by (simp add: be32_eq)
  moreover have "unat w div 2 ^ 24 < 255 \<longleftrightarrow> unat w < 255 * 2 ^ 24"
    by (simp add: div_less_iff_less_mult)
  ultimately show ?thesis by (simp add: word_less_nat_alt)
qed

subsection \<open>What the key builders write\<close>

lemma overwrite_append:
  assumes "off + length xs + length ys \<le> length b"
  shows "overwrite (off + length xs) ys (overwrite off xs b) = overwrite off (xs @ ys) b"
  using assms by (intro nth_equalityI) (auto simp: nth_overwrite nth_append)

lemma buf_write_prefix:
  "length p < length b \<Longrightarrow>
     buf_write (overwrite 0 p b) (length p) v = Some (overwrite 0 (p @ [v]) b)"
  by (simp add: buf_write_def overwrite_snoc[of 0, simplified])

lemma encode_u32_be_prefix:
  assumes "length p + 4 \<le> length b"
  shows "zf_kv_encode_u32_be (overwrite 0 p b) (length p) w = Some (overwrite 0 (p @ be32 w) b)"
  using assms buf_write_prefix[of p b]
    buf_write_prefix[of "p @ [_]" b] buf_write_prefix[of "p @ [_, _]" b]
    buf_write_prefix[of "p @ [_, _, _]" b]
  by (simp add: zf_kv_encode_u32_be_def be32_eq numeral_3_eq_3)

lemma encode_u32_be_eq:
  "zf_kv_encode_u32_be b off w =
     (if off + 4 \<le> length b then Some (overwrite off (be32 w) b) else None)"
proof (cases "off + 4 \<le> length b")
  case True
  then have "overwrite 0 (take off b) b = b" by (simp add: overwrite_def)
  moreover have "overwrite 0 (take off b @ be32 w) b = overwrite off (be32 w) b"
    using True by (simp add: overwrite_def)
  ultimately show ?thesis
    using True encode_u32_be_prefix[of "take off b" b w] by simp
next
  case False
  then show ?thesis
    by (auto simp: zf_kv_encode_u32_be_def buf_write_def split: bind_splits if_splits)
qed


text \<open>The keys themselves. The prefix of a zone's entities is \<^verbatim>\<open>zf/entity/\<close>, the zone
  id and a slash.\<close>

definition entity_prefix :: "u32 \<Rightarrow> bytes" where
  "entity_prefix z = c_string SS_ZF_ENTITY @ be32 z @ [0x2F]"

definition entity_key :: "u32 \<Rightarrow> u32 \<Rightarrow> bytes" where
  "entity_key z e = c_key (zf_kv_entity_key (replicate 64 0) z e)"

definition zone_key :: "u32 \<Rightarrow> bytes" where
  "zone_key z = c_key (zf_kv_zone_key (replicate 64 0) z)"

definition range_begin :: "u32 \<Rightarrow> bytes" where
  "range_begin z = c_key (zf_kv_entity_range_begin (replicate 64 0) z)"

definition range_end :: "u32 \<Rightarrow> bytes" where
  "range_end z = c_key (zf_kv_entity_range_end (replicate 64 0) z)"

text \<open>Membership in the half-open range the zone tick scans.\<close>

definition in_zone_range :: "u32 \<Rightarrow> bytes \<Rightarrow> bool" where
  "in_zone_range z k \<longleftrightarrow> range_begin z \<le> k \<and> k < range_end z"

lemma length_c_string [simp]: "length (c_string s) = length s"
  by (simp add: c_string_def)

lemma length_SS [simp]: "length SS_ZF_ENTITY = 10" "length SS_ZF_ZONE = 8"
  by (simp_all add: SS_ZF_ENTITY_def SS_ZF_ZONE_def)

lemma length_entity_prefix [simp]: "length (entity_prefix z) = 15"
  by (simp add: entity_prefix_def)

lemma append_prefix_eq:
  "append_prefix b s =
     (if length s \<le> length b then Some (overwrite 0 (c_string s) b, length s) else None)"
  by (simp add: append_prefix_def memcpy_def chunk_def)

lemma encode_u32_be_overwrite:
  assumes "n = length p" and "n + 4 \<le> length b"
  shows "zf_kv_encode_u32_be (overwrite 0 p b) n w = Some (overwrite 0 (p @ be32 w) b)"
  using assms encode_u32_be_prefix by simp

lemma buf_write_overwrite:
  assumes "n = length p" and "n < length b"
  shows "buf_write (overwrite 0 p b) n v = Some (overwrite 0 (p @ [v]) b)"
  using assms buf_write_prefix by simp

lemmas key_steps = append_prefix_eq encode_u32_be_overwrite buf_write_overwrite

lemma zone_key_eq: "12 \<le> length b \<Longrightarrow>
    zf_kv_zone_key b z = Some (overwrite 0 (c_string SS_ZF_ZONE @ be32 z) b, 12)"
  by (simp add: zf_kv_zone_key_def key_steps)

lemma entity_key_eq: "19 \<le> length b \<Longrightarrow>
    zf_kv_entity_key b z e = Some (overwrite 0 (entity_prefix z @ be32 e) b, 19)"
  by (simp add: zf_kv_entity_key_def key_steps entity_prefix_def)

lemma range_begin_eq: "15 \<le> length b \<Longrightarrow>
    zf_kv_entity_range_begin b z = Some (overwrite 0 (entity_prefix z) b, 15)"
  by (simp add: zf_kv_entity_range_begin_def key_steps entity_prefix_def)

lemma range_end_eq: "16 \<le> length b \<Longrightarrow>
    zf_kv_entity_range_end b z = Some (overwrite 0 (entity_prefix z @ [0xFF]) b, 16)"
  by (simp add: zf_kv_entity_range_end_def range_begin_eq key_steps)

lemma take_overwrite: "n = length p \<Longrightarrow> take n (overwrite 0 p b) = p"
  by (simp add: overwrite_def)

lemma zone_key_bytes: "zone_key z = c_string SS_ZF_ZONE @ be32 z"
  by (simp add: zone_key_def zone_key_eq take_overwrite)

lemma entity_key_bytes: "entity_key z e = entity_prefix z @ be32 e"
  by (simp add: entity_key_def entity_key_eq take_overwrite)

lemma range_begin_bytes: "range_begin z = entity_prefix z"
  by (simp add: range_begin_def range_begin_eq take_overwrite)

lemma range_end_bytes: "range_end z = entity_prefix z @ [0xFF]"
  by (simp add: range_end_def range_end_eq take_overwrite)

lemmas key_bytes = zone_key_bytes entity_key_bytes range_begin_bytes range_end_bytes

lemma entity_prefix_inject [simp]: "entity_prefix z = entity_prefix z' \<longleftrightarrow> z = z'"
  by (simp add: entity_prefix_def)

lemma entity_prefix_less_iff: "entity_prefix z < entity_prefix z' \<longleftrightarrow> z < z'"
proof (cases "z = z'")
  case False
  then show ?thesis
    by (simp add: entity_prefix_def lex_append_neq be32_less_iff)
qed simp

subsection \<open>Key ranges\<close>

lemma prefix_range_iff:
  fixes p k :: bytes
  shows "p \<le> k \<and> k < p @ [c] \<longleftrightarrow> (\<exists>s. k = p @ s \<and> s < [c])"
proof (induction p arbitrary: k)
  case Nil
  then show ?case by simp
next
  case (Cons a p)
  then show ?case by (cases k) auto
qed

lemma less_singleton_iff: "(s :: bytes) < [c] \<longleftrightarrow> s = [] \<or> hd s < c"
  by (cases s) auto

lemma in_zone_range_iff:
  "in_zone_range z k \<longleftrightarrow> (\<exists>s. k = entity_prefix z @ s \<and> (s = [] \<or> hd s < 0xFF))"
  by (simp add: in_zone_range_def key_bytes prefix_range_iff less_singleton_iff)

lemma in_zone_range_prefix: "in_zone_range z k \<Longrightarrow> take 15 k = entity_prefix z"
  by (auto simp: in_zone_range_iff)

lemma in_zone_range_unique: "in_zone_range z k \<Longrightarrow> in_zone_range z' k \<Longrightarrow> z = z'"
  by (auto dest!: in_zone_range_prefix)

lemma entity_key_in_range_iff:
  "in_zone_range z (entity_key z' e) \<longleftrightarrow> z = z' \<and> e < 0xFF000000"
proof -
  have "be32 e \<noteq> []" by (metis length_be32 list.size(3) zero_neq_numeral)
  then show ?thesis
    by (auto simp: in_zone_range_iff entity_key_bytes hd_be32_less)
qed

lemma zone_key_not_in_range: "\<not> in_zone_range z (zone_key z')"
proof
  assume "in_zone_range z (zone_key z')"
  then have "zone_key z' ! 3 = entity_prefix z ! 3"
    by (auto simp: in_zone_range_iff nth_append)
  then show False
    by (simp add: zone_key_bytes entity_prefix_def nth_append SS_ZF_ENTITY_def SS_ZF_ZONE_def
        c_string_def)
qed

lemma entity_key_inject [simp]: "entity_key z e = entity_key z' e' \<longleftrightarrow> z = z' \<and> e = e'"
  by (simp add: entity_key_bytes)


subsection \<open>The interface of the keyspace\<close>

text \<open>What the zone tick relies on: a key belongs to at most one zone's range, an entity's
  key is never in a foreign range, and different entities have different keys.\<close>

locale zone_keyspace =
  fixes key :: "'z \<Rightarrow> 'e \<Rightarrow> bytes"
    and in_range :: "'z \<Rightarrow> bytes \<Rightarrow> bool"
  assumes range_unique: "in_range z k \<Longrightarrow> in_range z' k \<Longrightarrow> z = z'"
    and key_range: "in_range z (key z' e) \<Longrightarrow> z = z'"
    and key_unique: "key z e = key z' e' \<Longrightarrow> z = z' \<and> e = e'"
begin

lemma foreign_key_untouched:
  assumes "\<And>k v. (k, v) \<in> set ws \<Longrightarrow> in_range z k" and "z \<noteq> z'"
  shows "key z' e \<notin> fst ` set ws"
  using assms key_range by fastforce

lemma foreign_range_untouched:
  assumes "\<And>k v. (k, v) \<in> set ws \<Longrightarrow> in_range z k" and "z \<noteq> z'" and "in_range z' k"
  shows "k \<notin> fst ` set ws"
  using assms range_unique by fastforce

end

interpretation entity_keys: zone_keyspace entity_key in_zone_range
  by unfold_locales (auto simp: entity_key_in_range_iff intro: in_zone_range_unique)

subsection \<open>Values\<close>

lemma length_host_bytes [simp]: "length (host_bytes h n w) = n"
  by (simp add: host_bytes_def)

lemma host_word_host_bytes:
  fixes w :: "'a::len word"
  assumes "LENGTH('a) = n * 8"
  shows "host_word h n (host_bytes h n w) = w"
  using assms by (simp add: host_word_def host_bytes_def le_word_le_bytes)

lemma length_zone_val_bytes [simp]: "length (zone_val_bytes h v) = 20"
  by (simp add: zone_val_bytes_def)

lemma zone_val_of_bytes_inverse: "zone_val_of_bytes h (zone_val_bytes h v) = v"
  by (simp add: zone_val_of_bytes_def zone_val_bytes_def chunk_def host_word_host_bytes)

lemma packet_zero_wf [simp]: "packet_wf packet_zero"
  by (simp add: packet_wf_def packet_zero_def packet_consts)

lemma decode_entity_short: "len < 100 \<Longrightarrow> zf_kv_decode_entity b len = Some packet_zero"
  by (simp add: zf_kv_decode_entity_def ZF_ENTITY_VAL_SIZE_def packet_consts)

lemma decode_entity_long:
  "100 \<le> len \<Longrightarrow> 100 \<le> length b \<Longrightarrow> zf_kv_decode_entity b len = Some (wire_packet b)"
  by (simp add: zf_kv_decode_entity_def ZF_ENTITY_VAL_SIZE_def packet_consts decode_in)

subsection \<open>Correctness of the keyspace\<close>

text \<open>C31: the four key builders stay inside the caller's 64-byte buffer, write exactly the
  documented bytes in front, return the key's length, keep the rest of the buffer, and do
  not depend on what the buffer held.\<close>

theorem key_builders_write:
  assumes "length buf = 64"
  shows "zf_kv_zone_key buf z = Some (c_string ''zf/zone/'' @ be32 z @ drop 12 buf, 12) \<and>
    zf_kv_entity_key buf z e =
      Some (c_string ''zf/entity/'' @ be32 z @ [0x2F] @ be32 e @ drop 19 buf, 19) \<and>
    zf_kv_entity_range_begin buf z =
      Some (c_string ''zf/entity/'' @ be32 z @ [0x2F] @ drop 15 buf, 15) \<and>
    zf_kv_entity_range_end buf z =
      Some (c_string ''zf/entity/'' @ be32 z @ [0x2F, 0xFF] @ drop 16 buf, 16)"
  using assms
  by (simp_all add: zone_key_eq entity_key_eq range_begin_eq range_end_eq overwrite_def
      entity_prefix_def flip: SS_ZF_ENTITY_def SS_ZF_ZONE_def)

theorem key_builders_write_witness:
  "length (replicate 64 (0xCC :: u8)) = 64 \<and>
   zf_kv_entity_key (replicate 64 0xCC) 7 42 =
     Some (c_string ''zf/entity/'' @ be32 7 @ [0x2F] @ be32 42 @ replicate 45 0xCC, 19)"
  using key_builders_write[of "replicate 64 0xCC" 7 42] by simp

text \<open>C19: the key range a zone scans contains exactly the keys of its own entities whose id
  is below 0xFF000000. In particular no entity key of another zone is ever inside, and an
  entity whose id starts with the byte 0xFF is outside the range of its own zone.\<close>

theorem zone_range_exact:
  "range_begin z \<le> entity_key z' e \<and> entity_key z' e < range_end z \<longleftrightarrow>
     z = z' \<and> e < 0xFF000000"
  using entity_key_in_range_iff[of z z' e] by (simp add: in_zone_range_def)

text \<open>C20: zones are isolated. The ranges of two zones lie one behind the other in zone
  order, so no key at all, well formed or not, is in the ranges of two zones, and no
  zone-record key is in any entity range.\<close>

theorem zone_ranges_disjoint:
  "(z < z' \<longrightarrow> range_end z \<le> range_begin z') \<and>
   (in_zone_range z k \<and> in_zone_range z' k \<longrightarrow> z = z') \<and>
   \<not> in_zone_range z (zone_key z')"
proof (intro conjI impI)
  assume "z < z'"
  then have "entity_prefix z < entity_prefix z'" by (simp add: entity_prefix_less_iff)
  then show "range_end z \<le> range_begin z'"
    using lex_le_append_neq[of "entity_prefix z" "entity_prefix z'" "[0xFF]" "[]"]
    by (auto simp: key_bytes)
next
  assume "in_zone_range z k \<and> in_zone_range z' k"
  then show "z = z'" by (auto intro: in_zone_range_unique)
next
  show "\<not> in_zone_range z (zone_key z')" by (rule zone_key_not_in_range)
qed

theorem zone_ranges_disjoint_witness:
  "(1::u32) < 2 \<and> range_end 1 \<le> range_begin 2 \<and> in_zone_range 1 (entity_key 1 42) \<and>
   \<not> in_zone_range 2 (entity_key 1 42)"
  using zone_ranges_disjoint[of 1 2 "entity_key 1 42"] by (simp add: entity_key_in_range_iff)

text \<open>C21: byte order of keys is the order of ids. Entity keys sort by zone id and then by
  entity id, and distinct entities have distinct keys, so a range scan delivers a zone's
  entities in id order, each once.\<close>

theorem entity_key_order:
  "(entity_key z e < entity_key z' e' \<longleftrightarrow> z < z' \<or> z = z' \<and> e < e') \<and>
   (entity_key z e = entity_key z' e' \<longleftrightarrow> z = z' \<and> e = e')"
proof (cases "z = z'")
  case True
  then show ?thesis by (simp add: entity_key_bytes be32_less_iff)
next
  case False
  then show ?thesis
    by (simp add: entity_key_bytes lex_append_neq entity_prefix_less_iff)
qed

text \<open>The big-endian helpers are inverse to each other. Encoding succeeds exactly when
  four bytes fit, and decoding at the same place gives the value back.\<close>

lemma u32_be_roundtrip:
  "off + 4 \<le> length buf \<Longrightarrow>
     \<exists>b. zf_kv_encode_u32_be buf off v = Some b \<and> length b = length buf \<and>
         zf_kv_decode_u32_be b off = Some v"
proof -
  assume le: "off + 4 \<le> length buf"
  let ?b = "overwrite off (be32 v) buf"
  have nth: "?b ! (off + i) = be32 v ! i" if "i < 4" for i
    using le that by (simp add: nth_overwrite)
  have "le_word 4 (rev (be32 v)) = v" by (simp add: be32_def le_word_le_bytes)
  then have "push_bit 24 (ucast (be32 v ! 0)) OR push_bit 16 (ucast (be32 v ! 1)) OR
      push_bit 8 (ucast (be32 v ! 2)) OR ucast (be32 v ! 3) = v"
    by (simp add: le_word_def rev_nth upt_rec ac_simps)
  then have "zf_kv_decode_u32_be ?b off = Some v"
    using le nth[of 0] nth[of 1] nth[of 2] nth[of 3]
    by (simp add: zf_kv_decode_u32_be_def buf_read_def)
  then show ?thesis using le by (auto simp: encode_u32_be_eq)
qed

text \<open>C32: a stored zone record reads back unchanged, whatever the host byte order, also when
  the stored value is longer than the record; a value shorter than the 20-byte record is
  read as the all-zero record.\<close>

theorem zone_val_roundtrip:
  assumes "20 \<le> length buf"
  shows "\<exists>b. zf_kv_encode_zone host_le buf v = Some b \<and> length b = length buf \<and>
    zf_kv_decode_zone host_le b len = Some (if 20 \<le> len then v else zone_val_zero)"
proof -
  let ?b = "overwrite 0 (zone_val_bytes host_le v) buf"
  have "zf_kv_encode_zone host_le buf v = Some ?b"
    using assms by (simp add: zf_kv_encode_zone_def memcpy_def ZF_ZONE_VAL_SIZE_def chunk_def)
  moreover have "chunk 0 20 ?b = zone_val_bytes host_le v"
    using chunk_overwrite_same[of 0 "zone_val_bytes host_le v" buf] assms by simp
  ultimately show ?thesis
    using assms
    by (auto simp: zf_kv_decode_zone_def memcpy_def ZF_ZONE_VAL_SIZE_def
        overwrite_def[of 0 "zone_val_bytes host_le v" "zone_val_bytes host_le zone_val_zero"]
        zone_val_of_bytes_inverse)
qed

theorem zone_val_roundtrip_witness:
  "20 \<le> length (replicate 20 (0::u8)) \<and>
   (\<exists>b. zf_kv_encode_zone False (replicate 20 0)
          \<lparr>authority_cap = 1, interest_cap = 2, cost = 0x3FF0000000000000, population = 200\<rparr>
          = Some b \<and>
        zf_kv_decode_zone False b 20 = Some
          \<lparr>authority_cap = 1, interest_cap = 2, cost = 0x3FF0000000000000, population = 200\<rparr>)"
  using zone_val_roundtrip[where buf = "replicate 20 0" and host_le = False and len = 20 and
      v = "\<lparr>authority_cap = 1, interest_cap = 2, cost = 0x3FF0000000000000, population = 200\<rparr>"]
  by auto

end
