(* ===== verification/Rebac.thy ===== *)
theory Rebac
  imports Prelude
begin

text \<open>
  The access check: \<^verbatim>\<open>src/gen/rebac.{h,c}\<close>.

  The relation enum is a datatype ordered by its enumerator values, which makes the C
  comparisons of enumerators the order of the type. An action is one of the three
  enumerators or any other value an enum object of C can hold; the switch falls through
  to the fail-closed return for those. Arrays come with their element count, and reading
  behind the array is \<open>None\<close>.
\<close>

subsection \<open>Data\<close>

datatype rebac_relation_t =
    REBAC_RELATION_PUBLIC
  | REBAC_RELATION_INSTANCE_MEMBER
  | REBAC_RELATION_FRIEND
  | REBAC_RELATION_GUILD_MEMBER
  | REBAC_RELATION_OWNER

datatype rebac_action_t =
    REBAC_ACTION_OBSERVE
  | REBAC_ACTION_INTERACT
  | REBAC_ACTION_MODIFY
  | REBAC_ACTION_OTHER u32

fun relation_value :: "rebac_relation_t \<Rightarrow> nat" where
  "relation_value REBAC_RELATION_PUBLIC = 0"
| "relation_value REBAC_RELATION_INSTANCE_MEMBER = 1"
| "relation_value REBAC_RELATION_FRIEND = 2"
| "relation_value REBAC_RELATION_GUILD_MEMBER = 3"
| "relation_value REBAC_RELATION_OWNER = 4"

lemma relation_value_inject: "relation_value r = relation_value s \<Longrightarrow> r = s"
  by (cases r; cases s) simp_all

instantiation rebac_relation_t :: linorder
begin

definition less_eq_rebac_relation_t :: "rebac_relation_t \<Rightarrow> rebac_relation_t \<Rightarrow> bool" where
  "r \<le> s \<longleftrightarrow> relation_value r \<le> relation_value s"

definition less_rebac_relation_t :: "rebac_relation_t \<Rightarrow> rebac_relation_t \<Rightarrow> bool" where
  "r < s \<longleftrightarrow> relation_value r < relation_value s"

instance
  by standard
    (auto simp: less_eq_rebac_relation_t_def less_rebac_relation_t_def
      intro: relation_value_inject)

end

lemmas relation_order = less_eq_rebac_relation_t_def less_rebac_relation_t_def

lemma owner_top: "r \<le> REBAC_RELATION_OWNER"
  by (cases r) (simp_all add: relation_order)

lemma public_bottom: "REBAC_RELATION_PUBLIC \<le> r"
  by (cases r) (simp_all add: relation_order)

subsection \<open>Operations\<close>

definition rebac_action_min_relation :: "rebac_action_t \<Rightarrow> rebac_relation_t" where
  "rebac_action_min_relation action =
     (case action of
        REBAC_ACTION_OBSERVE \<Rightarrow> REBAC_RELATION_PUBLIC
      | REBAC_ACTION_INTERACT \<Rightarrow> REBAC_RELATION_INSTANCE_MEMBER
      | REBAC_ACTION_MODIFY \<Rightarrow> REBAC_RELATION_OWNER
      | REBAC_ACTION_OTHER _ \<Rightarrow> REBAC_RELATION_OWNER)"

definition read_relation :: "rebac_relation_t list \<Rightarrow> nat \<Rightarrow> rebac_relation_t option" where
  "read_relation relations i = (if i < length relations then Some (relations ! i) else None)"

text \<open>The outer option is undefined behaviour; the inner one is the C return value with the
  out-parameter: \<open>None\<close> for \<^verbatim>\<open>return false\<close> (out unset), \<open>Some best\<close> for
  \<^verbatim>\<open>*out = best; return true\<close>.\<close>

definition rebac_max_relation ::
    "rebac_relation_t list \<Rightarrow> nat \<Rightarrow> rebac_relation_t option option" where
  "rebac_max_relation relations count =
     (if count = 0 then Some None
      else do {
        best \<leftarrow> read_relation relations 0;
        best \<leftarrow> for_loop 1 count
          (\<lambda>i best. do {
             r \<leftarrow> read_relation relations i;
             Some (if best \<le> r then r else best)
           }) best;
        Some (Some best)
      })"

definition rebac_check :: "rebac_relation_t list \<Rightarrow> nat \<Rightarrow> rebac_action_t \<Rightarrow> bool option" where
  "rebac_check relations count action = do {
     m \<leftarrow> rebac_max_relation relations count;
     (case m of
        None \<Rightarrow> Some False
      | Some max_rel \<Rightarrow> Some (rebac_action_min_relation action \<le> max_rel))
   }"

subsection \<open>Correctness\<close>

lemma max_loop:
  assumes "0 < n" and "n \<le> length relations"
  shows "for_loop 1 n (\<lambda>i best. do {
             r \<leftarrow> read_relation relations i;
             Some (if best \<le> r then r else best) }) (relations ! 0)
         = Some (Max (set (take n relations)))"
  using assms
proof (induction n)
  case 0
  then show ?case by simp
next
  case (Suc n)
  show ?case
  proof (cases "n = 0")
    case True
    with Suc.prems show ?thesis by (cases relations) simp_all
  next
    case False
    with Suc have ih: "for_loop 1 n (\<lambda>i best. do {
             r \<leftarrow> read_relation relations i;
             Some (if best \<le> r then r else best) }) (relations ! 0)
         = Some (Max (set (take n relations)))" by simp
    have ne: "set (take n relations) \<noteq> {}" using False Suc.prems by auto
    have "set (take (Suc n) relations) = insert (relations ! n) (set (take n relations))"
      using Suc.prems by (simp add: take_Suc_conv_app_nth)
    then have "Max (set (take (Suc n) relations)) =
        max (relations ! n) (Max (set (take n relations)))" using ne by simp
    with ih False Suc.prems show ?thesis
      by (auto simp: for_loop_snoc read_relation_def max_def)
  qed
qed

lemma max_relation_eq:
  assumes "count \<le> length relations"
  shows "rebac_max_relation relations count =
    Some (if count = 0 then None else Some (Max (set (take count relations))))"
  using assms max_loop[of count relations]
  by (auto simp: rebac_max_relation_def read_relation_def)

lemma check_eq:
  assumes "count \<le> length relations"
  shows "rebac_check relations count action =
    Some (\<exists>r \<in> set (take count relations). rebac_action_min_relation action \<le> r)"
proof (cases "count = 0")
  case True
  then show ?thesis by (simp add: rebac_check_def max_relation_eq)
next
  case False
  then have ne: "set (take count relations) \<noteq> {}" using assms by auto
  then show ?thesis
    using assms False by (simp add: rebac_check_def max_relation_eq Max_ge_iff)
qed

text \<open>C29: the check grants exactly when some relation of the claim reaches the action's
  minimum. So the order and repetition of relations do not matter, an empty claim is denied
  every action, and an action outside the enum needs the owner relation like modify.\<close>

theorem rebac_check_iff:
  assumes "count \<le> length relations"
  shows "rebac_check relations count action =
    Some (\<exists>r \<in> set (take count relations). rebac_action_min_relation action \<le> r)"
  using assms by (rule check_eq)

theorem rebac_check_iff_witness:
  "2 \<le> length [REBAC_RELATION_OWNER, REBAC_RELATION_PUBLIC] \<and>
   rebac_check [REBAC_RELATION_OWNER, REBAC_RELATION_PUBLIC] 2 REBAC_ACTION_MODIFY = Some True \<and>
   rebac_check [REBAC_RELATION_GUILD_MEMBER] 1 (REBAC_ACTION_OTHER 9) = Some False"
  using rebac_check_iff[of 2 "[REBAC_RELATION_OWNER, REBAC_RELATION_PUBLIC]" REBAC_ACTION_MODIFY]
    rebac_check_iff[of 1 "[REBAC_RELATION_GUILD_MEMBER]" "REBAC_ACTION_OTHER 9"]
  by (simp add: rebac_action_min_relation_def relation_order)

text \<open>The grant matrix is monotone. A claim that holds more relations is granted at least
  as much; modify (and every unknown action) is granted exactly to owners, interact exactly
  to claims with a relation other than public, observe exactly to non-empty claims.\<close>

lemma rebac_grant_matrix:
  "rebac_check rels (length rels) REBAC_ACTION_OBSERVE = Some (rels \<noteq> [])
   \<and> rebac_check rels (length rels) REBAC_ACTION_INTERACT =
       Some (\<exists>r \<in> set rels. r \<noteq> REBAC_RELATION_PUBLIC)
   \<and> rebac_check rels (length rels) REBAC_ACTION_MODIFY = Some (REBAC_RELATION_OWNER \<in> set rels)
   \<and> rebac_check rels (length rels) (REBAC_ACTION_OTHER n) = Some (REBAC_RELATION_OWNER \<in> set rels)
   \<and> (set rels \<subseteq> set rels' \<and> rebac_check rels (length rels) action = Some True
      \<longrightarrow> rebac_check rels' (length rels') action = Some True)"
proof -
  have member: "REBAC_RELATION_INSTANCE_MEMBER \<le> r \<longleftrightarrow> r \<noteq> REBAC_RELATION_PUBLIC" for r
    by (cases r) (simp_all add: relation_order)
  have owner: "REBAC_RELATION_OWNER \<le> r \<longleftrightarrow> r = REBAC_RELATION_OWNER" for r
    by (cases r) (simp_all add: relation_order)
  have c: "rebac_check rs (length rs) a = Some (\<exists>r\<in>set rs. rebac_action_min_relation a \<le> r)"
    for rs a using check_eq[of "length rs" rs a] by simp
  show ?thesis
    unfolding c
    by (auto simp: rebac_action_min_relation_def public_bottom member owner
        ex_in_conv split: rebac_action_t.splits)
qed

end
