(* ===== verification/Intrusive_Queue.thy ===== *)
theory Intrusive_Queue
  imports Prelude
begin

text \<open>
  The intrusive singly linked queue: \<^verbatim>\<open>src/list.h\<close>.

  Nodes are addresses; the store maps a node to its \<^verbatim>\<open>next\<close> pointer (\<open>None\<close> is NULL).
  The queue's \<^verbatim>\<open>tail\<close> is a pointer to a link: to the queue's own head field or to the
  next field of a node, so the store through \<^verbatim>\<open>*q->tail\<close> really updates one or the
  other. The contract of a FIFO queue is the locale \<open>fifo_queue\<close> over a representation
  relation; its clients run arbitrary sequences of pushes and pops.
\<close>

subsection \<open>Data\<close>

type_synonym addr = nat

datatype link = HeadLink | NextLink addr

record queue_t =
  head :: "addr option"
  tail :: link

record queue_mem =
  next_of :: "addr \<Rightarrow> addr option"
  queue :: queue_t

definition store_link :: "queue_mem \<Rightarrow> link \<Rightarrow> addr option \<Rightarrow> queue_mem" where
  "store_link m l v =
     (case l of
        HeadLink \<Rightarrow> m\<lparr>queue := (queue m)\<lparr>head := v\<rparr>\<rparr>
      | NextLink n \<Rightarrow> m\<lparr>next_of := (next_of m)(n := v)\<rparr>)"

definition set_tail :: "queue_mem \<Rightarrow> link \<Rightarrow> queue_mem" where
  "set_tail m l = m\<lparr>queue := (queue m)\<lparr>tail := l\<rparr>\<rparr>"

subsection \<open>Operations\<close>

definition queue_init :: "queue_mem \<Rightarrow> queue_mem" where
  "queue_init m = set_tail (store_link m HeadLink None) HeadLink"

definition queue_push :: "queue_mem \<Rightarrow> addr \<Rightarrow> queue_mem" where
  "queue_push m node =
     (let m = store_link m (NextLink node) None;
          m = store_link m (tail (queue m)) (Some node)
      in set_tail m (NextLink node))"

definition queue_pop :: "queue_mem \<Rightarrow> addr option \<times> queue_mem" where
  "queue_pop m =
     (case head (queue m) of
        None \<Rightarrow> (None, m)
      | Some node \<Rightarrow>
          (let m = store_link m HeadLink (next_of m node);
               m = (if head (queue m) = None then set_tail m HeadLink else m)
           in (Some node, m)))"

definition queue_is_empty :: "queue_mem \<Rightarrow> bool" where
  "queue_is_empty m \<longleftrightarrow> head (queue m) = None"

subsection \<open>The contract of a FIFO queue\<close>

datatype queue_cmd = Push addr | Pop

text \<open>A client: a sequence of pushes and pops, with the results of the pops.\<close>

fun run_cmds :: "('s \<Rightarrow> addr \<Rightarrow> 's) \<Rightarrow> ('s \<Rightarrow> addr option \<times> 's) \<Rightarrow> queue_cmd list \<Rightarrow> 's
    \<Rightarrow> addr option list \<times> 's" where
  "run_cmds push pop [] s = ([], s)"
| "run_cmds push pop (Push n # cs) s = run_cmds push pop cs (push s n)"
| "run_cmds push pop (Pop # cs) s =
     (case pop s of (r, s') \<Rightarrow>
        (case run_cmds push pop cs s' of (rs, t) \<Rightarrow> (r # rs, t)))"

fun list_push :: "addr list \<Rightarrow> addr \<Rightarrow> addr list" where
  "list_push xs n = xs @ [n]"

fun list_pop :: "addr list \<Rightarrow> addr option \<times> addr list" where
  "list_pop [] = (None, [])"
| "list_pop (x # xs) = (Some x, xs)"

text \<open>The client's obligation: a node is not pushed while it is in the queue.\<close>

fun fresh_pushes :: "queue_cmd list \<Rightarrow> addr list \<Rightarrow> bool" where
  "fresh_pushes [] xs = True"
| "fresh_pushes (Push n # cs) xs = (n \<notin> set xs \<and> fresh_pushes cs (xs @ [n]))"
| "fresh_pushes (Pop # cs) xs = fresh_pushes cs (tl xs)"

locale fifo_queue =
  fixes repr :: "'s \<Rightarrow> addr list \<Rightarrow> bool"
    and push :: "'s \<Rightarrow> addr \<Rightarrow> 's"
    and pop :: "'s \<Rightarrow> addr option \<times> 's"
    and is_empty :: "'s \<Rightarrow> bool"
  assumes repr_push: "repr s xs \<Longrightarrow> n \<notin> set xs \<Longrightarrow> repr (push s n) (xs @ [n])"
    and repr_pop: "repr s xs \<Longrightarrow> fst (pop s) = fst (list_pop xs) \<and> repr (snd (pop s)) (tl xs)"
    and repr_is_empty: "repr s xs \<Longrightarrow> is_empty s \<longleftrightarrow> xs = []"
begin

lemma simulates:
  assumes "repr s xs" and "fresh_pushes cs xs"
  shows "fst (run_cmds push pop cs s) = fst (run_cmds list_push list_pop cs xs) \<and>
         repr (snd (run_cmds push pop cs s)) (snd (run_cmds list_push list_pop cs xs))"
  using assms
proof (induction cs xs arbitrary: s rule: fresh_pushes.induct)
  case (1 xs)
  then show ?case by simp
next
  case (2 n cs xs)
  then show ?case by (simp add: repr_push)
next
  case (3 cs xs)
  have tl: "snd (list_pop xs) = tl xs" by (cases xs) simp_all
  from 3 repr_pop[OF "3.prems"(1)] tl show ?case
    by (simp add: case_prod_beta)
qed

lemma drain:
  assumes "repr s xs"
  shows "fst (run_cmds push pop (replicate (length xs) Pop) s) = map Some xs"
proof -
  have fresh: "fresh_pushes (replicate n Pop) ys" for n ys
    by (induction n arbitrary: ys) simp_all
  have "fst (run_cmds list_push list_pop (replicate (length ys) Pop) ys) = map Some ys" for ys
    by (induction ys) (auto split: prod.splits)
  then show ?thesis using simulates[OF assms fresh] by simp
qed

end

subsection \<open>The linked queue keeps the contract\<close>

fun chain :: "(addr \<Rightarrow> addr option) \<Rightarrow> addr option \<Rightarrow> addr list \<Rightarrow> bool" where
  "chain h p [] \<longleftrightarrow> p = None"
| "chain h p (x # xs) \<longleftrightarrow> p = Some x \<and> chain h (h x) xs"

definition queue_repr :: "queue_mem \<Rightarrow> addr list \<Rightarrow> bool" where
  "queue_repr m xs \<longleftrightarrow>
     chain (next_of m) (head (queue m)) xs \<and> distinct xs \<and>
     tail (queue m) = (if xs = [] then HeadLink else NextLink (last xs))"

lemmas queue_ops = queue_init_def queue_push_def queue_pop_def queue_is_empty_def
  store_link_def set_tail_def

lemma chain_upd_notin [simp]: "n \<notin> set xs \<Longrightarrow> chain (h(n := v)) p xs = chain h p xs"
  by (induction xs arbitrary: p) auto

lemma chain_snoc:
  assumes "chain h p xs" and "distinct xs" and "xs \<noteq> []" and "n \<notin> set xs"
  shows "chain (h(n := None, last xs := Some n)) p (xs @ [n])"
  using assms
proof (induction xs arbitrary: p)
  case Nil
  then show ?case by simp
next
  case (Cons x xs)
  show ?case
  proof (cases "xs = []")
    case True
    with Cons.prems show ?thesis by simp
  next
    case False
    then have "x \<noteq> last xs" using Cons.prems(2) by auto
    with Cons False show ?thesis by (auto simp: fun_upd_twist)
  qed
qed

lemma repr_init: "queue_repr (queue_init m) []"
  by (simp add: queue_repr_def queue_ops)

lemma repr_push: "queue_repr m xs \<Longrightarrow> n \<notin> set xs \<Longrightarrow> queue_repr (queue_push m n) (xs @ [n])"
  by (cases "xs = []") (auto simp: queue_repr_def queue_ops chain_snoc)

lemma repr_pop:
  "queue_repr m xs \<Longrightarrow>
     fst (queue_pop m) = fst (list_pop xs) \<and> queue_repr (snd (queue_pop m)) (tl xs)"
proof (cases xs)
  case Nil
  moreover assume "queue_repr m xs"
  ultimately show ?thesis by (simp add: queue_repr_def queue_ops)
next
  case (Cons x ys)
  moreover assume "queue_repr m xs"
  ultimately show ?thesis by (cases ys) (auto simp: queue_repr_def queue_ops)
qed

lemma repr_is_empty: "queue_repr m xs \<Longrightarrow> queue_is_empty m \<longleftrightarrow> xs = []"
  by (cases xs) (auto simp: queue_repr_def queue_ops)

interpretation linked_queue: fifo_queue queue_repr queue_push queue_pop queue_is_empty
  by unfold_locales (simp_all add: repr_push repr_pop repr_is_empty)

text \<open>C30: the linked queue refines a list. From an initialised queue, any sequence of pushes
  and pops in which no node is pushed while it is queued gives the same pop results as a
  list with append and head, ends in a well-formed chain of the same nodes, and the
  emptiness test agrees with the list.\<close>

theorem queue_refines_list:
  assumes "fresh_pushes cs []"
  shows "fst (run_cmds queue_push queue_pop cs (queue_init m)) =
           fst (run_cmds list_push list_pop cs []) \<and>
    queue_repr (snd (run_cmds queue_push queue_pop cs (queue_init m)))
           (snd (run_cmds list_push list_pop cs [])) \<and>
    (queue_is_empty (snd (run_cmds queue_push queue_pop cs (queue_init m))) \<longleftrightarrow>
           snd (run_cmds list_push list_pop cs []) = [])"
proof -
  note sim = linked_queue.simulates[OF repr_init assms, of m]
  then have "queue_repr (snd (run_cmds queue_push queue_pop cs (queue_init m)))
      (snd (run_cmds list_push list_pop cs []))" by auto
  then show ?thesis using sim repr_is_empty by auto
qed

theorem queue_refines_list_witness:
  "fresh_pushes [Push 3, Push 5, Pop, Push 3, Pop, Pop, Pop] [] \<and>
   fst (run_cmds queue_push queue_pop [Push 3, Push 5, Pop, Push 3, Pop, Pop, Pop]
     (queue_init \<lparr>next_of = (\<lambda>_. Some 8), queue = \<lparr>head = Some 1, tail = NextLink 2\<rparr>\<rparr>))
     = [Some 3, Some 5, Some 3, None]"
  using queue_refines_list[of "[Push 3, Push 5, Pop, Push 3, Pop, Pop, Pop]"
      "\<lparr>next_of = (\<lambda>_. Some 8), queue = \<lparr>head = Some 1, tail = NextLink 2\<rparr>\<rparr>"]
  by simp

end
