(* ===== verification/Fdb.thy ===== *)
theory Fdb
  imports Prelude
begin

text \<open>
  The asynchronous database adapter: \<^verbatim>\<open>src/fdb_database.{h,c}\<close>, with the error macros of
  \<^verbatim>\<open>src/error.h\<close> as log lines.

  The FoundationDB client is not part of the sources. What its calls answer is therefore
  an argument of the definitions: an \<open>fdb_env\<close> holds the answers of the calls one adapter
  function makes (a NULL future, a failed malloc, the error of set_callback), and an
  \<open>fdb_outcome\<close> what a future holds when it becomes ready. The world records which
  handles the program owns (live transactions with the reads and writes made on them, live
  futures with the request they stand for, the adapter's own heap objects); using or
  destroying a handle that is not live is undefined behaviour, \<open>None\<close>. Handles get
  increasing names, so a name is never reused.

  A C function pointer is a value of the type parameter \<open>'cb\<close>; the code it points to
  is passed to \<open>future_callback\<close> as a function.
\<close>

subsection \<open>Data\<close>

type_synonym fdb_error_t = int
type_synonym handle = nat
type_synonym key_value = "bytes \<times> bytes"

text \<open>A key selector as the C interface takes it: key, or_equal, offset.\<close>

record key_selector =
  sel_key :: bytes
  sel_or_equal :: bool
  sel_offset :: int

text \<open>The remaining arguments of a range read; the streaming modes are those of the C interface.\<close>

datatype streaming_mode =
    FDB_STREAMING_MODE_WANT_ALL | FDB_STREAMING_MODE_ITERATOR | FDB_STREAMING_MODE_EXACT
  | FDB_STREAMING_MODE_SMALL | FDB_STREAMING_MODE_MEDIUM | FDB_STREAMING_MODE_LARGE | FDB_STREAMING_MODE_SERIAL

record range_options =
  limit :: int
  target_bytes :: int
  streaming_mode :: streaming_mode
  iteration :: int
  snapshot :: bool
  reverse :: bool

datatype fdb_request =
    Get_Request handle bytes
  | Range_Request handle key_selector key_selector range_options
  | Commit_Request handle
  | On_Error_Request handle fdb_error_t

record fdb_transaction =
  reads :: "(key_value list \<times> bool) option"
  writes :: "key_value list"

definition empty_transaction :: fdb_transaction where
  "empty_transaction = \<lparr>reads = None, writes = []\<rparr>"

datatype log_line =
    LIBRARY_ERROR string fdb_error_t
  | STANDARD_ERROR string
  | ERROR string

record fdb_thread_state_t =
  db :: "handle option"
  active_transactions :: u64
  max_transactions :: u64

record 'cb fdb_callback_ctx_t =
  cb :: 'cb
  ctx :: handle
  future :: handle

record 'cb fdb_world =
  store :: "bytes \<rightharpoonup> bytes"
  fdb_state :: fdb_thread_state_t
  transactions :: "handle \<rightharpoonup> fdb_transaction"
  futures :: "handle \<rightharpoonup> fdb_request"
  callback_heap :: "handle \<rightharpoonup> 'cb fdb_callback_ctx_t"
  registered :: "handle \<rightharpoonup> handle"
  next_handle :: handle
  error_log :: "log_line list"

record fdb_env =
  future_null :: bool
  malloc_null :: bool
  set_callback_error :: fdb_error_t

record fdb_outcome =
  out_error :: fdb_error_t
  out_kv_error :: fdb_error_t
  out_kvs :: "key_value list"
  out_more :: bool
  out_applied :: bool

subsection \<open>Handles owned by the program\<close>

definition log_error :: "log_line \<Rightarrow> ('cb, 'm) fdb_world_scheme \<Rightarrow> ('cb, 'm) fdb_world_scheme" where
  "log_error l w = w\<lparr>error_log := error_log w @ [l]\<rparr>"

text \<open>A client call that creates a future for a request on a live transaction.\<close>

definition new_future :: "fdb_env \<Rightarrow> handle \<Rightarrow> fdb_request \<Rightarrow> ('cb, 'm) fdb_world_scheme
    \<Rightarrow> (handle option \<times> ('cb, 'm) fdb_world_scheme) option" where
  "new_future env t req w =
     (if t \<notin> dom (transactions w) then None
      else if future_null env then Some (None, w)
      else Some (Some (next_handle w),
             w\<lparr>futures := (futures w)(next_handle w \<mapsto> req),
               next_handle := Suc (next_handle w)\<rparr>))"

definition fdb_future_destroy :: "handle \<Rightarrow> ('cb, 'm) fdb_world_scheme
    \<Rightarrow> ('cb, 'm) fdb_world_scheme option" where
  "fdb_future_destroy f w =
     (if f \<in> dom (futures w) then Some (w\<lparr>futures := (futures w)(f := None)\<rparr>) else None)"

definition fdb_transaction_destroy :: "handle \<Rightarrow> ('cb, 'm) fdb_world_scheme
    \<Rightarrow> ('cb, 'm) fdb_world_scheme option" where
  "fdb_transaction_destroy t w =
     (if t \<in> dom (transactions w)
      then Some (w\<lparr>transactions := (transactions w)(t := None)\<rparr>) else None)"

definition free_callback :: "handle \<Rightarrow> ('cb, 'm) fdb_world_scheme
    \<Rightarrow> ('cb, 'm) fdb_world_scheme option" where
  "free_callback a w =
     (if a \<in> dom (callback_heap w)
      then Some (w\<lparr>callback_heap := (callback_heap w)(a := None)\<rparr>) else None)"

subsection \<open>Operations\<close>

text \<open>\<^verbatim>\<open>assert(state->db)\<close> aborts: no continuation, \<open>None\<close>. The error of
  \<^verbatim>\<open>fdb_database_create_transaction\<close> is the first argument.\<close>

definition fdb_create_transaction :: "fdb_error_t \<Rightarrow> ('cb, 'm) fdb_world_scheme
    \<Rightarrow> (fdb_error_t \<times> handle option \<times> ('cb, 'm) fdb_world_scheme) option" where
  "fdb_create_transaction create_error w =
     (if db (fdb_state w) = None then None
      else if create_error \<noteq> 0
      then Some (create_error, None,
             log_error (LIBRARY_ERROR ''fdb_database_create_transaction'' create_error) w)
      else Some (0, Some (next_handle w),
             w\<lparr>transactions := (transactions w)(next_handle w \<mapsto> empty_transaction),
               next_handle := Suc (next_handle w),
               fdb_state := (fdb_state w)
                 \<lparr>active_transactions := active_transactions (fdb_state w) + 1\<rparr>\<rparr>))"

definition future_callback ::
    "('cb \<Rightarrow> handle \<Rightarrow> handle \<Rightarrow> ('cb, 'm) fdb_world_scheme \<Rightarrow> ('cb, 'm) fdb_world_scheme option)
     \<Rightarrow> handle \<Rightarrow> handle \<Rightarrow> ('cb, 'm) fdb_world_scheme \<Rightarrow> ('cb, 'm) fdb_world_scheme option" where
  "future_callback code f arg w = do {
     c \<leftarrow> callback_heap w arg;
     w \<leftarrow> code (cb c) f (ctx c) w;
     w \<leftarrow> fdb_future_destroy f w;
     free_callback arg w
   }"

text \<open>The client may run a callback inside \<^verbatim>\<open>fdb_future_set_callback\<close> when the future is
  already ready. In the model a registered future is always delivered by a step of its own, after
  the call that submitted it. The callers in the sources do nothing with their state after a
  submission that was accepted, so a delivery inside the call would differ only in that the
  wrapper releases the outer future behind the inner one.\<close>

definition submit_future :: "fdb_env \<Rightarrow> handle \<Rightarrow> 'cb \<Rightarrow> handle \<Rightarrow> ('cb, 'm) fdb_world_scheme
    \<Rightarrow> (int \<times> ('cb, 'm) fdb_world_scheme) option" where
  "submit_future env f c user_ctx w =
     (if malloc_null env
      then do {
        w \<leftarrow> fdb_future_destroy f (log_error (STANDARD_ERROR ''malloc'') w);
        Some (-1, w)
      }
      else do {
        let a = next_handle w;
        let w = w\<lparr>callback_heap :=
          (callback_heap w)(a \<mapsto> \<lparr>cb = c, ctx = user_ctx, future = f\<rparr>),
          next_handle := Suc a\<rparr>;
        let err = set_callback_error env;
        (if err \<noteq> 0
         then do {
           w \<leftarrow> fdb_future_destroy f (log_error (LIBRARY_ERROR ''fdb_future_set_callback'' err) w);
           w \<leftarrow> free_callback a w;
           Some (err, w)
         }
         else Some (0, w\<lparr>registered := (registered w)(f \<mapsto> a)\<rparr>))
      })"

definition fdb_async_get :: "fdb_env \<Rightarrow> handle \<Rightarrow> bytes \<Rightarrow> 'cb \<Rightarrow> handle
    \<Rightarrow> ('cb, 'm) fdb_world_scheme \<Rightarrow> (int \<times> ('cb, 'm) fdb_world_scheme) option" where
  "fdb_async_get env t key c user_ctx w = do {
     (f, w) \<leftarrow> new_future env t (Get_Request t key) w;
     (case f of
        None \<Rightarrow> Some (-1, log_error (ERROR ''fdb_transaction_get failed'') w)
      | Some f \<Rightarrow> submit_future env f c user_ctx w)
   }"

definition fdb_sync_set :: "handle \<Rightarrow> bytes \<Rightarrow> bytes \<Rightarrow> ('cb, 'm) fdb_world_scheme
    \<Rightarrow> ('cb, 'm) fdb_world_scheme option" where
  "fdb_sync_set t key value w = do {
     x \<leftarrow> transactions w t;
     Some (w\<lparr>transactions := (transactions w)(t \<mapsto> x\<lparr>writes := writes x @ [(key, value)]\<rparr>)\<rparr>)
   }"

definition get_range_options :: range_options where
  "get_range_options =
     \<lparr>limit = 0, target_bytes = 0, streaming_mode = FDB_STREAMING_MODE_WANT_ALL, iteration = 0,
      snapshot = False, reverse = False\<rparr>"

definition fdb_async_get_range :: "fdb_env \<Rightarrow> handle \<Rightarrow> bytes \<Rightarrow> bytes \<Rightarrow> 'cb \<Rightarrow> handle
    \<Rightarrow> ('cb, 'm) fdb_world_scheme \<Rightarrow> (int \<times> ('cb, 'm) fdb_world_scheme) option" where
  "fdb_async_get_range env t key_begin key_end c user_ctx w = do {
     (f, w) \<leftarrow> new_future env t
       (Range_Request t \<lparr>sel_key = key_begin, sel_or_equal = False, sel_offset = 1\<rparr>
                        \<lparr>sel_key = key_end, sel_or_equal = False, sel_offset = 1\<rparr>
                        get_range_options) w;
     (case f of
        None \<Rightarrow> Some (-1, log_error (ERROR ''fdb_transaction_get_range failed'') w)
      | Some f \<Rightarrow> submit_future env f c user_ctx w)
   }"

definition fdb_async_commit :: "fdb_env \<Rightarrow> handle \<Rightarrow> 'cb \<Rightarrow> handle
    \<Rightarrow> ('cb, 'm) fdb_world_scheme \<Rightarrow> (int \<times> ('cb, 'm) fdb_world_scheme) option" where
  "fdb_async_commit env t c user_ctx w = do {
     (f, w) \<leftarrow> new_future env t (Commit_Request t) w;
     (case f of
        None \<Rightarrow> Some (-1, log_error (ERROR ''fdb_transaction_commit failed'') w)
      | Some f \<Rightarrow> submit_future env f c user_ctx w)
   }"

definition fdb_handle_error :: "fdb_env \<Rightarrow> handle \<Rightarrow> fdb_error_t \<Rightarrow> 'cb \<Rightarrow> handle
    \<Rightarrow> ('cb, 'm) fdb_world_scheme \<Rightarrow> (int \<times> ('cb, 'm) fdb_world_scheme) option" where
  "fdb_handle_error env t err c user_ctx w = do {
     (f, w) \<leftarrow> new_future env t (On_Error_Request t err) w;
     (case f of
        None \<Rightarrow> Some (err, log_error (LIBRARY_ERROR ''fdb_transaction_on_error'' err) w)
      | Some f \<Rightarrow> submit_future env f c user_ctx w)
   }"


subsection \<open>The contract of a submission\<close>

text \<open>The four functions that hand a request to the client share one contract. If the client
  returns a future, malloc works and set_callback succeeds, the request is pending: exactly
  one new future, registered with one new callback object. Otherwise nothing is pending and
  nothing is leaked: the world is the old one but for the log and the name counter.\<close>

definition handles_fresh :: "('cb, 'm) fdb_world_scheme \<Rightarrow> bool" where
  "handles_fresh w \<longleftrightarrow>
     (\<forall>h \<in> dom (futures w) \<union> dom (callback_heap w) \<union> dom (transactions w) \<union> dom (registered w).
        h < next_handle w)"

lemma handles_fresh_None:
  assumes "handles_fresh w" and "next_handle w \<le> h"
  shows "futures w h = None" and "callback_heap w h = None"
    and "transactions w h = None" and "registered w h = None"
proof -
  have "h \<notin> dom (futures w) \<union> dom (callback_heap w) \<union> dom (transactions w) \<union> dom (registered w)"
    using assms unfolding handles_fresh_def by (meson leD)
  then show "futures w h = None" and "callback_heap w h = None"
    and "transactions w h = None" and "registered w h = None" by auto
qed

definition submit_ok :: "fdb_env \<Rightarrow> bool" where
  "submit_ok env \<longleftrightarrow> \<not> future_null env \<and> \<not> malloc_null env \<and> set_callback_error env = 0"

definition submitted :: "fdb_request \<Rightarrow> 'cb \<Rightarrow> handle \<Rightarrow> ('cb, 'm) fdb_world_scheme
    \<Rightarrow> ('cb, 'm) fdb_world_scheme" where
  "submitted req c user_ctx w =
     (let f = next_handle w; a = Suc f in
      w\<lparr>futures := (futures w)(f \<mapsto> req),
        callback_heap := (callback_heap w)(a \<mapsto> \<lparr>cb = c, ctx = user_ctx, future = f\<rparr>),
        registered := (registered w)(f \<mapsto> a),
        next_handle := Suc a\<rparr>)"

definition same_but_log :: "('cb, 'm) fdb_world_scheme \<Rightarrow> ('cb, 'm) fdb_world_scheme \<Rightarrow> bool" where
  "same_but_log w w' \<longleftrightarrow>
     (\<exists>n l. w' = w\<lparr>next_handle := n, error_log := l\<rparr> \<and> next_handle w \<le> n)"

lemma fun_upd_fresh_cancel: "x \<notin> dom m \<Longrightarrow> (m(x \<mapsto> v))(x := None) = m"
  by (auto simp: domIff)

locale async_request =
  fixes call :: "fdb_env \<Rightarrow> handle \<Rightarrow> 'cb \<Rightarrow> handle \<Rightarrow> ('cb, 'm) fdb_world_scheme
      \<Rightarrow> (int \<times> ('cb, 'm) fdb_world_scheme) option"
    and request :: "handle \<Rightarrow> fdb_request"
  assumes dead: "t \<notin> dom (transactions w) \<Longrightarrow> call env t c u w = None"
    and accepted: "t \<in> dom (transactions w) \<Longrightarrow> submit_ok env \<Longrightarrow>
      call env t c u w = Some (0, submitted (request t) c u w)"
    and refused: "t \<in> dom (transactions w) \<Longrightarrow> handles_fresh w \<Longrightarrow> \<not> submit_ok env \<Longrightarrow>
      \<exists>r w'. call env t c u w = Some (r, w') \<and> same_but_log w w'"
begin

lemma no_undefined_behaviour:
  assumes "t \<in> dom (transactions w)" and "handles_fresh w"
  obtains r w' where "call env t c u w = Some (r, w')"
    and "submit_ok env \<and> r = 0 \<and> w' = submitted (request t) c u w \<or>
         \<not> submit_ok env \<and> same_but_log w w'"
  using assms accepted[of t w env c u] refused[of t w env c u] by blast

end

locale reported_request = async_request +
  assumes refused_reported: "t \<in> dom (transactions w) \<Longrightarrow> handles_fresh w \<Longrightarrow>
    \<not> submit_ok env \<Longrightarrow> call env t c u w = Some (r, w') \<Longrightarrow> r \<noteq> 0"
begin

text \<open>The caller can tell from the return value whether the request is pending.\<close>

lemma return_value:
  assumes "t \<in> dom (transactions w)" and "handles_fresh w"
    and "call env t c u w = Some (r, w')"
  shows "r = 0 \<longleftrightarrow> submit_ok env"
    and "r = 0 \<Longrightarrow> w' = submitted (request t) c u w"
    and "r \<noteq> 0 \<Longrightarrow> same_but_log w w'"
proof -
  show iff: "r = 0 \<longleftrightarrow> submit_ok env"
    using assms accepted[of t w env c u] refused_reported by fastforce
  show "r = 0 \<Longrightarrow> w' = submitted (request t) c u w"
    using assms(1,3) accepted[of t w env c u] iff by auto
  show "r \<noteq> 0 \<Longrightarrow> same_but_log w w'"
    using assms refused[of t w env c u] iff by auto
qed

end

lemma same_but_log_refl: "same_but_log w w"
  unfolding same_but_log_def by (intro exI[of _ "next_handle w"] exI[of _ "error_log w"]) simp

lemma same_but_log_log: "same_but_log w (log_error l w)"
  unfolding same_but_log_def log_error_def by (intro exI[of _ "next_handle w"] exI) auto

text \<open>The common shape of the four functions: the client call, then the submission.\<close>

definition request_shape :: "int \<Rightarrow> log_line \<Rightarrow> fdb_request \<Rightarrow> fdb_env \<Rightarrow> handle \<Rightarrow> 'cb \<Rightarrow> handle
    \<Rightarrow> ('cb, 'm) fdb_world_scheme \<Rightarrow> (int \<times> ('cb, 'm) fdb_world_scheme) option" where
  "request_shape code l req env t c u w = do {
     (f, w) \<leftarrow> new_future env t req w;
     (case f of None \<Rightarrow> Some (code, log_error l w) | Some f \<Rightarrow> submit_future env f c u w)
   }"

lemmas shape_defs = request_shape_def new_future_def submit_future_def Let_def log_error_def
  fdb_future_destroy_def free_callback_def

lemma same_but_logI:
  "next_handle w \<le> n \<Longrightarrow> same_but_log w (w\<lparr>next_handle := n, error_log := l\<rparr>)"
  by (auto simp: same_but_log_def)

lemma shape_dead: "t \<notin> dom (transactions w) \<Longrightarrow> request_shape code l req env t c u w = None"
  by (simp add: request_shape_def new_future_def)

lemma shape_accepted:
  "t \<in> dom (transactions w) \<Longrightarrow> submit_ok env \<Longrightarrow>
     request_shape code l req env t c u w = Some (0, submitted req c u w)"
  by (simp add: request_shape_def new_future_def submit_future_def submit_ok_def
      submitted_def Let_def)

lemma shape_refused:
  assumes "t \<in> dom (transactions w)" and "handles_fresh w" and "\<not> submit_ok env"
  shows "\<exists>r w'. request_shape code l req env t c u w = Some (r, w') \<and> same_but_log w w' \<and>
    (r = 0 \<longrightarrow> code = 0)"
proof -
  have f: "next_handle w \<notin> dom (futures w)" "Suc (next_handle w) \<notin> dom (callback_heap w)"
    using handles_fresh_None[OF assms(2)] by (auto simp: domIff)
  consider (null) "future_null env" | (malloc) "\<not> future_null env" "malloc_null env"
    | (callback) "\<not> future_null env" "\<not> malloc_null env" "set_callback_error env \<noteq> 0"
    using assms(3) by (auto simp: submit_ok_def)
  then show ?thesis
  proof cases
    case null
    then show ?thesis
      using assms(1) by (auto simp: request_shape_def new_future_def same_but_log_log)
  next
    case malloc
    then have "request_shape code l req env t c u w = Some (-1,
        w\<lparr>next_handle := Suc (next_handle w), error_log := error_log w @ [STANDARD_ERROR ''malloc'']\<rparr>)"
      using assms(1) f by (cases w) (simp add: shape_defs fun_upd_fresh_cancel)
    then show ?thesis by (auto intro!: same_but_logI)
  next
    case callback
    then have "request_shape code l req env t c u w = Some (set_callback_error env,
        w\<lparr>next_handle := Suc (Suc (next_handle w)), error_log := error_log w @
          [LIBRARY_ERROR ''fdb_future_set_callback'' (set_callback_error env)]\<rparr>)"
      using assms(1) f by (cases w) (simp add: shape_defs fun_upd_fresh_cancel)
    then show ?thesis using callback(3) by (auto intro!: same_but_logI)
  qed
qed

lemma get_shape: "fdb_async_get env t k =
    request_shape (-1) (ERROR ''fdb_transaction_get failed'') (Get_Request t k) env t"
  by (intro ext) (simp add: fdb_async_get_def request_shape_def)

lemma get_range_shape: "fdb_async_get_range env t kb ke =
    request_shape (-1) (ERROR ''fdb_transaction_get_range failed'')
      (Range_Request t \<lparr>sel_key = kb, sel_or_equal = False, sel_offset = 1\<rparr>
                       \<lparr>sel_key = ke, sel_or_equal = False, sel_offset = 1\<rparr> get_range_options) env t"
  by (intro ext) (simp add: fdb_async_get_range_def request_shape_def)

lemma commit_shape: "fdb_async_commit env t =
    request_shape (-1) (ERROR ''fdb_transaction_commit failed'') (Commit_Request t) env t"
  by (intro ext) (simp add: fdb_async_commit_def request_shape_def)

lemma handle_error_shape: "fdb_handle_error env t err =
    request_shape err (LIBRARY_ERROR ''fdb_transaction_on_error'' err) (On_Error_Request t err) env t"
  by (intro ext) (simp add: fdb_handle_error_def request_shape_def)

lemma shape_async_request: "async_request (\<lambda>env t. request_shape code (l t) (req t) env t) req"
proof
  show "t \<notin> dom (transactions w) \<Longrightarrow> request_shape code (l t) (req t) env t c u w = None"
    for t env c u and w :: "('a, 'b) fdb_world_scheme" by (rule shape_dead)
  show "t \<in> dom (transactions w) \<Longrightarrow> submit_ok env \<Longrightarrow>
      request_shape code (l t) (req t) env t c u w = Some (0, submitted (req t) c u w)"
    for t env c u and w :: "('a, 'b) fdb_world_scheme" by (rule shape_accepted)
  show "t \<in> dom (transactions w) \<Longrightarrow> handles_fresh w \<Longrightarrow> \<not> submit_ok env \<Longrightarrow>
      \<exists>r w'. request_shape code (l t) (req t) env t c u w = Some (r, w') \<and> same_but_log w w'"
    for t env c u and w :: "('a, 'b) fdb_world_scheme" using shape_refused by metis
qed

lemma shape_reported_request:
  assumes "code \<noteq> 0"
  shows "reported_request (\<lambda>env t. request_shape code (l t) (req t) env t) req"
proof (intro reported_request.intro reported_request_axioms.intro shape_async_request)
  show "r \<noteq> 0" if "t \<in> dom (transactions w)" "handles_fresh w" "\<not> submit_ok env"
      "request_shape code (l t) (req t) env t c u w = Some (r, w')"
    for t env c u r w' and w :: "('a, 'b) fdb_world_scheme"
    using shape_refused[OF that(1-3), of code "l t" "req t" c u] that(4) assms by auto
qed

interpretation async_get:
  reported_request "\<lambda>env t. fdb_async_get env t k" "\<lambda>t. Get_Request t k" for k
  unfolding get_shape by (rule shape_reported_request) simp

interpretation async_get_range:
  reported_request "\<lambda>env t. fdb_async_get_range env t kb ke"
    "\<lambda>t. Range_Request t \<lparr>sel_key = kb, sel_or_equal = False, sel_offset = 1\<rparr>
                         \<lparr>sel_key = ke, sel_or_equal = False, sel_offset = 1\<rparr> get_range_options" for kb ke
  unfolding get_range_shape by (rule shape_reported_request) simp

interpretation async_commit:
  reported_request "\<lambda>env t. fdb_async_commit env t" "\<lambda>t. Commit_Request t"
  unfolding commit_shape by (rule shape_reported_request) simp

text \<open>The return value of \<open>fdb_handle_error\<close> is the error it was called with when the client
  returns no future, so it reports a refusal only for a non-zero error.\<close>

interpretation handle_error:
  async_request "\<lambda>env t. fdb_handle_error env t err" "\<lambda>t. On_Error_Request t err" for err
  unfolding handle_error_shape by (rule shape_async_request)


subsection \<open>Readiness\<close>

text \<open>When a future becomes ready the client may have changed the state of the transaction the
  request was made on, and the database. What it does is a parameter, from the answer, the
  request and the two states to the new states; it cannot touch the program's own objects.\<close>

type_synonym fdb_client = "fdb_outcome \<Rightarrow> fdb_request \<Rightarrow> fdb_transaction \<times> (bytes \<rightharpoonup> bytes)
    \<Rightarrow> fdb_transaction \<times> (bytes \<rightharpoonup> bytes)"

fun request_transaction :: "fdb_request \<Rightarrow> handle" where
  "request_transaction (Get_Request t k) = t"
| "request_transaction (Range_Request t b e r) = t"
| "request_transaction (Commit_Request t) = t"
| "request_transaction (On_Error_Request t e) = t"

definition become_ready :: "fdb_client \<Rightarrow> fdb_outcome \<Rightarrow> handle \<Rightarrow> ('cb, 'm) fdb_world_scheme
    \<Rightarrow> ('cb, 'm) fdb_world_scheme" where
  "become_ready client out f w =
     (case futures w f of
        None \<Rightarrow> w
      | Some req \<Rightarrow>
          (case transactions w (request_transaction req) of
             None \<Rightarrow> w
           | Some x \<Rightarrow>
               (let (x', m) = client out req (x, store w)
                in w\<lparr>transactions := (transactions w)(request_transaction req \<mapsto> x'), store := m\<rparr>)))"

text \<open>The documented behaviour of the client, as hypotheses on the parameter: a range read
  changes nothing but what the transaction has read; a commit applies the transaction's
  writes in order, all of them or none; a successful on_error resets the transaction.\<close>

definition apply_writes :: "key_value list \<Rightarrow> (bytes \<rightharpoonup> bytes) \<Rightarrow> (bytes \<rightharpoonup> bytes)" where
  "apply_writes ws m = fold (\<lambda>(k, v) m. m(k \<mapsto> v)) ws m"

definition client_reads :: "fdb_client \<Rightarrow> bool" where
  "client_reads client \<longleftrightarrow> (\<forall>out t b e r x m.
     client out (Range_Request t b e r) (x, m) =
       (if out_error out = 0 \<and> out_kv_error out = 0
        then x\<lparr>reads := Some (out_kvs out, out_more out)\<rparr> else x, m))"

definition client_commits :: "fdb_client \<Rightarrow> bool" where
  "client_commits client \<longleftrightarrow> (\<forall>out t x m.
     client out (Commit_Request t) (x, m) =
       (x, if out_applied out then apply_writes (writes x) m else m))"

definition client_resets :: "fdb_client \<Rightarrow> bool" where
  "client_resets client \<longleftrightarrow> (\<forall>out t e x m.
     client out (On_Error_Request t e) (x, m) =
       (if out_error out = 0 then empty_transaction else x, m))"

definition client_documented :: "fdb_client \<Rightarrow> bool" where
  "client_documented client \<longleftrightarrow> client_reads client \<and> client_commits client \<and> client_resets client"

fun reference_client :: fdb_client where
  "reference_client out (Get_Request t k) (x, m) = (x, m)"
| "reference_client out (Range_Request t b e r) (x, m) =
     (if out_error out = 0 \<and> out_kv_error out = 0
      then x\<lparr>reads := Some (out_kvs out, out_more out)\<rparr> else x, m)"
| "reference_client out (Commit_Request t) (x, m) =
     (x, if out_applied out then apply_writes (writes x) m else m)"
| "reference_client out (On_Error_Request t e) (x, m) =
     (if out_error out = 0 then empty_transaction else x, m)"

lemma reference_client_documented [simp]: "client_documented reference_client"
  by (simp add: client_documented_def client_reads_def client_commits_def client_resets_def)

lemma apply_writes_Nil [simp]: "apply_writes [] m = m"
  by (simp add: apply_writes_def)

lemma apply_writes_Cons [simp]: "apply_writes ((k, v) # ws) m = apply_writes ws (m(k \<mapsto> v))"
  by (simp add: apply_writes_def)

lemma apply_writes_notin: "k \<notin> fst ` set ws \<Longrightarrow> apply_writes ws m k = m k"
  by (induction ws arbitrary: m) auto

lemma apply_writes_in:
  "distinct (map fst ws) \<Longrightarrow> (k, v) \<in> set ws \<Longrightarrow> apply_writes ws m k = Some v"
proof (induction ws arbitrary: m)
  case Nil
  then show ?case by simp
next
  case (Cons a ws)
  show ?case
  proof (cases "a = (k, v)")
    case True
    then show ?thesis using Cons.prems(1) apply_writes_notin[of k ws] by simp
  next
    case False
    with Cons show ?thesis by (cases a) auto
  qed
qed

subsection \<open>Correctness of the adapter\<close>


text \<open>The callback wrapper owns the future. When the wrapped callback leaves its future
  and callback object alone, the wrapper destroys the future and frees the object exactly
  once and does nothing else; a callback that has destroyed its future itself makes the
  wrapper destroy it a second time, which is undefined behaviour.\<close>

lemma future_callback_ownership:
  assumes "callback_heap w a = Some cc" and "code (cb cc) f (ctx cc) w = Some w1"
  shows "(f \<in> dom (futures w1) \<and> a \<in> dom (callback_heap w1) \<longrightarrow>
      future_callback code f a w = Some
        (w1\<lparr>futures := (futures w1)(f := None), callback_heap := (callback_heap w1)(a := None)\<rparr>)) \<and>
    (f \<notin> dom (futures w1) \<longrightarrow> future_callback code f a w = None)"
  using assms
  by (auto simp: future_callback_def fdb_future_destroy_def free_callback_def)

definition sample_fdb_world :: "nat fdb_world" where
  "sample_fdb_world =
     \<lparr>store = Map.empty,
      fdb_state = \<lparr>db = Some 0, active_transactions = 1, max_transactions = 0\<rparr>,
      transactions = [1 \<mapsto> empty_transaction], futures = [2 \<mapsto> Commit_Request 1],
      callback_heap = [3 \<mapsto> \<lparr>cb = 0, ctx = 9, future = 2\<rparr>], registered = [2 \<mapsto> 3],
      next_handle = 4, error_log = []\<rparr>"


end
