(* ===== verification/Boot.thy ===== *)
theory Boot
  imports Fdb
begin

text \<open>
  Process start: \<^verbatim>\<open>src/main.c\<close> with the start and cleanup functions of
  \<^verbatim>\<open>src/fdb_database.c\<close>.

  The command line is a list of words; \<open>getopt_events\<close> is the option scanner of the C
  library with the permutation of non-option words, \<open>c_strtol\<close> the number reader behind
  atoi and atol (a value the result type cannot hold is undefined behaviour, \<open>None\<close>).
  What the database client and the operating system answer is an argument; the calls made
  are recorded in order.
\<close>

subsection \<open>The C library's option scanner and number reader\<close>

datatype getopt_event = Option char string | Unknown

text \<open>The option string as a function: \<open>Some True\<close> for an option with an argument.\<close>

function getopt_events :: "(char \<Rightarrow> bool option) \<Rightarrow> string list \<Rightarrow> getopt_event list"
  and getopt_cluster :: "(char \<Rightarrow> bool option) \<Rightarrow> string \<Rightarrow> string list \<Rightarrow> getopt_event list" where
  "getopt_events spec [] = []"
| "getopt_events spec (w # ws) =
     (if w = ''--'' then []
      else if 1 < length w \<and> hd w = CHR ''-'' then getopt_cluster spec (tl w) ws
      else getopt_events spec ws)"
| "getopt_cluster spec [] ws = getopt_events spec ws"
| "getopt_cluster spec (c # cs) ws =
     (case spec c of
        None \<Rightarrow> Unknown # getopt_cluster spec cs ws
      | Some False \<Rightarrow> Option c [] # getopt_cluster spec cs ws
      | Some True \<Rightarrow>
          (if cs \<noteq> [] then Option c cs # getopt_events spec ws
           else (case ws of [] \<Rightarrow> [Unknown] | v # ws' \<Rightarrow> Option c v # getopt_events spec ws')))"
  by pat_completeness auto
termination
  by (relation "measure (\<lambda>x. case x of Inl (_, ws) \<Rightarrow> 2 * sum_list (map (\<lambda>w. Suc (length w)) ws)
      | Inr (_, cs, ws) \<Rightarrow> Suc (2 * length cs + 2 * sum_list (map (\<lambda>w. Suc (length w)) ws)))")
    auto

definition is_space :: "char \<Rightarrow> bool" where
  "is_space c \<longleftrightarrow> c \<in> set [CHR '' '', CHR 0x09, CHR 0x0A, CHR 0x0B, CHR 0x0C, CHR 0x0D]"

definition is_digit :: "char \<Rightarrow> bool" where
  "is_digit c \<longleftrightarrow> (48 :: nat) \<le> of_char c \<and> of_char c \<le> (57 :: nat)"

definition digits_value :: "string \<Rightarrow> int" where
  "digits_value s = foldl (\<lambda>n c. 10 * n + (of_char c - 48)) 0 s"

definition c_strtol :: "string \<Rightarrow> int" where
  "c_strtol s =
     (let s = dropWhile is_space s;
          neg = (s \<noteq> [] \<and> hd s = CHR ''-'');
          s = (if s \<noteq> [] \<and> (hd s = CHR ''-'' \<or> hd s = CHR ''+'') then tl s else s);
          n = digits_value (takeWhile is_digit s)
      in if neg then - n else n)"

definition c_atoi :: "string \<Rightarrow> int option" where
  "c_atoi s = (let n = c_strtol s in if - (2 ^ 31) \<le> n \<and> n < 2 ^ 31 then Some n else None)"

definition c_atol :: "string \<Rightarrow> int option" where
  "c_atol s = (let n = c_strtol s in if - (2 ^ 63) \<le> n \<and> n < 2 ^ 63 then Some n else None)"

subsection \<open>Data\<close>

record config_t =
  fdb_cluster_file :: string
  worker_count :: u64

record fdb_global_t =
  cluster_file :: string
  thread_states :: "handle option"
  num_threads :: u64
  network_started :: bool

text \<open>A worker's context; \<open>t_tid\<close> is the thread, \<open>None\<close> when there is none.\<close>

record thread_ctx_t =
  t_fdb_state :: fdb_thread_state_t
  t_tid :: "nat option"
  t_config :: "config_t option"
  t_running :: bool
  t_z_id :: u32

datatype boot_call =
    Ignore_Sigpipe | Select_Api_Version int int | Setup_Network | Create_Database string | Create_Thread nat
  | Run_Network | Join_Thread nat | Destroy_Database handle | Free_Threads | Stop_Network | Free_Thread_States

text \<open>The answers: of the client, of calloc, of pthread_create, and whether
  \<^verbatim>\<open>fdb_run_network\<close> returns, given the calls made before it, and with which error (which
  \<^verbatim>\<open>main\<close> does not look at).\<close>

record boot_env =
  select_error :: fdb_error_t
  setup_error :: fdb_error_t
  states_calloc :: "handle option"
  threads_null :: bool
  create_database :: "nat \<Rightarrow> fdb_error_t \<times> handle option"
  create_thread :: "nat \<Rightarrow> bool"
  run_returns :: "boot_call list \<Rightarrow> bool"
  run_error :: fdb_error_t
  stop_error :: fdb_error_t

record boot_world =
  fdb_global :: fdb_global_t
  threads :: "thread_ctx_t list"
  calls :: "boot_call list"
  boot_log :: "log_line list"

definition FDB_API_VERSION :: int where
  "FDB_API_VERSION = 730"

definition FDB_CLUSTER_FILE_DEFAULT :: string where
  "FDB_CLUSTER_FILE_DEFAULT = ''/etc/foundationdb/fdb.cluster''"

definition zero_thread_state :: fdb_thread_state_t where
  "zero_thread_state = \<lparr>db = None, active_transactions = 0, max_transactions = 0\<rparr>"

definition zero_global :: fdb_global_t where
  "zero_global = \<lparr>cluster_file = [], thread_states = None, num_threads = 0, network_started = False\<rparr>"

definition boot_start :: boot_world where
  "boot_start = \<lparr>fdb_global = zero_global, threads = [], calls = [], boot_log = []\<rparr>"

definition call :: "boot_call \<Rightarrow> boot_world \<Rightarrow> boot_world" where
  "call c w = w\<lparr>calls := calls w @ [c]\<rparr>"

definition log_boot :: "log_line \<Rightarrow> boot_world \<Rightarrow> boot_world" where
  "log_boot l w = w\<lparr>boot_log := boot_log w @ [l]\<rparr>"

subsection \<open>Start and cleanup of the database adapter\<close>

definition fdb_global_init :: "boot_env \<Rightarrow> string option \<Rightarrow> u64 \<Rightarrow> boot_world \<Rightarrow> int \<times> boot_world" where
  "fdb_global_init env cluster n w =
     (let w = w\<lparr>fdb_global :=
            \<lparr>cluster_file = (case cluster of None \<Rightarrow> FDB_CLUSTER_FILE_DEFAULT | Some c \<Rightarrow> c),
             thread_states = states_calloc env, num_threads = n, network_started = False\<rparr>\<rparr>;
          w = call (Select_Api_Version FDB_API_VERSION FDB_API_VERSION) w
      in if select_error env \<noteq> 0
         then (select_error env, log_boot (LIBRARY_ERROR ''fdb_select_api_version'' (select_error env)) w)
         else let w = call Setup_Network w
              in if setup_error env \<noteq> 0
                 then (setup_error env, log_boot (LIBRARY_ERROR ''fdb_setup_network'' (setup_error env)) w)
                 else (0, w\<lparr>fdb_global := (fdb_global w)\<lparr>network_started := True\<rparr>\<rparr>))"

definition fdb_thread_init :: "fdb_error_t \<times> handle option \<Rightarrow> boot_world \<Rightarrow> int \<times> fdb_thread_state_t \<times> boot_world"
where
  "fdb_thread_init answer w =
     (let (err, h) = answer;
          state = zero_thread_state\<lparr>db := h\<rparr>;
          w = call (Create_Database (cluster_file (fdb_global w))) w
      in if err \<noteq> 0
         then (err, state, log_boot (LIBRARY_ERROR ''fdb_create_database'' err) w)
         else (0, state, w))"

definition fdb_thread_cleanup :: "fdb_thread_state_t \<Rightarrow> boot_world \<Rightarrow> boot_world" where
  "fdb_thread_cleanup state w =
     (case db state of None \<Rightarrow> w | Some h \<Rightarrow> call (Destroy_Database h) w)"

definition fdb_global_cleanup :: "boot_env \<Rightarrow> boot_world \<Rightarrow> boot_world" where
  "fdb_global_cleanup env w =
     (let w = (if network_started (fdb_global w)
               then (let w = call Stop_Network w
                     in if stop_error env \<noteq> 0
                        then log_boot (LIBRARY_ERROR ''fdb_stop_network'' (stop_error env)) w else w)
               else w)
      in call Free_Thread_States w)"

subsection \<open>The entry point\<close>

text \<open>The messages of the process. A call of \<^verbatim>\<open>fprintf\<close> on stderr with a text that ends in a
  newline is what the macro ERROR does; \<open>decimal\<close> is the conversion of an unsigned number.\<close>

abbreviation newline :: string where
  "newline \<equiv> [CHR 0x0A]"

fun decimal :: "nat \<Rightarrow> string" where
  "decimal n = (if n < 10 then [char_of (48 + n)] else decimal (n div 10) @ [char_of (48 + n mod 10)])"

declare decimal.simps [simp del]

lemma digits_value_decimal: "digits_value (decimal n) = int n"
proof (induction n rule: decimal.induct)
  case (1 n)
  have "digits_value (s @ [c]) = 10 * digits_value s + (of_char c - 48)" for s c
    by (simp add: digits_value_def)
  moreover have "10 * int (n div 10) + int (n mod 10) = int n" by (simp add: zdiv_int zmod_int)
  moreover have "(of_char (char_of (48 + m)) :: int) = 48 + int m" if "m < 10" for m :: nat
    using that of_nat_of_char[of "char_of (48 + m)", where ?'a = int, symmetric] by simp
  ultimately show ?case using 1 by (subst decimal.simps) (simp add: digits_value_def)
qed

definition usage_text :: "string \<Rightarrow> string" where
  "usage_text prog =
     ''Usage: '' @ prog @ '' -a<thread_count> -c<cluster_file> -z<zone_id>'' @ newline @
     newline @
     ''  -a  Number of worker threads'' @ newline @
     ''  -c  FoundationDB cluster file path'' @ newline @
     ''  -z  This process'' @ [CHR 0x27] @ ''s zone ID -- a zone fabric is multiple'' @ newline @
     ''      processes, each one zone (1 process : 1 zone). The'' @ newline @
     ''      one-UDP-port-per-zone-instance half of that deployment'' @ newline @
     ''      shape is the edge'' @ [CHR 0x27] @ ''s job now. Required.''"

definition usage :: "string \<Rightarrow> boot_world \<Rightarrow> boot_world" where
  "usage prog w = log_boot (ERROR (usage_text prog)) w"

definition ZONE_REQUIRED :: string where
  "ZONE_REQUIRED = ''zone-server-h2o: -z<zone_id> is required (a zone fabric is multiple processes, each one zone)''"

definition serving_line :: "u32 \<Rightarrow> u64 \<Rightarrow> string" where
  "serving_line z n = ''zone-server-h2o: zone '' @ decimal (unat z) @ '', '' @ decimal (unat n) @
     '' worker(s), no transport (a plane has no networking)''"

text \<open>The values the worker reads from \<open>running\<close> at its successive polls; the result is the
  number of sleeps before it returns, \<open>None\<close> while it has not.\<close>

fun worker_main :: "bool list \<Rightarrow> nat option" where
  "worker_main [] = None"
| "worker_main (False # rs) = Some 0"
| "worker_main (True # rs) = map_option Suc (worker_main rs)"

record main_opts =
  config :: config_t
  opt_z_id :: int
  have_z_id :: bool

definition main_spec :: "char \<Rightarrow> bool option" where
  "main_spec c =
     (if c \<in> set ''acz'' then Some True else if c = CHR ''h'' then Some False else None)"

definition main_defaults :: main_opts where
  "main_defaults =
     \<lparr>config = \<lparr>fdb_cluster_file = ''/etc/foundationdb/fdb.cluster'', worker_count = 1\<rparr>,
      opt_z_id = -1, have_z_id = False\<rparr>"

text \<open>The getopt loop: \<open>Inl\<close> an exit status after the usage message.\<close>

fun main_options :: "getopt_event list \<Rightarrow> main_opts \<Rightarrow> (int + main_opts) option" where
  "main_options [] os = Some (Inr os)"
| "main_options (Unknown # es) os = Some (Inl 1)"
| "main_options (Option c arg # es) os =
     (if c = CHR ''a'' then do {
        n \<leftarrow> c_atoi arg;
        main_options es (os\<lparr>config := (config os)\<lparr>worker_count := word_of_int n\<rparr>\<rparr>)
      }
      else if c = CHR ''c'' then
        main_options es (os\<lparr>config := (config os)\<lparr>fdb_cluster_file := arg\<rparr>\<rparr>)
      else if c = CHR ''z'' then do {
        z \<leftarrow> c_atol arg;
        main_options es (os\<lparr>opt_z_id := z, have_z_id := True\<rparr>)
      }
      else Some (Inl (if c = CHR ''h'' then 0 else 1)))"

text \<open>One turn of the loop that starts the workers. The results of fdb_thread_init and
  pthread_create are not checked.\<close>

definition start_worker :: "boot_env \<Rightarrow> config_t \<Rightarrow> u32 \<Rightarrow> nat \<Rightarrow> boot_world \<Rightarrow> boot_world option" where
  "start_worker env cfg z i w =
     (if i < length (threads w)
      then (let (_, state, w) = fdb_thread_init (create_database env i) w;
                tid = (if create_thread env i then Some i else None);
                t = \<lparr>t_fdb_state = state, t_tid = tid, t_config = Some cfg, t_running = True, t_z_id = z\<rparr>
            in Some (call (Create_Thread i) (w\<lparr>threads := (threads w)[i := t]\<rparr>)))
      else None)"

text \<open>Joining a thread that was not created is undefined.\<close>

definition stop_worker :: "nat \<Rightarrow> boot_world \<Rightarrow> boot_world option" where
  "stop_worker i w =
     (if i < length (threads w)
      then (let t = (threads w ! i)\<lparr>t_running := False\<rparr>;
                w = w\<lparr>threads := (threads w)[i := t]\<rparr>
            in case t_tid t of
                 None \<Rightarrow> None
               | Some tid \<Rightarrow> Some (fdb_thread_cleanup (t_fdb_state t) (call (Join_Thread tid) w)))
      else None)"

datatype main_result = Exited int boot_world | Serving boot_world

definition zero_thread :: thread_ctx_t where
  "zero_thread = \<lparr>t_fdb_state = zero_thread_state, t_tid = None, t_config = None, t_running = False, t_z_id = 0\<rparr>"

definition serve :: "boot_env \<Rightarrow> config_t \<Rightarrow> u32 \<Rightarrow> boot_world \<Rightarrow> main_result option" where
  "serve env cfg z w = do {
     let n = unat (worker_count cfg);
     w \<leftarrow> for_loop 0 n (start_worker env cfg z)
            (w\<lparr>threads := (if threads_null env then [] else replicate n zero_thread)\<rparr>);
     let w = call Run_Network (log_boot (ERROR (serving_line z (worker_count cfg))) w);
     (if \<not> run_returns env (calls w) then Some (Serving w)
      else do {
        w \<leftarrow> for_loop 0 n stop_worker w;
        Some (Exited 0 (fdb_global_cleanup env (call Free_Threads w)))
      })
   }"

definition zone_main :: "boot_env \<Rightarrow> string \<Rightarrow> string list \<Rightarrow> main_result option" where
  "zone_main env prog args = do {
     r \<leftarrow> main_options (getopt_events main_spec args) main_defaults;
     (case r of
        Inl status \<Rightarrow> Some (Exited status (usage prog boot_start))
      | Inr os \<Rightarrow>
          (if \<not> have_z_id os \<or> opt_z_id os < 0
           then Some (Exited 1 (usage prog (log_boot (ERROR ZONE_REQUIRED) boot_start)))
           else (let (err, w) = fdb_global_init env (Some (fdb_cluster_file (config os)))
                                  (worker_count (config os)) (call Ignore_Sigpipe boot_start)
                 in if err \<noteq> 0
                    then Some (Exited 1 (log_boot (ERROR ''Failed to initialize FoundationDB'') w))
                    else serve env (config os) (word_of_int (opt_z_id os)) w)))
   }"

subsection \<open>The loops over the workers\<close>

definition started_worker :: "boot_env \<Rightarrow> config_t \<Rightarrow> u32 \<Rightarrow> nat \<Rightarrow> thread_ctx_t" where
  "started_worker env cfg z i =
     \<lparr>t_fdb_state = \<lparr>db = snd (create_database env i), active_transactions = 0, max_transactions = 0\<rparr>,
      t_tid = (if create_thread env i then Some i else None), t_config = Some cfg,
      t_running = True, t_z_id = z\<rparr>"

definition start_calls :: "string \<Rightarrow> nat \<Rightarrow> boot_call list" where
  "start_calls f n = concat (map (\<lambda>i. [Create_Database f, Create_Thread i]) [0..<n])"

definition stop_calls :: "boot_env \<Rightarrow> nat \<Rightarrow> boot_call list" where
  "stop_calls env n = concat (map (\<lambda>i. Join_Thread i #
     (case snd (create_database env i) of None \<Rightarrow> [] | Some h \<Rightarrow> [Destroy_Database h])) [0..<n])"

lemma start_worker_eq:
  assumes "i < length (threads w)"
  shows "\<exists>l. start_worker env cfg z i w = Some (w\<lparr>threads := (threads w)[i := started_worker env cfg z i],
    calls := calls w @ [Create_Database (cluster_file (fdb_global w)), Create_Thread i],
    boot_log := l\<rparr>)"
  using assms
  by (cases "create_database env i"; cases w)
    (auto simp: start_worker_def fdb_thread_init_def Let_def call_def log_boot_def started_worker_def
      zero_thread_state_def)

lemma start_loop:
  assumes "k \<le> length (threads w)"
  shows "\<exists>w'. for_loop 0 k (start_worker env cfg z) w = Some w' \<and>
    threads w' = map (started_worker env cfg z) [0..<k] @ drop k (threads w) \<and>
    calls w' = calls w @ start_calls (cluster_file (fdb_global w)) k \<and> fdb_global w' = fdb_global w"
  using assms
proof (induction k)
  case 0
  then show ?case by (simp add: start_calls_def)
next
  case (Suc k)
  then obtain w1 where w1: "for_loop 0 k (start_worker env cfg z) w = Some w1"
    "threads w1 = map (started_worker env cfg z) [0..<k] @ drop k (threads w)"
    "calls w1 = calls w @ start_calls (cluster_file (fdb_global w)) k" "fdb_global w1 = fdb_global w"
    by auto
  then have k: "k < length (threads w1)" using Suc.prems by simp
  obtain l where "start_worker env cfg z k w1 = Some (w1\<lparr>threads := (threads w1)[k := started_worker env cfg z k],
    calls := calls w1 @ [Create_Database (cluster_file (fdb_global w1)), Create_Thread k], boot_log := l\<rparr>)"
    using start_worker_eq[OF k] by blast
  moreover have "(threads w1)[k := started_worker env cfg z k] =
      map (started_worker env cfg z) [0..<Suc k] @ drop (Suc k) (threads w)"
    using Suc.prems w1(2) by (simp add: list_update_append Cons_nth_drop_Suc[symmetric])
  ultimately show ?case
    using w1 by (simp add: for_loop_snoc start_calls_def)
qed

lemma stop_loop:
  assumes "threads w = map (started_worker env cfg z) [0..<n]" and "\<And>i. i < n \<Longrightarrow> create_thread env i" and "k \<le> n"
  shows "\<exists>w'. for_loop 0 k stop_worker w = Some w' \<and>
    threads w' = map (\<lambda>i. (started_worker env cfg z i)\<lparr>t_running := \<not> i < k\<rparr>) [0..<n] \<and>
    calls w' = calls w @ stop_calls env k \<and> fdb_global w' = fdb_global w"
  using assms(3)
proof (induction k)
  case 0
  then show ?case using assms(1) by (simp add: stop_calls_def started_worker_def)
next
  case (Suc k)
  then obtain w1 where w1: "for_loop 0 k stop_worker w = Some w1"
    "threads w1 = map (\<lambda>i. (started_worker env cfg z i)\<lparr>t_running := \<not> i < k\<rparr>) [0..<n]"
    "calls w1 = calls w @ stop_calls env k" "fdb_global w1 = fdb_global w" by auto
  have k: "k < n" using Suc.prems by simp
  let ?t = "(started_worker env cfg z k)\<lparr>t_running := False\<rparr>"
  have "stop_worker k w1 = Some (fdb_thread_cleanup (t_fdb_state ?t)
      (call (Join_Thread k) (w1\<lparr>threads := (threads w1)[k := ?t]\<rparr>)))"
    using k assms(2)[OF k] w1(2) by (simp add: stop_worker_def Let_def started_worker_def)
  moreover have "(threads w1)[k := ?t] = map (\<lambda>i. (started_worker env cfg z i)\<lparr>t_running := \<not> i < Suc k\<rparr>) [0..<n]"
    using k w1(2) by (intro nth_equalityI) (auto simp: nth_list_update less_Suc_eq)
  ultimately show ?case
    using w1
    by (auto simp: for_loop_snoc stop_calls_def fdb_thread_cleanup_def call_def started_worker_def
        split: option.split)
qed

lemma global_init_ok:
  assumes "select_error env = 0" and "setup_error env = 0"
  shows "fdb_global_init env (Some f) n w =
    (0, w\<lparr>fdb_global := \<lparr>cluster_file = f, thread_states = states_calloc env, num_threads = n,
       network_started = True\<rparr>, calls := calls w @ [Select_Api_Version FDB_API_VERSION FDB_API_VERSION, Setup_Network]\<rparr>)"
  using assms by (simp add: fdb_global_init_def call_def)

text \<open>The options of a command line that is accepted.\<close>

definition accepted :: "string list \<Rightarrow> main_opts \<Rightarrow> bool" where
  "accepted args os \<longleftrightarrow> main_options (getopt_events main_spec args) main_defaults = Some (Inr os) \<and>
     have_z_id os \<and> 0 \<le> opt_z_id os"

definition boot_ok :: "boot_env \<Rightarrow> bool" where
  "boot_ok env \<longleftrightarrow> select_error env = 0 \<and> setup_error env = 0 \<and> \<not> threads_null env"

lemma served:
  assumes acc: "accepted args os" and ok: "boot_ok env"
  defines "n \<equiv> unat (worker_count (config os))" and "z \<equiv> word_of_int (opt_z_id os)"
  shows "\<exists>w. threads w = map (started_worker env (config os) z) [0..<n] \<and>
    calls w = [Ignore_Sigpipe, Select_Api_Version FDB_API_VERSION FDB_API_VERSION, Setup_Network] @ start_calls (fdb_cluster_file (config os)) n @ [Run_Network] \<and>
    network_started (fdb_global w) \<and> last (boot_log w) = ERROR (serving_line z (worker_count (config os))) \<and>
    zone_main env prog args = (if run_returns env (calls w)
      then Option.bind (for_loop 0 n stop_worker w) (\<lambda>w. Some (Exited 0 (fdb_global_cleanup env (call Free_Threads w))))
      else Some (Serving w))"
proof -
  let ?g = "\<lparr>cluster_file = fdb_cluster_file (config os), thread_states = states_calloc env,
    num_threads = worker_count (config os), network_started = True\<rparr>"
  let ?w0 = "boot_start\<lparr>fdb_global := ?g, calls := [Ignore_Sigpipe, Select_Api_Version FDB_API_VERSION FDB_API_VERSION, Setup_Network]\<rparr>"
  let ?w1 = "?w0\<lparr>threads := replicate n zero_thread\<rparr>"
  let ?l = "log_boot (ERROR (serving_line z (worker_count (config os))))"
  have "zone_main env prog args = serve env (config os) z ?w0"
    using acc ok
    by (simp add: zone_main_def accepted_def boot_ok_def global_init_ok z_def)
      (simp add: boot_start_def call_def)
  moreover obtain w where w: "for_loop 0 n (start_worker env (config os) z) ?w1 = Some w"
    "threads w = map (started_worker env (config os) z) [0..<n]"
    "calls w = [Ignore_Sigpipe, Select_Api_Version FDB_API_VERSION FDB_API_VERSION, Setup_Network] @ start_calls (fdb_cluster_file (config os)) n"
    "fdb_global w = ?g"
    using start_loop[of n ?w1 env "config os" z] by auto
  ultimately have "zone_main env prog args = (let w = call Run_Network (?l w) in if run_returns env (calls w)
      then Option.bind (for_loop 0 n stop_worker w) (\<lambda>w. Some (Exited 0 (fdb_global_cleanup env (call Free_Threads w))))
      else Some (Serving w))"
    using ok by (simp add: serve_def boot_ok_def Let_def flip: n_def)
  then show ?thesis
    using w by (intro exI[of _ "call Run_Network (?l w)"]) (simp add: Let_def call_def log_boot_def)
qed

lemma options_zone:
  "main_options es os = Some (Inr os') \<Longrightarrow>
     have_z_id os' \<longleftrightarrow> have_z_id os \<or> (\<exists>arg. Option (CHR ''z'') arg \<in> set es)"
proof (induction es os rule: main_options.induct)
  case (3 c arg es os)
  then show ?case by (auto split: if_splits bind_splits)
qed simp_all

subsection \<open>Correctness of the start\<close>

text \<open>C35: without a zone the process does nothing. If no -z option is given, every command line
  ends the process with status 0 or 1 and the usage message, before any call to the operating
  system or the database client and with no thread created.\<close>

theorem zone_required:
  assumes "\<And>arg. Option (CHR ''z'') arg \<notin> set (getopt_events main_spec args)"
    and "zone_main env prog args = Some r"
  shows "\<exists>s w. r = Exited s w \<and> calls w = [] \<and> threads w = [] \<and> s \<in> {0, 1} \<and>
    last (boot_log w) = ERROR (usage_text prog)"
proof -
  obtain ro where ro: "main_options (getopt_events main_spec args) main_defaults = Some ro"
    using assms(2) by (auto simp: zone_main_def split: bind_splits)
  have status: "s \<in> {0, 1}" if "main_options es os = Some (Inl s)" for es os s
    using that by (induction es os rule: main_options.induct) (auto split: if_splits bind_splits)
  show ?thesis
  proof (cases ro)
    case (Inl s)
    then show ?thesis using assms(2) ro status by (auto simp: zone_main_def boot_start_def usage_def log_boot_def)
  next
    case (Inr os)
    then have "\<not> have_z_id os" using options_zone[of _ main_defaults os] ro assms(1)
      by (auto simp: main_defaults_def)
    then show ?thesis using assms(2) ro Inr by (auto simp: zone_main_def boot_start_def usage_def log_boot_def)
  qed
qed


lemma worker_main_returns:
  "worker_main rs = Some k \<longleftrightarrow> k < length rs \<and> \<not> rs ! k \<and> (\<forall>j < k. rs ! j)"
proof (induction rs arbitrary: k rule: worker_main.induct)
  case (3 rs)
  then show ?case by (cases k) (auto simp: All_less_Suc2)
qed (auto simp: nth_Cons')

text \<open>C34: the shutdown path is balanced. If fdb_run_network does return and every thread was
  created, the process ends with status 0 after the exact sequence: the two client start
  calls, one database and one thread per worker, the network, one join and (for a worker that
  has a database) one destroy per worker in order, the stop of the network and the release of
  the state array; no worker is left running. The joins return: a worker thread returns at its
  first poll that finds its flag cleared, and at no other.\<close>

theorem shutdown_balanced:
  assumes "accepted args os" and "boot_ok env" and "\<And>cs. run_returns env cs"
    and "\<And>i. i < unat (worker_count (config os)) \<Longrightarrow> create_thread env i"
  shows "\<exists>w. zone_main env prog args = Some (Exited 0 w) \<and>
    calls w = [Ignore_Sigpipe, Select_Api_Version FDB_API_VERSION FDB_API_VERSION, Setup_Network] @
      start_calls (fdb_cluster_file (config os)) (unat (worker_count (config os))) @ [Run_Network] @
      stop_calls env (unat (worker_count (config os))) @ [Free_Threads, Stop_Network, Free_Thread_States] \<and>
    (\<forall>t \<in> set (threads w). \<not> t_running t) \<and>
    (\<forall>polls k. worker_main polls = Some k \<longleftrightarrow> k < length polls \<and> \<not> polls ! k \<and> (\<forall>j < k. polls ! j))"
proof -
  let ?n = "unat (worker_count (config os))" and ?z = "word_of_int (opt_z_id os)"
  obtain w where w: "threads w = map (started_worker env (config os) ?z) [0..<?n]"
    "calls w = [Ignore_Sigpipe, Select_Api_Version FDB_API_VERSION FDB_API_VERSION, Setup_Network] @ start_calls (fdb_cluster_file (config os)) ?n @ [Run_Network]"
    "network_started (fdb_global w)"
    "zone_main env prog args = Option.bind (for_loop 0 ?n stop_worker w)
      (\<lambda>w. Some (Exited 0 (fdb_global_cleanup env (call Free_Threads w))))"
    using served[OF assms(1,2)] assms(3) by auto
  obtain w' where w': "for_loop 0 ?n stop_worker w = Some w'"
    "threads w' = map (\<lambda>i. (started_worker env (config os) ?z i)\<lparr>t_running := \<not> i < ?n\<rparr>) [0..<?n]"
    "calls w' = calls w @ stop_calls env ?n" "fdb_global w' = fdb_global w"
    using stop_loop[OF w(1) assms(4) order.refl] by auto
  show ?thesis
    using w w'
    by (intro exI[of _ "fdb_global_cleanup env (call Free_Threads w')"])
      (auto simp: fdb_global_cleanup_def Let_def call_def log_boot_def worker_main_returns)
qed

text \<open>The network is stopped exactly when it was started. Whatever the client answers,
  fdb_global_init followed by fdb_global_cleanup on the same state calls fdb_stop_network
  once if the initialisation succeeded and never if it failed, and releases the state array
  once; the return value is 0 exactly when both client calls succeeded.\<close>

lemma init_cleanup_paired:
  assumes "fdb_global_init env c n w = (err, w1)"
  shows "(err = 0 \<longleftrightarrow> select_error env = 0 \<and> setup_error env = 0) \<and>
    filter (\<lambda>x. x \<in> {Stop_Network, Free_Thread_States}) (calls (fdb_global_cleanup env w1)) =
      filter (\<lambda>x. x \<in> {Stop_Network, Free_Thread_States}) (calls w) @
      (if err = 0 then [Stop_Network, Free_Thread_States] else [Free_Thread_States])"
  using assms
  by (auto simp: fdb_global_init_def fdb_global_cleanup_def Let_def call_def log_boot_def split: if_splits)

definition sample_boot_env :: boot_env where
  "sample_boot_env =
     \<lparr>select_error = 0, setup_error = 0, states_calloc = Some 1, threads_null = False,
      create_database = (\<lambda>i. (0, Some (100 + i))), create_thread = (\<lambda>_. True),
      run_returns = (\<lambda>cs. Stop_Network \<in> set cs), run_error = 0, stop_error = 0\<rparr>"

definition sample_opts :: main_opts where
  "sample_opts = \<lparr>config = \<lparr>fdb_cluster_file = ''f'', worker_count = 2\<rparr>,
     opt_z_id = 4294967303, have_z_id = True\<rparr>"

lemma sample_accepted: "accepted [''-a2'', ''-cf'', ''-z'', ''4294967303''] sample_opts"
  by (simp add: accepted_def main_spec_def main_defaults_def sample_opts_def c_atoi_def c_atol_def
      c_strtol_def is_space_def is_digit_def digits_value_def)

lemma sample_boot_ok: "boot_ok sample_boot_env" "boot_ok (sample_boot_env\<lparr>run_returns := \<lambda>_. True\<rparr>)"
  by (simp_all add: boot_ok_def sample_boot_env_def)

theorem zone_required_witness:
  "zone_main sample_boot_env ''zone'' [''-a2'', ''-cf''] =
     Some (Exited 1 (usage ''zone'' (log_boot (ERROR ZONE_REQUIRED) boot_start))) \<and>
   (\<exists>s w. Exited 1 (usage ''zone'' (log_boot (ERROR ZONE_REQUIRED) boot_start)) = Exited s w \<and>
      calls w = [] \<and> threads w = [] \<and> s \<in> {0, 1} \<and> last (boot_log w) = ERROR (usage_text ''zone''))"
proof -
  have es: "getopt_events main_spec [''-a2'', ''-cf''] = [Option (CHR ''a'') ''2'', Option (CHR ''c'') ''f'']"
    by (simp add: main_spec_def)
  have m: "zone_main sample_boot_env ''zone'' [''-a2'', ''-cf''] =
      Some (Exited 1 (usage ''zone'' (log_boot (ERROR ZONE_REQUIRED) boot_start)))"
    by (simp add: zone_main_def main_spec_def main_defaults_def c_atoi_def c_strtol_def is_space_def is_digit_def
        digits_value_def)
  have "Option (CHR ''z'') arg \<notin> set (getopt_events main_spec [''-a2'', ''-cf''])" for arg
    unfolding es by simp
  from zone_required[OF this m] m show ?thesis by blast
qed


theorem shutdown_balanced_witness:
  "\<exists>w. zone_main (sample_boot_env\<lparr>run_returns := \<lambda>_. True\<rparr>) ''zone''
      [''-a2'', ''-cf'', ''-z'', ''4294967303''] = Some (Exited 0 w) \<and>
     calls w = [Ignore_Sigpipe, Select_Api_Version FDB_API_VERSION FDB_API_VERSION, Setup_Network, Create_Database ''f'', Create_Thread 0,
       Create_Database ''f'', Create_Thread 1, Run_Network, Join_Thread 0, Destroy_Database 100,
       Join_Thread 1, Destroy_Database 101, Free_Threads, Stop_Network, Free_Thread_States]"
  using shutdown_balanced[OF sample_accepted sample_boot_ok(2), of "''zone''"]
  by (auto simp: sample_opts_def sample_boot_env_def start_calls_def stop_calls_def upt_rec)

end
