(* ===== verification/Zonetick.thy ===== *)
theory Zonetick
  imports Kv Fdb "HOL-Library.Signed_Division"
begin

text \<open>
  The zone tick: \<^verbatim>\<open>src/zf_zonetick.{h,c}\<close>, an asynchronous read, advance and write of
  every entity of one zone in one database transaction.

  The tick's context is a heap object of its own; its function pointers into the adapter
  are the three constructors of \<open>zt_cb\<close>. The handlers are the C functions, with the
  answers of the client calls they make as arguments (see the adapter theory). Signed
  overflow in the position update is undefined behaviour, \<open>None\<close>. One step of the system
  is a call of \<open>zf_zonetick_run\<close> or the delivery of one ready future through the
  adapter's callback wrapper; any number of ticks may be in flight, for the same or for
  different zones, and futures become ready in any order.
\<close>

subsection \<open>Position arithmetic\<close>

definition INT16_MAX :: int where
  "INT16_MAX = 32767"

text \<open>The result of a 64-bit signed operation; overflow is undefined.\<close>

definition in_i64 :: "int \<Rightarrow> bool" where
  "in_i64 x \<longleftrightarrow> - (2 ^ 63) \<le> x \<and> x < 2 ^ 63"

definition i64_of :: "int \<Rightarrow> i64" where
  "i64_of x = word_of_int x"

definition c_i64 :: "int \<Rightarrow> i64 option" where
  "c_i64 x = (if in_i64 x then Some (i64_of x) else None)"

text \<open>C division truncates towards zero, as \<open>sdiv\<close> does.\<close>

definition vel_to_um_per_tick :: "i16 \<Rightarrow> i64 option" where
  "vel_to_um_per_tick v = do {
     p \<leftarrow> c_i64 (sint v * XR_PACKET_V_MAX_PHYSICAL_DEFAULT_UM_PER_TICK);
     c_i64 (sint p sdiv INT16_MAX)
   }"

text \<open>The body of the loop over the range: one stored value to the value written back.\<close>

definition tick_value :: "u32 \<Rightarrow> bytes \<Rightarrow> bytes option" where
  "tick_value tick_count value = do {
     ev \<leftarrow> zf_kv_decode_entity value (int (length value));
     ux \<leftarrow> vel_to_um_per_tick (vel_x ev);
     dx \<leftarrow> c_i64 (sint ux * uint tick_count);
     uy \<leftarrow> vel_to_um_per_tick (vel_y ev);
     dy \<leftarrow> c_i64 (sint uy * uint tick_count);
     uz \<leftarrow> vel_to_um_per_tick (vel_z ev);
     dz \<leftarrow> c_i64 (sint uz * uint tick_count);
     px \<leftarrow> c_i64 (sint (pos_um_x ev) + sint dx);
     py \<leftarrow> c_i64 (sint (pos_um_y ev) + sint dy);
     pz \<leftarrow> c_i64 (sint (pos_um_z ev) + sint dz);
     zf_kv_encode_entity (replicate ZF_ENTITY_VAL_SIZE 0)
       (ev\<lparr>pos_um_x := px, pos_um_y := py, pos_um_z := pz\<rparr>)
   }"

subsection \<open>Data\<close>

text \<open>The context also keeps the pointer to the thread state it was started with. It is left out: it
  is handed to adapter functions only that do not use it.\<close>

datatype zt_cb = ZT_ON_RANGE_READ | ZT_ON_COMMIT | ZT_ON_ERROR_RETRY

record zonetick_ctx_t =
  tr :: "handle option"
  z_id :: u32
  tick_count :: u32
  done_cb :: "handle option"
  user_ctx :: handle

record zt_world = "zt_cb fdb_world" +
  ctx_heap :: "handle \<rightharpoonup> zonetick_ctx_t"
  done_log :: "(handle \<times> handle \<times> bool) list"

record zt_run_env =
  calloc_null :: bool
  create_error :: fdb_error_t
  submit_env :: fdb_env

subsection \<open>Operations\<close>

definition zt_finish :: "handle \<Rightarrow> bool \<Rightarrow> zt_world \<Rightarrow> zt_world option" where
  "zt_finish c ok w = do {
     x \<leftarrow> ctx_heap w c;
     w \<leftarrow> (case tr x of None \<Rightarrow> Some w | Some t \<Rightarrow> fdb_transaction_destroy t w);
     let w = (case done_cb x of
                None \<Rightarrow> w
              | Some d \<Rightarrow> w\<lparr>done_log := done_log w @ [(d, user_ctx x, ok)]\<rparr>);
     Some (w\<lparr>ctx_heap := (ctx_heap w)(c := None)\<rparr>)
   }"

definition zt_start_range_read :: "fdb_env \<Rightarrow> handle \<Rightarrow> zt_world \<Rightarrow> zt_world option" where
  "zt_start_range_read env c w = do {
     x \<leftarrow> ctx_heap w c;
     t \<leftarrow> tr x;
     (r, w) \<leftarrow> fdb_async_get_range env t (range_begin (z_id x)) (range_end (z_id x))
                ZT_ON_RANGE_READ c w;
     (if r \<noteq> 0 then zt_finish c False w else Some w)
   }"

definition zt_on_error_retry :: "fdb_env \<Rightarrow> fdb_outcome \<Rightarrow> handle \<Rightarrow> zt_world \<Rightarrow> zt_world option" where
  "zt_on_error_retry env out c w = zt_start_range_read env c w"

fun zt_tick_loop :: "u32 \<Rightarrow> handle \<Rightarrow> key_value list \<Rightarrow> zt_world \<Rightarrow> zt_world option" where
  "zt_tick_loop n t [] w = Some w"
| "zt_tick_loop n t ((k, v) # kvs) w = do {
     val_buf \<leftarrow> tick_value n v;
     w \<leftarrow> fdb_sync_set t k val_buf w;
     zt_tick_loop n t kvs w
   }"

definition zt_on_range_read :: "fdb_env \<Rightarrow> fdb_outcome \<Rightarrow> handle \<Rightarrow> zt_world \<Rightarrow> zt_world option" where
  "zt_on_range_read env out c w = do {
     x \<leftarrow> ctx_heap w c;
     t \<leftarrow> tr x;
     (if out_error out \<noteq> 0
      then do {
        (_, w) \<leftarrow> fdb_handle_error env t (out_error out) ZT_ON_ERROR_RETRY c w;
        Some w
      }
      else if out_kv_error out \<noteq> 0 then zt_finish c False w
      else do {
        w \<leftarrow> zt_tick_loop (tick_count x) t (out_kvs out) w;
        (_, w) \<leftarrow> fdb_async_commit env t ZT_ON_COMMIT c w;
        Some w
      })
   }"

definition zt_on_commit :: "fdb_env \<Rightarrow> fdb_outcome \<Rightarrow> handle \<Rightarrow> zt_world \<Rightarrow> zt_world option" where
  "zt_on_commit env out c w =
     (if out_error out \<noteq> 0
      then do {
        x \<leftarrow> ctx_heap w c;
        t \<leftarrow> tr x;
        (_, w) \<leftarrow> fdb_handle_error env t (out_error out) ZT_ON_ERROR_RETRY c w;
        Some w
      }
      else zt_finish c True w)"

definition zf_zonetick_run :: "zt_run_env \<Rightarrow> u32 \<Rightarrow> u32 \<Rightarrow> handle option \<Rightarrow> handle \<Rightarrow> zt_world
    \<Rightarrow> (int \<times> zt_world) option" where
  "zf_zonetick_run env z n done_callback user w =
     (if calloc_null env then Some (-1, w)
      else do {
        let c = next_handle w;
        let x = \<lparr>tr = None, z_id = z, tick_count = n, done_cb = done_callback, user_ctx = user\<rparr>;
        let w = w\<lparr>ctx_heap := (ctx_heap w)(c \<mapsto> x), next_handle := Suc c\<rparr>;
        (err, t, w) \<leftarrow> fdb_create_transaction (create_error env) w;
        (if err \<noteq> 0
         then Some (-1, w\<lparr>ctx_heap := (ctx_heap w)(c := None)\<rparr>)
         else do {
           let w = w\<lparr>ctx_heap := (ctx_heap w)(c \<mapsto> x\<lparr>tr := t\<rparr>)\<rparr>;
           w \<leftarrow> zt_start_range_read (submit_env env) c w;
           Some (0, w)
         })
      })"

text \<open>The code behind the three function pointers, and the delivery of a ready future: the
  client fires the registered callback once, which is the adapter's wrapper.\<close>

definition zt_code :: "fdb_env \<Rightarrow> fdb_outcome \<Rightarrow> zt_cb \<Rightarrow> handle \<Rightarrow> handle \<Rightarrow> zt_world \<Rightarrow> zt_world option"
where
  "zt_code env out p f c w =
     (case p of
        ZT_ON_RANGE_READ \<Rightarrow> zt_on_range_read env out c w
      | ZT_ON_COMMIT \<Rightarrow> zt_on_commit env out c w
      | ZT_ON_ERROR_RETRY \<Rightarrow> zt_on_error_retry env out c w)"

definition zt_deliver :: "fdb_client \<Rightarrow> fdb_env \<Rightarrow> fdb_outcome \<Rightarrow> handle \<Rightarrow> zt_world \<Rightarrow> zt_world option" where
  "zt_deliver client env out f w = do {
     a \<leftarrow> registered w f;
     let w = become_ready client out f w;
     future_callback (zt_code env out) f a (w\<lparr>registered := (registered w)(f := None)\<rparr>)
   }"

subsection \<open>Arithmetic of one tick\<close>

definition um_per_tick :: "i16 \<Rightarrow> int" where
  "um_per_tick v = (sint v * 500000) sdiv 32767"

lemma sint_i16_bounds: "- 32768 \<le> sint (v :: i16)" "sint (v :: i16) \<le> 32767"
  using sint_greater_eq[of v] sint_less[of v] by simp_all

lemma um_per_tick_bounds: "- 500015 \<le> um_per_tick v" "um_per_tick v \<le> 500000"
proof -
  have b: "- 32768 \<le> sint v" "sint v \<le> 32767" by (rule sint_i16_bounds)+
  have "(sint v * 500000) sdiv 32767 =
      (if 0 \<le> sint v then sint v * 500000 div 32767 else - (- (sint v * 500000) div 32767))"
    by (simp add: signed_divide_int_def sgn_if)
  moreover have "sint v * 500000 div 32767 \<le> 500000"
    using b zdiv_mono1[of "sint v * 500000" "32767 * 500000" 32767] by simp
  moreover have "- (sint v * 500000) div 32767 \<le> 500015"
    using b zdiv_mono1[of "- (sint v * 500000)" "32768 * 500000" 32767] by simp
  moreover have "0 \<le> sint v \<Longrightarrow> 0 \<le> sint v * 500000 div 32767"
    "sint v < 0 \<Longrightarrow> 0 \<le> - (sint v * 500000) div 32767"
    by (simp_all add: pos_imp_zdiv_nonneg_iff)
  ultimately show "- 500015 \<le> um_per_tick v" "um_per_tick v \<le> 500000"
    unfolding um_per_tick_def by (auto split: if_splits)
qed

lemma sint_i64_of: "in_i64 x \<Longrightarrow> sint (i64_of x) = x"
  by (simp add: i64_of_def in_i64_def sint_sbintrunc' signed_take_bit_int_eq_self)

lemma i64_of_sint [simp]: "i64_of (sint w) = w"
  by (simp add: i64_of_def)

lemma in_i64_sint [simp]: "in_i64 (sint (w :: i64))"
  using sint_greater_eq[of w] sint_less[of w] by (simp add: in_i64_def)

lemma in_i64_small: "\<bar>x\<bar> < 2 ^ 63 \<Longrightarrow> in_i64 x"
  by (auto simp: in_i64_def)

lemma um_per_tick_in_i64 [simp]: "in_i64 (um_per_tick v)"
  using um_per_tick_bounds[of v] by (intro in_i64_small) auto

lemma vel_to_um_eq: "vel_to_um_per_tick v = Some (i64_of (um_per_tick v))"
proof -
  have b: "- 32768 \<le> sint v" "sint v \<le> 32767" by (rule sint_i16_bounds)+
  then have "in_i64 (sint v * 500000)" by (intro in_i64_small) auto
  moreover have "in_i64 ((sint v * 500000) sdiv 32767)"
    using um_per_tick_in_i64[of v] unfolding um_per_tick_def .
  ultimately show ?thesis
    by (simp add: vel_to_um_per_tick_def XR_PACKET_V_MAX_PHYSICAL_DEFAULT_UM_PER_TICK_def
        INT16_MAX_def um_per_tick_def c_i64_def sint_i64_of)
qed

lemma displacement_bound:
  fixes n :: u32
  shows "\<bar>um_per_tick v * uint n\<bar> < 2 ^ 51"
proof -
  have n: "0 \<le> uint n" "uint n \<le> 4294967295"
    using uint_lt2p[of n] by simp_all
  have "\<bar>um_per_tick v * uint n\<bar> \<le> 500015 * 4294967295"
    using um_per_tick_bounds[of v] n unfolding abs_mult by (intro mult_mono) auto
  then show ?thesis by simp
qed

lemma displacement_in_i64 [simp]: "in_i64 (um_per_tick v * uint (n :: u32))"
  using displacement_bound[of v n] by (intro in_i64_small) simp

text \<open>The intended effect on a packet: every axis moves by the per-tick displacement times the
  tick count, in unbounded integers, and nothing else changes.\<close>

definition moved :: "i64 \<Rightarrow> i16 \<Rightarrow> u32 \<Rightarrow> int" where
  "moved pos v n = sint pos + um_per_tick v * uint n"

definition tick_defined :: "u32 \<Rightarrow> xr_grid_entity_packet_t \<Rightarrow> bool" where
  "tick_defined n p \<longleftrightarrow>
     in_i64 (moved (pos_um_x p) (vel_x p) n) \<and>
     in_i64 (moved (pos_um_y p) (vel_y p) n) \<and>
     in_i64 (moved (pos_um_z p) (vel_z p) n)"

definition tick_packet :: "u32 \<Rightarrow> xr_grid_entity_packet_t \<Rightarrow> xr_grid_entity_packet_t" where
  "tick_packet n p =
     p\<lparr>pos_um_x := i64_of (moved (pos_um_x p) (vel_x p) n),
       pos_um_y := i64_of (moved (pos_um_y p) (vel_y p) n),
       pos_um_z := i64_of (moved (pos_um_z p) (vel_z p) n)\<rparr>"

text \<open>The packet a stored value is read as: a value shorter than a packet reads as zero.\<close>

definition stored_packet :: "bytes \<Rightarrow> xr_grid_entity_packet_t" where
  "stored_packet v = (if 100 \<le> length v then wire_packet v else packet_zero)"

lemma stored_packet_wf [simp]: "packet_wf (stored_packet v)"
  by (simp add: stored_packet_def wire_packet_wf)

lemma tick_packet_wf [simp]: "packet_wf (tick_packet n p) = packet_wf p"
  by (simp add: tick_packet_def packet_wf_def)

lemma decode_stored: "zf_kv_decode_entity v (int (length v)) = Some (stored_packet v)"
  by (simp add: stored_packet_def decode_entity_short decode_entity_long)

lemma axis_step:
  "Option.bind (vel_to_um_per_tick v) (\<lambda>u. Option.bind (c_i64 (sint u * uint n)) f) =
     f (i64_of (um_per_tick v * uint (n :: u32)))"
  by (simp add: vel_to_um_eq sint_i64_of c_i64_def)

lemma tick_value_eq:
  "tick_value n v =
     (if tick_defined n (stored_packet v)
      then Some (packet_wire (tick_packet n (stored_packet v))) else None)"
proof -
  let ?p = "stored_packet v"
  have enc: "zf_kv_encode_entity (replicate ZF_ENTITY_VAL_SIZE 0) (tick_packet n ?p) =
      Some (packet_wire (tick_packet n ?p))"
    by (simp add: zf_kv_encode_entity_def ZF_ENTITY_VAL_SIZE_def packet_consts encode_in)
  show ?thesis
    using enc
    by (simp add: tick_value_def decode_stored axis_step sint_i64_of)
      (simp add: c_i64_def tick_defined_def moved_def tick_packet_def)
qed

lemma stored_packet_wire [simp]: "packet_wf p \<Longrightarrow> stored_packet (packet_wire p) = p"
  using wire_packet_packet_wire[of p "[]"] by (simp add: stored_packet_def length_packet_wire)

subsection \<open>Correctness of the position update\<close>

lemma sint_um: "sint (i64_of (um_per_tick v)) = um_per_tick v"
  by (simp add: sint_i64_of)

lemma um_per_tick_trunc:
  "\<bar>32767 * um_per_tick v - 500000 * sint v\<bar> < 32767"
  "0 \<le> sint v \<Longrightarrow> 0 \<le> um_per_tick v" "sint v \<le> 0 \<Longrightarrow> um_per_tick v \<le> 0"
proof -
  have cases: "um_per_tick v =
      (if 0 \<le> sint v then sint v * 500000 div 32767 else - (- (sint v * 500000) div 32767))"
    by (simp add: um_per_tick_def signed_divide_int_def sgn_if)
  have pos: "0 \<le> a \<Longrightarrow> 32767 * (a div 32767) \<le> a \<and> a < 32767 * (a div 32767) + 32767" for a :: int
    by (simp add: minus_mod_eq_mult_div[symmetric])
  show "\<bar>32767 * um_per_tick v - 500000 * sint v\<bar> < 32767"
    using pos[of "sint v * 500000"] pos[of "- (sint v * 500000)"] by (auto simp: cases)
  show "0 \<le> sint v \<Longrightarrow> 0 \<le> um_per_tick v"
    by (simp add: cases pos_imp_zdiv_nonneg_iff)
  show "sint v \<le> 0 \<Longrightarrow> um_per_tick v \<le> 0"
    by (cases "sint v = 0") (simp_all add: cases pos_imp_zdiv_nonneg_iff)
qed

text \<open>C23: the velocity conversion. It never overflows; it is within one micrometer of the exact
  quotient and has the sign of the velocity; and the result is within plus or minus 500000
  micrometers per tick for every velocity but the most negative one, whose displacement is
  -500015.\<close>

theorem velocity_conversion:
  "\<exists>u. vel_to_um_per_tick v = Some u \<and>
     \<bar>32767 * sint u - 500000 * sint v\<bar> < 32767 \<and>
     (0 \<le> sint v \<longrightarrow> 0 \<le> sint u) \<and> (sint v \<le> 0 \<longrightarrow> sint u \<le> 0) \<and>
     (if sint v = -32768 then sint u = -500015 else \<bar>sint u\<bar> \<le> 500000)"
proof -
  have "um_per_tick v = -500015" if "sint v = -32768"
    unfolding um_per_tick_def that by (simp add: signed_divide_int_def)
  moreover have "\<bar>um_per_tick v\<bar> \<le> 500000" if "sint v \<noteq> -32768"
  proof -
    have "- 32767 \<le> sint v" using that sint_i16_bounds(1)[of v] by simp
    then have "\<not> um_per_tick v < -500000" using um_per_tick_trunc(1)[of v] by arith
    then show ?thesis using um_per_tick_bounds(2)[of v] by simp
  qed
  moreover obtain u where "vel_to_um_per_tick v = Some u" "sint u = um_per_tick v"
    using vel_to_um_eq sint_um by blast
  ultimately show ?thesis using um_per_tick_trunc[of v] by auto
qed

theorem velocity_conversion_witness:
  "\<exists>u. vel_to_um_per_tick (-32768) = Some u \<and> sint u = -500015 \<and> sint u \<le> 0"
  using velocity_conversion[of "-32768"] by auto

text \<open>C8: the update of one stored value. A value of at least 100 bytes is read as a packet, a
  shorter one as the zero packet; the update is undefined exactly when the exact new position
  of an axis leaves the 64-bit range, and otherwise yields 100 bytes that decode to the same
  packet with every axis moved by its per-tick displacement times the tick count.\<close>

theorem tick_value_correct:
  "(tick_value n v = None \<longleftrightarrow> \<not> tick_defined n (stored_packet v)) \<and>
   (tick_value n v = Some v' \<longrightarrow> length v' = 100 \<and>
     (let p = stored_packet v; p' = stored_packet v' in
      sint (pos_um_x p') = sint (pos_um_x p) + um_per_tick (vel_x p) * uint n \<and>
      sint (pos_um_y p') = sint (pos_um_y p) + um_per_tick (vel_y p) * uint n \<and>
      sint (pos_um_z p') = sint (pos_um_z p) + um_per_tick (vel_z p) * uint n \<and>
      p' = p\<lparr>pos_um_x := pos_um_x p', pos_um_y := pos_um_y p', pos_um_z := pos_um_z p'\<rparr>))"
proof (rule conjI; (rule impI)?)
  show "tick_value n v = None \<longleftrightarrow> \<not> tick_defined n (stored_packet v)"
    by (simp add: tick_value_eq)
  let ?p = "stored_packet v"
  assume "tick_value n v = Some v'"
  then have d: "tick_defined n ?p" and eq: "v' = packet_wire (tick_packet n ?p)"
    by (auto simp: tick_value_eq split: if_splits)
  have "length v' = 100" by (simp add: eq length_packet_wire)
  moreover have "stored_packet v' = tick_packet n ?p" by (simp add: eq)
  ultimately show "length v' = 100 \<and>
     (let p = stored_packet v; p' = stored_packet v' in
      sint (pos_um_x p') = sint (pos_um_x p) + um_per_tick (vel_x p) * uint n \<and>
      sint (pos_um_y p') = sint (pos_um_y p) + um_per_tick (vel_y p) * uint n \<and>
      sint (pos_um_z p') = sint (pos_um_z p) + um_per_tick (vel_z p) * uint n \<and>
      p' = p\<lparr>pos_um_x := pos_um_x p', pos_um_y := pos_um_y p', pos_um_z := pos_um_z p'\<rparr>)"
    using d by (simp add: tick_defined_def tick_packet_def moved_def sint_i64_of)
qed

definition moving_packet :: xr_grid_entity_packet_t where
  "moving_packet = packet_zero\<lparr>pos_um_x := 1000000, vel_x := 32767, vel_y := -16384\<rparr>"

lemma moving_packet_wf [simp]: "packet_wf moving_packet"
  using packet_zero_wf by (simp add: moving_packet_def packet_wf_def)

lemma moving_packet_um [simp]:
  "um_per_tick (vel_x moving_packet) = 500000" "um_per_tick (vel_y moving_packet) = -250007"
  "um_per_tick (vel_z moving_packet) = 0"
  "pos_um_x moving_packet = 1000000" "pos_um_y moving_packet = 0" "pos_um_z moving_packet = 0"
  by (simp_all add: moving_packet_def packet_zero_def um_per_tick_def signed_divide_int_def)

lemma moving_packet_defined [simp]: "tick_defined 3 moving_packet"
  by (simp add: tick_defined_def moved_def in_i64_def)

theorem tick_value_correct_witness:
  "\<exists>v'. tick_value 3 (packet_wire moving_packet) = Some v' \<and> length v' = 100 \<and>
     sint (pos_um_x (stored_packet v')) = 2500000 \<and> sint (pos_um_y (stored_packet v')) = -750021"
proof -
  obtain v' where v': "tick_value 3 (packet_wire moving_packet) = Some v'"
    using tick_value_correct[of 3 "packet_wire moving_packet"] by auto
  show ?thesis using tick_value_correct[of 3 "packet_wire moving_packet" v'] v' by (simp add: Let_def)
qed

text \<open>Displacement is linear in the tick count, so every position on the way is between the two
  ends.\<close>

lemma in_i64_between:
  assumes "in_i64 a" and "in_i64 (a + b * n)" and "0 \<le> m" and "m \<le> n"
  shows "in_i64 (a + b * m)"
proof (cases "0 \<le> b")
  case True
  then have "0 \<le> b * m" "b * m \<le> b * n" using assms by (simp_all add: mult_left_mono)
  then show ?thesis using assms(1,2) unfolding in_i64_def by linarith
next
  case False
  then have "b * m \<le> 0" "b * n \<le> b * m" using assms by (simp_all add: mult_nonpos_nonneg mult_left_mono_neg)
  then show ?thesis using assms(1,2) unfolding in_i64_def by linarith
qed

lemma tick_packet_add:
  assumes "tick_defined m p"
  shows "sint (pos_um_x (tick_packet m p)) = moved (pos_um_x p) (vel_x p) m"
    "sint (pos_um_y (tick_packet m p)) = moved (pos_um_y p) (vel_y p) m"
    "sint (pos_um_z (tick_packet m p)) = moved (pos_um_z p) (vel_z p) m"
    "vel_x (tick_packet m p) = vel_x p" "vel_y (tick_packet m p) = vel_y p"
    "vel_z (tick_packet m p) = vel_z p"
  using assms by (simp_all add: tick_packet_def tick_defined_def sint_i64_of)

lemma tick_defined_mono:
  assumes "tick_defined n p" and "uint m \<le> uint n"
  shows "tick_defined m p"
  using assms by (auto simp: tick_defined_def moved_def intro: in_i64_between[of _ _ "uint n"])

lemma moved_trans:
  assumes "in_i64 (moved a v m)" and "uint (n :: u32) = uint m + uint k"
  shows "moved (i64_of (moved a v m)) v k = moved a v n"
  using assms by (simp add: moved_def sint_i64_of algebra_simps)

lemma tick_packet_trans:
  assumes "tick_defined m p" and "uint n = uint m + uint k"
  shows "tick_packet k (tick_packet m p) = tick_packet n p"
    and "tick_defined k (tick_packet m p) \<longleftrightarrow> tick_defined n p"
  using assms moved_trans
  by (simp_all add: tick_packet_def tick_defined_def)

lemma uint_u32_of_nat: "k < 2 ^ 32 \<Longrightarrow> uint (word_of_nat k :: u32) = int k"
  by (simp add: unsigned_of_nat take_bit_nat_eq_self flip: of_nat_take_bit)

lemma uint_word_Suc:
  assumes "Suc k < 2 ^ 32"
  shows "uint (word_of_nat (Suc k) :: u32) = uint (word_of_nat k :: u32) + uint (1 :: u32)"
  using uint_u32_of_nat[OF assms] uint_u32_of_nat[of k] assms by simp

lemma tick_value_next:
  assumes "uint n = uint m + uint (1 :: u32)"
  shows "Option.bind (tick_value m v) (tick_value 1) = tick_value n v"
proof (cases "tick_defined m (stored_packet v)")
  case True
  then show ?thesis using tick_packet_trans[OF True assms] by (simp add: tick_value_eq)
next
  case False
  have "uint m \<le> uint n" using assms by simp
  then have "\<not> tick_defined n (stored_packet v)" using tick_defined_mono False by blast
  then show ?thesis using False by (simp add: tick_value_eq)
qed

text \<open>C22: the multiplication by the tick count is the per-tick update applied tick-count times. For
  every stored value and every positive tick count, reading, advancing by one tick and writing
  back that many times gives the same bytes as the single update the code does, and is
  undefined exactly when that is. A tick count of zero, which the code accepts, is not zero
  applications: the update is then always defined and writes the decoded packet back in its
  100-byte form, so that it leaves the value alone exactly when the value has that form.\<close>

theorem tick_count_iterates:
  "(if 0 < n then ((\<lambda>r. Option.bind r (tick_value 1)) ^^ unat n) (Some v) = tick_value n v
    else tick_value n v = Some (packet_wire (stored_packet v)) \<and>
      (tick_value n v = Some v \<longleftrightarrow> (\<exists>p. packet_wf p \<and> v = packet_wire p)))"
proof (cases "0 < n")
  case True
  have it: "((\<lambda>r. Option.bind r (tick_value 1)) ^^ Suc j) (Some v) = tick_value (word_of_nat (Suc j)) v"
    if "Suc j < 2 ^ 32" for j
    using that
  proof (induction j)
    case (Suc j)
    then show ?case using tick_value_next[OF uint_word_Suc[OF Suc.prems]] by simp
  qed simp
  obtain j where j: "unat n = Suc j" using True by (metis gr0_implies_Suc unat_gt_0 word_neq_0_conv)
  then have "Suc j < 2 ^ 32" "word_of_nat (Suc j) = n"
    using unsigned_less[of n, where ?'a = nat] by (simp_all flip: j)
  then show ?thesis using it[of j] j True by simp
next
  case False
  then have n: "n = 0" using word_gt_0 by blast
  have "tick_packet 0 p = p" "tick_defined 0 p" for p
    by (simp_all add: tick_packet_def tick_defined_def moved_def)
  then have "tick_value n v = Some (packet_wire (stored_packet v))" by (simp add: tick_value_eq n)
  moreover have "packet_wire (stored_packet v) = v \<longleftrightarrow> (\<exists>p. packet_wf p \<and> v = packet_wire p)"
    using stored_packet_wf stored_packet_wire by metis
  ultimately show ?thesis using False by simp
qed

theorem tick_count_iterates_witness:
  "((\<lambda>r. Option.bind r (tick_value 1)) ^^ 3) (Some (packet_wire moving_packet)) =
     tick_value 3 (packet_wire moving_packet) \<and> tick_value 3 (packet_wire moving_packet) \<noteq> None \<and>
   tick_value 0 (packet_wire moving_packet @ [7]) \<noteq> Some (packet_wire moving_packet @ [7])"
  using tick_count_iterates[of 3 "packet_wire moving_packet"] tick_count_iterates[of 0 "packet_wire moving_packet @ [7]"]
  by (auto simp: tick_value_eq length_packet_wire dest: arg_cong[of _ _ length])

end
