(* ===== verification/Zonetick_Protocol.thy ===== *)
theory Zonetick_Protocol
  imports Zonetick
begin

text \<open>
  The protocol the handlers of \<^verbatim>\<open>src/zf_zonetick.c\<close> follow.

  First the ownership invariant: which future, callback object, transaction and context
  belongs to which tick, so that every access of a handler is to a live object. Then, one
  lemma per action (submission, finish, unregistering, release), that the action keeps it.
  Then the abstract protocol of one tick (\<open>zt_protocol\<close>) and that each handler, run
  through the adapter's callback wrapper, takes exactly the protocol's effect.
\<close>

subsection \<open>Ownership of handles\<close>

text \<open>A request and its function pointer belong together: a range read of the tick's own
  range is answered by the range-read handler, and so on.\<close>

definition range_request :: "handle \<Rightarrow> u32 \<Rightarrow> fdb_request" where
  "range_request t z =
     Range_Request t \<lparr>sel_key = range_begin z, sel_or_equal = False, sel_offset = 1\<rparr>
                     \<lparr>sel_key = range_end z, sel_or_equal = False, sel_offset = 1\<rparr> get_range_options"

definition request_ok :: "fdb_request \<Rightarrow> zt_cb \<Rightarrow> handle \<Rightarrow> zonetick_ctx_t \<Rightarrow> bool" where
  "request_ok req p t x \<longleftrightarrow>
     tr x = Some t \<and>
     (p = ZT_ON_RANGE_READ \<and> req = range_request t (z_id x) \<or>
      p = ZT_ON_COMMIT \<and> req = Commit_Request t \<or>
      p = ZT_ON_ERROR_RETRY \<and> (\<exists>e. e \<noteq> 0 \<and> req = On_Error_Request t e))"

text \<open>A registered future is live, its callback object is allocated and points back to it, and
  the tick it belongs to is live.\<close>

definition owned :: "zt_world \<Rightarrow> handle \<Rightarrow> handle \<Rightarrow> bool" where
  "owned w f a \<longleftrightarrow>
     (\<exists>cc x t req. callback_heap w a = Some cc \<and> future cc = f \<and> futures w f = Some req \<and>
        ctx_heap w (ctx cc) = Some x \<and> request_ok req (cb cc) t x)"

text \<open>The invariant, with the sets of futures and callback objects whose callback is running:
  both empty between steps.\<close>

definition ctx_inv :: "zt_world \<Rightarrow> bool" where
  "ctx_inv w \<longleftrightarrow>
     (\<forall>c x. ctx_heap w c = Some x \<longrightarrow>
        c < next_handle w \<and> (\<exists>t. tr x = Some t \<and> t \<in> dom (transactions w))) \<and>
     (\<forall>c c' x x'. ctx_heap w c = Some x \<and> ctx_heap w c' = Some x' \<and> tr x = tr x' \<longrightarrow> c = c') \<and>
     (\<forall>t \<in> dom (transactions w). \<exists>c x. ctx_heap w c = Some x \<and> tr x = Some t)"

definition future_inv :: "handle set \<Rightarrow> handle set \<Rightarrow> zt_world \<Rightarrow> bool" where
  "future_inv F A w \<longleftrightarrow>
     (\<forall>f a. registered w f = Some a \<longrightarrow> owned w f a \<and> f \<notin> F \<and> a \<notin> A) \<and>
     (\<forall>f \<in> dom (futures w). f \<in> dom (registered w) \<or> f \<in> F) \<and>
     (\<forall>a cc. callback_heap w a = Some cc \<longrightarrow> registered w (future cc) = Some a \<or> a \<in> A) \<and>
     (\<forall>a a' cc cc'. callback_heap w a = Some cc \<and> callback_heap w a' = Some cc' \<and>
        a \<notin> A \<and> a' \<notin> A \<and> ctx cc = ctx cc' \<longrightarrow> a = a') \<and>
     F \<subseteq> dom (futures w) \<and> A \<subseteq> dom (callback_heap w)"

definition zt_inv :: "handle set \<Rightarrow> handle set \<Rightarrow> zt_world \<Rightarrow> bool" where
  "zt_inv F A w \<longleftrightarrow> handles_fresh w \<and> ctx_inv w \<and> future_inv F A w"

text \<open>No callback object outside \<open>A\<close> belongs to the tick: nothing is pending for it.\<close>

definition idle :: "handle set \<Rightarrow> handle \<Rightarrow> zt_world \<Rightarrow> bool" where
  "idle A c w \<longleftrightarrow> (\<forall>a cc. callback_heap w a = Some cc \<and> a \<notin> A \<longrightarrow> ctx cc \<noteq> c)"

text \<open>Tick \<open>c\<close> waits for future \<open>f\<close>, which will call \<open>p\<close>.\<close>

definition waits :: "zt_world \<Rightarrow> handle \<Rightarrow> handle \<Rightarrow> zt_cb \<Rightarrow> bool" where
  "waits w f c p \<longleftrightarrow>
     (case registered w f of
        None \<Rightarrow> False
      | Some a \<Rightarrow>
          (case callback_heap w a of None \<Rightarrow> False | Some cc \<Rightarrow> ctx cc = c \<and> cb cc = p))"

lemma zt_invD:
  assumes "zt_inv F A w"
  shows "handles_fresh w" "ctx_inv w" "future_inv F A w"
  using assms by (auto simp: zt_inv_def)

lemma ctx_invD:
  assumes "ctx_inv w" and "ctx_heap w c = Some x"
  obtains t where "tr x = Some t" and "t \<in> dom (transactions w)" and "c < next_handle w"
  using assms unfolding ctx_inv_def by blast

lemma ctx_live:
  assumes "zt_inv F A w" and "ctx_heap w c = Some x" and "tr x = Some t"
  shows "t \<in> dom (transactions w)"
  using ctx_invD[OF zt_invD(2)[OF assms(1)] assms(2)] assms(3) by auto

lemma future_invD:
  assumes "future_inv F A w"
  shows "registered w f = Some a \<Longrightarrow> owned w f a \<and> f \<notin> F \<and> a \<notin> A"
    and "f \<in> dom (futures w) \<Longrightarrow> f \<in> dom (registered w) \<or> f \<in> F"
    and "callback_heap w a = Some cc \<Longrightarrow> registered w (future cc) = Some a \<or> a \<in> A"
    and "callback_heap w a = Some cc \<Longrightarrow> callback_heap w a' = Some cc' \<Longrightarrow> a \<notin> A \<Longrightarrow> a' \<notin> A \<Longrightarrow>
      ctx cc = ctx cc' \<Longrightarrow> a = a'"
    and "f \<in> F \<Longrightarrow> f \<in> dom (futures w)" and "a \<in> A \<Longrightarrow> a \<in> dom (callback_heap w)"
  using assms unfolding future_inv_def by (simp, simp, simp, metis, blast, blast)

lemma future_invI:
  assumes "\<And>f a. registered w f = Some a \<Longrightarrow> owned w f a \<and> f \<notin> F \<and> a \<notin> A"
    and "\<And>f. f \<in> dom (futures w) \<Longrightarrow> f \<in> dom (registered w) \<or> f \<in> F"
    and "\<And>a cc. callback_heap w a = Some cc \<Longrightarrow> registered w (future cc) = Some a \<or> a \<in> A"
    and "\<And>a a' cc cc'. callback_heap w a = Some cc \<Longrightarrow> callback_heap w a' = Some cc' \<Longrightarrow> a \<notin> A \<Longrightarrow>
      a' \<notin> A \<Longrightarrow> ctx cc = ctx cc' \<Longrightarrow> a = a'"
    and "F \<subseteq> dom (futures w)" and "A \<subseteq> dom (callback_heap w)"
  shows "future_inv F A w"
  unfolding future_inv_def using assms by blast

lemma waitsD:
  assumes "waits w f c p"
  obtains a cc where "registered w f = Some a" "callback_heap w a = Some cc" "ctx cc = c" "cb cc = p"
  using assms by (auto simp: waits_def split: option.splits)

lemma waits_cong:
  "registered w' = registered w \<Longrightarrow> callback_heap w' = callback_heap w \<Longrightarrow> waits w' = waits w"
  by (intro ext) (simp add: waits_def split: option.split)

lemma registered_owned: "zt_inv F A w \<Longrightarrow> registered w f = Some a \<Longrightarrow> owned w f a"
  by (simp add: zt_inv_def future_inv_def)

subsection \<open>What each action keeps of the invariant\<close>

lemma inv_same_but_log:
  assumes "zt_inv F A w" and "same_but_log w w'"
  shows "zt_inv F A w'"
proof -
  obtain n l where w': "w' = w\<lparr>next_handle := n, error_log := l\<rparr>" and n: "next_handle w \<le> n"
    using assms(2) by (auto simp: same_but_log_def)
  have "handles_fresh w'"
    using zt_invD(1)[OF assms(1)] n unfolding w' handles_fresh_def by (auto intro: order_less_le_trans)
  moreover have "ctx_inv w'"
    using zt_invD(2)[OF assms(1)] n unfolding w' ctx_inv_def
    by simp (meson order_less_le_trans)
  moreover have "future_inv F A w'"
    using zt_invD(3)[OF assms(1)] unfolding w' future_inv_def owned_def by simp
  ultimately show ?thesis by (simp add: zt_inv_def)
qed

lemma idle_same_but_log: "same_but_log w w' \<Longrightarrow> idle A c w' = idle A c w"
  unfolding same_but_log_def idle_def by (elim exE conjE) simp

lemma frame_same_but_log:
  assumes "same_but_log w w'"
  shows "ctx_heap w' = ctx_heap w" "transactions w' = transactions w" "done_log w' = done_log w"
    "store w' = store w" "futures w' = futures w" "registered w' = registered w"
    "callback_heap w' = callback_heap w" "fdb_state w' = fdb_state w"
    "next_handle w \<le> next_handle w'"
  using assms by (auto simp: same_but_log_def)

text \<open>Changing the content of transactions, or the store, keeps the invariant.\<close>

lemma inv_transactions:
  assumes "zt_inv F A w" and "dom ts = dom (transactions w)"
  shows "zt_inv F A (w\<lparr>transactions := ts\<rparr>)" and "zt_inv F A (w\<lparr>store := m\<rparr>)"
  using assms
  by (auto simp: zt_inv_def handles_fresh_def ctx_inv_def future_inv_def owned_def)

lemma inv_become_ready:
  assumes "zt_inv F A w"
  shows "zt_inv F A (become_ready client out f w)"
proof -
  have dom: "dom ((transactions w)(t \<mapsto> x')) = dom (transactions w)"
    if "transactions w t = Some x" for t x x' using that by auto
  then have "zt_inv F A (w\<lparr>transactions := (transactions w)(t \<mapsto> x'), store := m\<rparr>)"
    if "transactions w t = Some x" for t x x' m
    using inv_transactions(2)[OF inv_transactions(1)[OF assms]] that by blast
  then show ?thesis
    using assms by (auto simp: become_ready_def split: option.split prod.split)
qed

lemma ready_frame [simp]:
  "ctx_heap (become_ready client out f w) = ctx_heap w"
  "callback_heap (become_ready client out f w) = callback_heap w"
  "registered (become_ready client out f w) = registered w"
  "futures (become_ready client out f w) = futures w"
  "done_log (become_ready client out f w) = done_log w"
  "next_handle (become_ready client out f w) = next_handle w"
  "fdb_state (become_ready client out f w) = fdb_state w"
  by (auto simp: become_ready_def split: option.split prod.split)

text \<open>Submitting a request for an idle tick.\<close>

lemma submitted_frame [simp]:
  "futures (submitted req p c w) = (futures w)(next_handle w \<mapsto> req)"
  "callback_heap (submitted req p c w) =
     (callback_heap w)(Suc (next_handle w) \<mapsto> \<lparr>cb = p, ctx = c, future = next_handle w\<rparr>)"
  "registered (submitted req p c w) = (registered w)(next_handle w \<mapsto> Suc (next_handle w))"
  "next_handle (submitted req p c w) = Suc (Suc (next_handle w))"
  "transactions (submitted req p c w) = transactions w"
  "store (submitted req p c w) = store w"
  "fdb_state (submitted req p c w) = fdb_state w"
  by (simp_all add: submitted_def Let_def)

lemma submitted_frame_zt [simp]:
  "ctx_heap (submitted req p c w) = ctx_heap w"
  "done_log (submitted req p c w) = done_log w"
  by (simp_all add: submitted_def Let_def)

lemma owned_submitted:
  assumes "handles_fresh w" and "owned w f a"
  shows "owned (submitted req p c w) f a"
  using assms handles_fresh_None[OF assms(1), of "next_handle w"]
    handles_fresh_None[OF assms(1), of "Suc (next_handle w)"]
  unfolding owned_def by (elim exE conjE) (intro exI conjI; auto)

lemma future_inv_submitted:
  assumes fresh: "handles_fresh w" and inv: "future_inv F A w"
    and x: "ctx_heap w c = Some x" and idle: "idle A c w" and req: "request_ok req p t x"
  shows "future_inv F A (submitted req p c w)"
proof -
  let ?f = "next_handle w" and ?a = "Suc (next_handle w)" and ?w = "submitted req p c w"
  note new = handles_fresh_None[OF fresh, of ?f, simplified]
    handles_fresh_None[OF fresh, of ?a, simplified]
  have notFA: "?f \<notin> F" "?a \<notin> A" using inv new by (auto simp: future_inv_def)
  have "owned ?w ?f ?a" using x req by (auto simp: owned_def)
  then have 1: "\<forall>f a. registered ?w f = Some a \<longrightarrow> owned ?w f a \<and> f \<notin> F \<and> a \<notin> A"
    using inv notFA owned_submitted[OF fresh] by (auto simp: future_inv_def)
  have 2: "\<forall>f \<in> dom (futures ?w). f \<in> dom (registered ?w) \<or> f \<in> F"
    using inv by (auto simp: future_inv_def)
  have 3: "\<forall>a cc. callback_heap ?w a = Some cc \<longrightarrow> registered ?w (future cc) = Some a \<or> a \<in> A"
    using inv new by (auto simp: future_inv_def) (metis option.distinct(1))
  have 4: "\<forall>a a' cc cc'. callback_heap ?w a = Some cc \<and> callback_heap ?w a' = Some cc' \<and>
        a \<notin> A \<and> a' \<notin> A \<and> ctx cc = ctx cc' \<longrightarrow> a = a'"
    using inv idle unfolding future_inv_def idle_def by auto
  have 5: "F \<subseteq> dom (futures ?w) \<and> A \<subseteq> dom (callback_heap ?w)"
    using inv by (auto simp: future_inv_def)
  show ?thesis unfolding future_inv_def using 1 2 3 4 5 by blast
qed

lemma inv_submitted:
  assumes inv: "zt_inv F A w" and x: "ctx_heap w c = Some x" and idle: "idle A c w"
    and req: "request_ok req p t x"
  shows "zt_inv F A (submitted req p c w)"
proof -
  have "handles_fresh (submitted req p c w)"
    using zt_invD(1)[OF inv] by (auto simp: handles_fresh_def less_Suc_eq)
  moreover have "ctx_inv (submitted req p c w)"
    using zt_invD(2)[OF inv] by (simp add: ctx_inv_def) (metis less_SucI)
  ultimately show ?thesis
    using future_inv_submitted[OF zt_invD(1,3)[OF inv] x idle req] by (simp add: zt_inv_def)
qed

text \<open>Finishing an idle tick: the transaction and the context are released, once.\<close>

definition finished :: "handle \<Rightarrow> zonetick_ctx_t \<Rightarrow> bool \<Rightarrow> zt_world \<Rightarrow> zt_world" where
  "finished c x ok w = w\<lparr>
      transactions := (transactions w)(the (tr x) := None),
      done_log := done_log w @ (case done_cb x of None \<Rightarrow> [] | Some d \<Rightarrow> [(d, user_ctx x, ok)]),
      ctx_heap := (ctx_heap w)(c := None)\<rparr>"

lemma zt_finish_eq:
  assumes "zt_inv F A w" and "ctx_heap w c = Some x"
  shows "zt_finish c ok w = Some (finished c x ok w)"
proof -
  obtain t where t: "tr x = Some t" "t \<in> dom (transactions w)"
    using assms zt_invD(2) by (blast elim: ctx_invD)
  then show ?thesis
    using assms(2)
    by (simp add: zt_finish_def finished_def fdb_transaction_destroy_def split: option.split)
qed

lemma ctx_inv_finish:
  assumes ci: "ctx_inv w" and x: "ctx_heap w c = Some x" and t: "tr x = Some t"
  shows "ctx_inv (w\<lparr>transactions := (transactions w)(t := None), done_log := l,
           ctx_heap := (ctx_heap w)(c := None)\<rparr>)" (is "ctx_inv ?w")
proof -
  have other: "tr x' \<noteq> Some t" if "ctx_heap w c' = Some x'" "c' \<noteq> c" for c' x'
    using ci x t that unfolding ctx_inv_def by metis
  have "c' < next_handle w \<and> (\<exists>t'. tr x' = Some t' \<and> t' \<in> dom (transactions w) - {t})"
    if "ctx_heap w c' = Some x'" "c' \<noteq> c" for c' x'
    using ci other[OF that] that(1) unfolding ctx_inv_def by fastforce
  then have 1: "\<forall>c x. ctx_heap ?w c = Some x \<longrightarrow>
      c < next_handle ?w \<and> (\<exists>t. tr x = Some t \<and> t \<in> dom (transactions ?w))"
    by (auto split: if_splits)
  have 2: "\<forall>c c' x x'. ctx_heap ?w c = Some x \<and> ctx_heap ?w c' = Some x' \<and> tr x = tr x' \<longrightarrow> c = c'"
    using ci unfolding ctx_inv_def by (auto split: if_splits)
  have 3: "\<exists>c x. ctx_heap ?w c = Some x \<and> tr x = Some t'" if "t' \<in> dom (transactions ?w)" for t'
  proof -
    have t': "t' \<in> dom (transactions w)" "t' \<noteq> t" using that by (auto split: if_splits)
    then obtain c' x' where c': "ctx_heap w c' = Some x'" "tr x' = Some t'"
      using ci unfolding ctx_inv_def by blast
    then have "c' \<noteq> c" using t' x t by auto
    then show ?thesis using c' by (intro exI[of _ c'] exI[of _ x']) simp
  qed
  show ?thesis unfolding ctx_inv_def using 1 2 3 by blast
qed

lemma inv_finish:
  assumes inv: "zt_inv F A w" and x: "ctx_heap w c = Some x" and t: "tr x = Some t"
    and idle: "idle A c w"
  shows "zt_inv F A (w\<lparr>transactions := (transactions w)(t := None), done_log := l,
           ctx_heap := (ctx_heap w)(c := None)\<rparr>)" (is "zt_inv F A ?w")
proof -
  have fi: "future_inv F A w" using zt_invD[OF inv] by simp
  have "owned ?w f a" if r: "registered w f = Some a" for f a
  proof -
    have "owned w f a" and "a \<notin> A" using fi r by (auto simp: future_inv_def)
    then show ?thesis using idle unfolding owned_def idle_def by fastforce
  qed
  then have "future_inv F A ?w" using fi by (simp add: future_inv_def)
  moreover have "handles_fresh ?w"
    using zt_invD(1)[OF inv] by (auto simp: handles_fresh_def)
  ultimately show ?thesis
    using ctx_inv_finish[OF zt_invD(2)[OF inv] x t] by (simp add: zt_inv_def)
qed

text \<open>Before and after a callback: the wrapper takes the registered future out of the
  registry, and releases the future and the callback object at the end.\<close>

lemma inv_unregister:
  assumes inv: "zt_inv {} {} w" and r: "registered w f = Some a" and cc: "callback_heap w a = Some cc"
  shows "zt_inv {f} {a} (w\<lparr>registered := (registered w)(f := None)\<rparr>)" (is "zt_inv _ _ ?w")
    and "idle {a} (ctx cc) (w\<lparr>registered := (registered w)(f := None)\<rparr>)"
proof -
  have fi: "future_inv {} {} w" using zt_invD[OF inv] by simp
  note own = future_invD(1)[OF fi, THEN conjunct1]
  have points: "future cc' = f'" if "registered w f' = Some a'" "callback_heap w a' = Some cc'"
    for f' a' cc' using own[OF that(1)] that(2) by (auto simp: owned_def)
  have same: "owned ?w f' a' = owned w f' a'" for f' a' by (simp add: owned_def)
  have "future_inv {f} {a} ?w"
  proof (rule future_invI)
    fix f' a' assume "registered ?w f' = Some a'"
    then have "registered w f' = Some a'" "f' \<noteq> f" by (auto split: if_splits)
    then show "owned ?w f' a' \<and> f' \<notin> {f} \<and> a' \<notin> {a}"
      using own same points[OF r cc] points[OF _ cc] by auto
  next
    fix a' cc' assume "callback_heap ?w a' = Some cc'"
    then have "callback_heap w a' = Some cc'" "registered w (future cc') = Some a'"
      using future_invD(3)[OF fi] by auto
    then show "registered ?w (future cc') = Some a' \<or> a' \<in> {a}" using r by auto
  next
    fix a1 a2 cc1 cc2
    assume "callback_heap ?w a1 = Some cc1" "callback_heap ?w a2 = Some cc2" "ctx cc1 = ctx cc2"
    then show "a1 = a2" using future_invD(4)[OF fi] by auto
  next
    show "f' \<in> dom (futures ?w) \<Longrightarrow> f' \<in> dom (registered ?w) \<or> f' \<in> {f}" for f'
      using future_invD(2)[OF fi, of f'] by auto
    show "{f} \<subseteq> dom (futures ?w)" using own[OF r] by (auto simp: owned_def)
    show "{a} \<subseteq> dom (callback_heap ?w)" using cc by auto
  qed
  moreover have "handles_fresh ?w" "ctx_inv ?w"
    using zt_invD[OF inv] by (auto simp: handles_fresh_def ctx_inv_def)
  ultimately show "zt_inv {f} {a} ?w" by (simp add: zt_inv_def)
  show "idle {a} (ctx cc) ?w"
    using future_invD(4)[OF fi cc] by (auto simp: idle_def)
qed

lemma inv_release:
  assumes inv: "zt_inv {f} {a} w"
  shows "f \<in> dom (futures w)" and "a \<in> dom (callback_heap w)"
    and "zt_inv {} {} (w\<lparr>futures := (futures w)(f := None),
           callback_heap := (callback_heap w)(a := None)\<rparr>)" (is "zt_inv {} {} ?w")
proof -
  have fi: "future_inv {f} {a} w" using zt_invD[OF inv] by simp
  then show "f \<in> dom (futures w)" "a \<in> dom (callback_heap w)"
    using future_invD(5,6)[OF fi] by blast+
  have "future_inv {} {} ?w"
  proof (rule future_invI)
    fix f' a' assume "registered ?w f' = Some a'"
    then have "owned w f' a'" "f' \<noteq> f" "a' \<noteq> a" using future_invD(1)[OF fi, of f' a'] by auto
    then show "owned ?w f' a' \<and> f' \<notin> {} \<and> a' \<notin> {}" by (auto simp: owned_def)
  next
    fix a' cc' assume "callback_heap ?w a' = Some cc'"
    then show "registered ?w (future cc') = Some a' \<or> a' \<in> {}"
      using future_invD(3)[OF fi, of a' cc'] by (auto split: if_splits)
  next
    fix a1 a2 cc1 cc2
    assume "callback_heap ?w a1 = Some cc1" "callback_heap ?w a2 = Some cc2" "ctx cc1 = ctx cc2"
    then show "a1 = a2" using future_invD(4)[OF fi, of a1 cc1 a2 cc2] by (auto split: if_splits)
  next
    show "f' \<in> dom (futures ?w) \<Longrightarrow> f' \<in> dom (registered ?w) \<or> f' \<in> {}" for f'
      using future_invD(2)[OF fi, of f'] by (auto split: if_splits)
  qed simp_all
  moreover have "handles_fresh ?w" "ctx_inv ?w"
    using zt_invD[OF inv] by (auto simp: handles_fresh_def ctx_inv_def)
  ultimately show "zt_inv {} {} ?w" by (simp add: zt_inv_def)
qed


subsection \<open>The protocol of one tick\<close>

text \<open>What a handler does to its tick: it leaves it waiting for one request, finishes it, or,
  when a submission whose return value is ignored fails, orphans it: live, with nothing
  pending.\<close>

datatype tick_effect = Waiting fdb_request zt_cb | Finished bool | Orphaned

definition submit_effect :: "fdb_env \<Rightarrow> fdb_request \<Rightarrow> zt_cb \<Rightarrow> tick_effect" where
  "submit_effect env req p = (if submit_ok env then Waiting req p else Orphaned)"

fun zt_protocol :: "fdb_env \<Rightarrow> fdb_outcome \<Rightarrow> zt_cb \<Rightarrow> handle \<Rightarrow> u32 \<Rightarrow> tick_effect" where
  "zt_protocol env out ZT_ON_RANGE_READ t z =
     (if out_error out \<noteq> 0
      then submit_effect env (On_Error_Request t (out_error out)) ZT_ON_ERROR_RETRY
      else if out_kv_error out \<noteq> 0 then Finished False
      else submit_effect env (Commit_Request t) ZT_ON_COMMIT)"
| "zt_protocol env out ZT_ON_COMMIT t z =
     (if out_error out \<noteq> 0
      then submit_effect env (On_Error_Request t (out_error out)) ZT_ON_ERROR_RETRY
      else Finished True)"
| "zt_protocol env out ZT_ON_ERROR_RETRY t z =
     (if submit_ok env then Waiting (range_request t z) ZT_ON_RANGE_READ else Finished False)"

fun effect :: "tick_effect \<Rightarrow> handle \<Rightarrow> zonetick_ctx_t \<Rightarrow> zt_world \<Rightarrow> zt_world \<Rightarrow> bool" where
  "effect (Waiting req p) c x w w' \<longleftrightarrow> w' = submitted req p c w"
| "effect (Finished ok) c x w w' \<longleftrightarrow> (\<exists>w1. same_but_log w w1 \<and> w' = finished c x ok w1)"
| "effect Orphaned c x w w' \<longleftrightarrow> same_but_log w w'"

definition effect_ok :: "tick_effect \<Rightarrow> handle \<Rightarrow> zonetick_ctx_t \<Rightarrow> bool" where
  "effect_ok e t x \<longleftrightarrow> (case e of Waiting req p \<Rightarrow> request_ok req p t x | _ \<Rightarrow> tr x = Some t)"

text \<open>The writes of the loop over the range.\<close>

definition tick_kvs :: "u32 \<Rightarrow> key_value list \<Rightarrow> key_value list" where
  "tick_kvs n kvs = map (\<lambda>(k, v). (k, packet_wire (tick_packet n (stored_packet v)))) kvs"

definition kvs_defined :: "u32 \<Rightarrow> key_value list \<Rightarrow> bool" where
  "kvs_defined n kvs \<longleftrightarrow> (\<forall>(k, v) \<in> set kvs. tick_defined n (stored_packet v))"

definition add_writes :: "handle \<Rightarrow> key_value list \<Rightarrow> zt_world \<Rightarrow> zt_world" where
  "add_writes t ws w = w\<lparr>transactions := (transactions w)
     (t := map_option (\<lambda>y. y\<lparr>writes := writes y @ ws\<rparr>) (transactions w t))\<rparr>"

lemma tick_kvs_simps [simp]:
  "tick_kvs n [] = []"
  "tick_kvs n ((k, v) # kvs) = (k, packet_wire (tick_packet n (stored_packet v))) # tick_kvs n kvs"
  by (simp_all add: tick_kvs_def)

lemma kvs_defined_simps [simp]:
  "kvs_defined n []"
  "kvs_defined n ((k, v) # kvs) \<longleftrightarrow> tick_defined n (stored_packet v) \<and> kvs_defined n kvs"
  by (simp_all add: kvs_defined_def)

lemma tick_loop_eq:
  assumes "t \<in> dom (transactions w)"
  shows "zt_tick_loop n t kvs w =
    (if kvs_defined n kvs then Some (add_writes t (tick_kvs n kvs) w) else None)"
  using assms
proof (induction kvs arbitrary: w)
  case Nil
  then show ?case
    by (auto simp: add_writes_def fun_upd_idem)
next
  case (Cons kv kvs)
  obtain k v where kv: "kv = (k, v)" by fastforce
  obtain y where y: "transactions w t = Some y" using Cons.prems by auto
  show ?case
  proof (cases "tick_defined n (stored_packet v)")
    case True
    let ?v = "packet_wire (tick_packet n (stored_packet v))"
    let ?w = "w\<lparr>transactions := (transactions w)(t \<mapsto> y\<lparr>writes := writes y @ [(k, ?v)]\<rparr>)\<rparr>"
    have "add_writes t ws ?w = add_writes t ((k, ?v) # ws) w" for ws
      using y by (simp add: add_writes_def)
    moreover have live: "t \<in> dom (transactions ?w)" by simp
    ultimately show ?thesis
      using True Cons.IH[OF live] y by (simp add: kv tick_value_eq fdb_sync_set_def)
  next
    case False
    then show ?thesis by (simp add: kv tick_value_eq)
  qed
qed

lemma add_writes_frame [simp]:
  "ctx_heap (add_writes t ws w) = ctx_heap w" "callback_heap (add_writes t ws w) = callback_heap w"
  "registered (add_writes t ws w) = registered w" "futures (add_writes t ws w) = futures w"
  "done_log (add_writes t ws w) = done_log w" "store (add_writes t ws w) = store w"
  "dom (transactions (add_writes t ws w)) = dom (transactions w)"
  "next_handle (add_writes t ws w) = next_handle w"
  by (auto simp: add_writes_def)

lemma inv_add_writes: "zt_inv F A w \<Longrightarrow> zt_inv F A (add_writes t ws w)"
  unfolding add_writes_def by (rule inv_transactions(1)) auto

lemma idle_add_writes [simp]: "idle A c (add_writes t ws w) = idle A c w"
  by (simp add: idle_def)

text \<open>The world in which the handler takes its effect: for a successful range read, the writes
  are already in the transaction.\<close>

definition loaded :: "fdb_outcome \<Rightarrow> zt_cb \<Rightarrow> handle \<Rightarrow> u32 \<Rightarrow> zt_world \<Rightarrow> zt_world" where
  "loaded out p t n w =
     (if p = ZT_ON_RANGE_READ \<and> out_error out = 0 \<and> out_kv_error out = 0
      then add_writes t (tick_kvs n (out_kvs out)) w else w)"

definition outcome_defined :: "fdb_outcome \<Rightarrow> zt_cb \<Rightarrow> u32 \<Rightarrow> bool" where
  "outcome_defined out p n \<longleftrightarrow>
     (p = ZT_ON_RANGE_READ \<and> out_error out = 0 \<and> out_kv_error out = 0 \<longrightarrow>
        kvs_defined n (out_kvs out))"

lemma effect_finish:
  assumes "zt_inv F A w" and "ctx_heap w c = Some x" and "same_but_log w w1"
  shows "zt_finish c ok w1 = Some (finished c x ok w1)"
proof -
  have "zt_inv F A w1" "ctx_heap w1 c = Some x"
    using assms(2) inv_same_but_log[OF assms(1,3)] frame_same_but_log(1)[OF assms(3)] by simp_all
  then show ?thesis by (rule zt_finish_eq)
qed

lemma start_range_read_effect:
  assumes inv: "zt_inv F A w" and x: "ctx_heap w c = Some x" and t: "tr x = Some t"
  shows "\<exists>w'. zt_start_range_read env c w = Some w' \<and>
    effect (zt_protocol env out ZT_ON_ERROR_RETRY t (z_id x)) c x w w'"
proof -
  have live: "t \<in> dom (transactions w)" and fresh: "handles_fresh w"
    using ctx_live[OF inv x t] zt_invD(1)[OF inv] by blast+
  obtain r w1 where r: "fdb_async_get_range env t (range_begin (z_id x)) (range_end (z_id x))
      ZT_ON_RANGE_READ c w = Some (r, w1)"
    by (rule async_get_range.no_undefined_behaviour[OF live fresh])
  note rv = async_get_range.return_value[OF live fresh r]
  show ?thesis
  proof (cases "r = 0")
    case True
    then show ?thesis using rv x t r
      by (auto simp: zt_start_range_read_def range_request_def)
  next
    case False
    then have "zt_finish c False w1 = Some (finished c x False w1)"
      using effect_finish[OF inv x] rv by blast
    then show ?thesis using False rv x t r by (auto simp: zt_start_range_read_def)
  qed
qed


lemma handle_error_effect:
  assumes "t \<in> dom (transactions w)" and "handles_fresh w"
  shows "\<exists>r w'. fdb_handle_error env t e p c w = Some (r, w') \<and>
    effect (submit_effect env (On_Error_Request t e) p) c x w w'"
  by (rule handle_error.no_undefined_behaviour[OF assms, of env e p c])
    (auto simp: submit_effect_def)

lemma commit_effect:
  assumes "t \<in> dom (transactions w)" and "handles_fresh w"
  shows "\<exists>r w'. fdb_async_commit env t p c w = Some (r, w') \<and>
    effect (submit_effect env (Commit_Request t) p) c x w w'"
  by (rule async_commit.no_undefined_behaviour[OF assms, of env p c])
    (auto simp: submit_effect_def)

text \<open>Every handler behaves as the protocol says.\<close>

lemma zt_code_effect:
  assumes inv: "zt_inv F A w" and x: "ctx_heap w c = Some x" and t: "tr x = Some t"
    and defd: "outcome_defined out p (tick_count x)"
  shows "\<exists>w'. zt_code env out p f c w = Some w' \<and>
    effect (zt_protocol env out p t (z_id x)) c x (loaded out p t (tick_count x) w) w'"
proof -
  have live: "t \<in> dom (transactions w)" and fresh: "handles_fresh w"
    using ctx_live[OF inv x t] zt_invD(1)[OF inv] by blast+
  have fin: "zt_finish c ok w = Some (finished c x ok w)" for ok
    using effect_finish[OF inv x same_but_log_refl] .
  obtain r1 w1 where
    err: "fdb_handle_error env t (out_error out) ZT_ON_ERROR_RETRY c w = Some (r1, w1)"
      "effect (submit_effect env (On_Error_Request t (out_error out)) ZT_ON_ERROR_RETRY) c x w w1"
    using handle_error_effect[OF live fresh] by blast
  show ?thesis
  proof (cases p)
    case ZT_ON_RANGE_READ
    let ?w = "add_writes t (tick_kvs (tick_count x) (out_kvs out)) w"
    have "t \<in> dom (transactions ?w)" "handles_fresh ?w"
      using live zt_invD(1)[OF inv_add_writes[OF inv]] by simp_all
    note com = commit_effect[OF this, of env ZT_ON_COMMIT c x]
    show ?thesis
      using ZT_ON_RANGE_READ x t fin err com defd same_but_log_refl
      by (auto simp: zt_code_def zt_on_range_read_def loaded_def outcome_defined_def
          tick_loop_eq[OF live])
  next
    case ZT_ON_COMMIT
    then show ?thesis
      using x t fin err same_but_log_refl
      by (auto simp: zt_code_def zt_on_commit_def loaded_def)
  next
    case ZT_ON_ERROR_RETRY
    then show ?thesis
      using start_range_read_effect[OF inv x t]
      by (simp add: zt_code_def zt_on_error_retry_def loaded_def)
  qed
qed

lemma inv_effect:
  assumes inv: "zt_inv F A w" and x: "ctx_heap w c = Some x" and idle: "idle A c w"
    and eff: "effect e c x w w'" and ok: "effect_ok e t x"
  shows "zt_inv F A w'"
proof (cases e)
  case (Waiting req p)
  then show ?thesis using inv_submitted[OF inv x idle] eff ok by (auto simp: effect_ok_def)
next
  case (Finished b)
  then obtain w1 where w1: "same_but_log w w1" "w' = finished c x b w1" using eff by auto
  then have "zt_inv F A w1" "ctx_heap w1 c = Some x" "idle A c w1"
    using x idle inv_same_but_log[OF inv w1(1)] idle_same_but_log[OF w1(1)]
      frame_same_but_log(1)[OF w1(1)] by simp_all
  then show ?thesis
    using inv_finish Finished ok w1(2) by (auto simp: finished_def effect_ok_def)
next
  case Orphaned
  then show ?thesis using eff inv inv_same_but_log by simp
qed

lemma protocol_ok: "tr x = Some t \<Longrightarrow> effect_ok (zt_protocol env out p t (z_id x)) t x"
  by (cases p) (auto simp: effect_ok_def submit_effect_def request_ok_def)

lemma loaded_frame [simp]:
  "ctx_heap (loaded out p t n w) = ctx_heap w" "callback_heap (loaded out p t n w) = callback_heap w"
  "registered (loaded out p t n w) = registered w" "futures (loaded out p t n w) = futures w"
  "done_log (loaded out p t n w) = done_log w" "store (loaded out p t n w) = store w"
  "next_handle (loaded out p t n w) = next_handle w"
  "idle A c (loaded out p t n w) = idle A c w"
  by (simp_all add: loaded_def)

lemma inv_loaded: "zt_inv F A w \<Longrightarrow> zt_inv F A (loaded out p t n w)"
  by (simp add: loaded_def inv_add_writes)

text \<open>One delivery, end to end: the effect of the protocol on the readied world, then the
  release of the future and of the callback object.\<close>

lemma deliver_effect:
  assumes inv: "zt_inv {} {} w" and r: "registered w f = Some a"
    and cc: "callback_heap w a = Some cc" and x: "ctx_heap w (ctx cc) = Some x"
    and t: "tr x = Some t" and defd: "outcome_defined out (cb cc) (tick_count x)"
  shows "\<exists>w1 w2. w1 = loaded out (cb cc) t (tick_count x)
        ((become_ready client out f w)\<lparr>registered := (registered w)(f := None)\<rparr>) \<and>
      effect (zt_protocol env out (cb cc) t (z_id x)) (ctx cc) x w1 w2 \<and>
      zt_deliver client env out f w = Some (w2\<lparr>futures := (futures w2)(f := None),
        callback_heap := (callback_heap w2)(a := None)\<rparr>) \<and>
      zt_inv {} {} (w2\<lparr>futures := (futures w2)(f := None),
        callback_heap := (callback_heap w2)(a := None)\<rparr>)"
proof -
  let ?r = "(become_ready client out f w)\<lparr>registered := (registered w)(f := None)\<rparr>"
  let ?l = "loaded out (cb cc) t (tick_count x) ?r"
  have ready: "zt_inv {} {} (become_ready client out f w)" using inv by (rule inv_become_ready)
  have un: "zt_inv {f} {a} ?r" "idle {a} (ctx cc) ?r"
    using inv_unregister[OF ready, of f a cc] r cc by simp_all
  from zt_code_effect[OF un(1), of "ctx cc" x t out "cb cc" env f] x t defd
  obtain w2 where w2: "zt_code env out (cb cc) f (ctx cc) ?r = Some w2"
    and eff: "effect (zt_protocol env out (cb cc) t (z_id x)) (ctx cc) x ?l w2" by auto
  have inv2: "zt_inv {f} {a} w2"
    using inv_effect[OF inv_loaded[OF un(1)] _ _ eff protocol_ok[OF t]] un(2) x by simp
  have "zt_deliver client env out f w = Some (w2\<lparr>futures := (futures w2)(f := None),
        callback_heap := (callback_heap w2)(a := None)\<rparr>)"
    using r cc w2 inv_release(1,2)[OF inv2]
    by (simp add: zt_deliver_def future_callback_def fdb_future_destroy_def free_callback_def)
  then show ?thesis using eff inv_release(3)[OF inv2] by blast
qed


definition released :: "handle \<Rightarrow> handle \<Rightarrow> zt_world \<Rightarrow> zt_world" where
  "released f a w = w\<lparr>futures := (futures w)(f := None), callback_heap := (callback_heap w)(a := None)\<rparr>"

lemma released_frame [simp]:
  "ctx_heap (released f a w) = ctx_heap w" "transactions (released f a w) = transactions w"
  "done_log (released f a w) = done_log w" "store (released f a w) = store w"
  "registered (released f a w) = registered w" "fdb_state (released f a w) = fdb_state w"
  "callback_heap (released f a w) = (callback_heap w)(a := None)"
  "futures (released f a w) = (futures w)(f := None)"
  by (simp_all add: released_def)

lemma deliver_undefined:
  assumes inv: "zt_inv {} {} w" and r: "registered w f = Some a"
    and cc: "callback_heap w a = Some cc" and x: "ctx_heap w (ctx cc) = Some x"
    and t: "tr x = Some t" and "\<not> outcome_defined out (cb cc) (tick_count x)"
  shows "zt_deliver client env out f w = None"
proof -
  let ?w = "(become_ready client out f w)\<lparr>registered := (registered w)(f := None)\<rparr>"
  have "t \<in> dom (transactions (become_ready client out f w))"
    using ctx_live[OF inv_become_ready[OF inv, of client out f], where c = "ctx cc" and x = x] x t by simp
  then have live: "t \<in> dom (transactions ?w)" by simp
  have "cb cc = ZT_ON_RANGE_READ" "out_error out = 0" "out_kv_error out = 0"
    "\<not> kvs_defined (tick_count x) (out_kvs out)"
    using assms(6) by (auto simp: outcome_defined_def)
  then show ?thesis
    using r cc x t
    by (simp add: zt_deliver_def future_callback_def zt_code_def zt_on_range_read_def
        tick_loop_eq[OF live])
qed

text \<open>A registered future belongs to a live tick, and its delivery is the protocol's step,
  unless the position update overflows.\<close>

lemma registered_tick:
  assumes "zt_inv {} {} w" and "registered w f = Some a"
  obtains cc x t where "callback_heap w a = Some cc" "ctx_heap w (ctx cc) = Some x"
    "tr x = Some t" "future cc = f" "\<exists>req. futures w f = Some req \<and> request_ok req (cb cc) t x"
  using registered_owned[OF assms] unfolding owned_def request_ok_def by blast

lemma deliver_step:
  assumes inv: "zt_inv {} {} w" and d: "zt_deliver client env out f w = Some w'"
  obtains a cc x t w1 w2 where "registered w f = Some a" "callback_heap w a = Some cc"
    "ctx_heap w (ctx cc) = Some x" "tr x = Some t"
    "\<exists>req. futures w f = Some req \<and> request_ok req (cb cc) t x"
    "outcome_defined out (cb cc) (tick_count x)"
    "w1 = loaded out (cb cc) t (tick_count x)
        ((become_ready client out f w)\<lparr>registered := (registered w)(f := None)\<rparr>)"
    "effect (zt_protocol env out (cb cc) t (z_id x)) (ctx cc) x w1 w2"
    "w' = released f a w2" "zt_inv {} {} w'"
proof -
  obtain a where r: "registered w f = Some a"
    using d by (auto simp: zt_deliver_def split: bind_splits)
  obtain cc x t where o: "callback_heap w a = Some cc" "ctx_heap w (ctx cc) = Some x"
    "tr x = Some t" "\<exists>req. futures w f = Some req \<and> request_ok req (cb cc) t x"
    using registered_tick[OF inv r] by metis
  have defd: "outcome_defined out (cb cc) (tick_count x)"
    using deliver_undefined[OF inv r o(1-3)] d by fastforce
  from deliver_effect[OF inv r o(1-3) defd, of client env, folded released_def] d r o defd
  show ?thesis by (auto intro!: that)
qed

end
