(* ===== verification/Zonetick_Runs.thy ===== *)
theory Zonetick_Runs
  imports Zonetick_Protocol
begin

text \<open>
  Runs of the zone tick: \<open>zt_reach\<close> are the worlds reachable by any interleaving of
  \<open>zf_zonetick_run\<close> calls, deliveries of ready futures and writes of other processes
  to the database. The theorems about memory safety, leaks and the completion contract of
  the tick are stated here.
\<close>

subsection \<open>Starting a tick\<close>

text \<open>The world right after the context and its transaction exist.\<close>

definition created :: "u32 \<Rightarrow> u32 \<Rightarrow> handle option \<Rightarrow> handle \<Rightarrow> zt_world \<Rightarrow> zt_world" where
  "created z n d u w =
     (let c = next_handle w; t = Suc c in
      w\<lparr>transactions := (transactions w)(t \<mapsto> empty_transaction),
        next_handle := Suc t,
        fdb_state := (fdb_state w)\<lparr>active_transactions := active_transactions (fdb_state w) + 1\<rparr>,
        ctx_heap := (ctx_heap w)(c \<mapsto>
          \<lparr>tr = Some t, z_id = z, tick_count = n, done_cb = d, user_ctx = u\<rparr>)\<rparr>)"

lemma ctx_fresh:
  assumes "zt_inv F A w" and "next_handle w \<le> c"
  shows "ctx_heap w c = None"
proof (rule ccontr)
  assume "ctx_heap w c \<noteq> None"
  then obtain x where "ctx_heap w c = Some x" by auto
  then show False using ctx_invD[OF zt_invD(2)[OF assms(1)]] assms(2) by (metis leD)
qed

lemma created_frame [simp]:
  "futures (created z n d u w) = futures w" "callback_heap (created z n d u w) = callback_heap w"
  "registered (created z n d u w) = registered w" "done_log (created z n d u w) = done_log w"
  "store (created z n d u w) = store w"
  "db (fdb_state (created z n d u w)) = db (fdb_state w)"
  "ctx_heap (created z n d u w) = (ctx_heap w)(next_handle w \<mapsto>
     \<lparr>tr = Some (Suc (next_handle w)), z_id = z, tick_count = n, done_cb = d, user_ctx = u\<rparr>)"
  "transactions (created z n d u w) =
     (transactions w)(Suc (next_handle w) \<mapsto> empty_transaction)"
  "next_handle (created z n d u w) = Suc (Suc (next_handle w))"
  by (simp_all add: created_def Let_def)

lemma ctx_inv_created:
  assumes "zt_inv {} {} w"
  shows "ctx_inv (created z n d u w)"
proof -
  let ?w = "created z n d u w"
  have ci: "ctx_inv w" and fresh: "handles_fresh w" using zt_invD[OF assms] by simp_all
  have no: "ctx_heap w (next_handle w) = None" "transactions w (Suc (next_handle w)) = None"
    using ctx_fresh[OF assms] handles_fresh_None[OF fresh, of "Suc (next_handle w)"] by simp_all
  have old: "c < next_handle w \<and> (\<exists>t. tr x = Some t \<and> t \<in> dom (transactions w))"
    if "ctx_heap w c = Some x" for c x using ci that unfolding ctx_inv_def by blast
  have 1: "\<forall>c x. ctx_heap ?w c = Some x \<longrightarrow>
      c < next_handle ?w \<and> (\<exists>t. tr x = Some t \<and> t \<in> dom (transactions ?w))"
    using old by (fastforce split: if_splits)
  have new: "tr x \<noteq> Some (Suc (next_handle w))" if "ctx_heap w c = Some x" for c x
    using old[OF that] no(2) by auto
  have 2: "\<forall>c c' x x'. ctx_heap ?w c = Some x \<and> ctx_heap ?w c' = Some x' \<and> tr x = tr x' \<longrightarrow> c = c'"
    using ci new unfolding ctx_inv_def by (fastforce split: if_splits)
  have 3: "\<forall>t \<in> dom (transactions ?w). \<exists>c x. ctx_heap ?w c = Some x \<and> tr x = Some t"
  proof
    fix t assume "t \<in> dom (transactions ?w)"
    then consider "t = Suc (next_handle w)" | "t \<in> dom (transactions w)" by (auto split: if_splits)
    then show "\<exists>c x. ctx_heap ?w c = Some x \<and> tr x = Some t"
    proof cases
      case 1
      then show ?thesis by (intro exI[of _ "next_handle w"]) simp
    next
      case 2
      then obtain c x where "ctx_heap w c = Some x" "tr x = Some t"
        using ci unfolding ctx_inv_def by blast
      then show ?thesis using no(1) by (intro exI[of _ c] exI[of _ x]) auto
    qed
  qed
  show ?thesis unfolding ctx_inv_def using 1 2 3 by blast
qed

lemma inv_created:
  assumes inv: "zt_inv {} {} w"
  shows "zt_inv {} {} (created z n d u w)" and "idle {} (next_handle w) (created z n d u w)"
proof -
  let ?w = "created z n d u w"
  have fi: "future_inv {} {} w" and fresh: "handles_fresh w" using zt_invD[OF inv] by simp_all
  have no: "ctx_heap w (next_handle w) = None" using ctx_fresh[OF inv] by simp
  have "owned ?w f a" if "registered w f = Some a" for f a
    using future_invD(1)[OF fi that] no unfolding owned_def by fastforce
  then have "future_inv {} {} ?w"
    using future_invD[OF fi] by (intro future_invI) auto
  moreover have "handles_fresh ?w"
    using fresh by (auto simp: handles_fresh_def less_Suc_eq)
  ultimately show "zt_inv {} {} ?w" using ctx_inv_created[OF inv] by (simp add: zt_inv_def)
  have "ctx cc \<noteq> next_handle w" if "callback_heap w a = Some cc" for a cc
  proof -
    have "owned w (future cc) a" using future_invD(1,3)[OF fi] that by blast
    then show ?thesis using that no by (auto simp: owned_def)
  qed
  then show "idle {} (next_handle w) ?w" by (auto simp: idle_def)
qed

lemma run_refused:
  assumes inv: "zt_inv {} {} w" and "db (fdb_state w) \<noteq> None"
    and "calloc_null env \<or> create_error env \<noteq> 0"
  shows "\<exists>w'. zf_zonetick_run env z n d u w = Some (-1, w') \<and> same_but_log w w'"
proof (cases "calloc_null env")
  case True
  then show ?thesis by (simp add: zf_zonetick_run_def same_but_log_refl)
next
  case False
  have no: "ctx_heap w (next_handle w) = None" using ctx_fresh[OF inv] by simp
  have "zf_zonetick_run env z n d u w = Some (-1, w\<lparr>next_handle := Suc (next_handle w),
      error_log := error_log w @
        [LIBRARY_ERROR ''fdb_database_create_transaction'' (create_error env)]\<rparr>)"
    using False assms(2,3) no
    by (cases w) (simp add: zf_zonetick_run_def fdb_create_transaction_def log_error_def
        fun_upd_fresh_cancel domIff Let_def)
  then show ?thesis using same_but_logI[of w "Suc (next_handle w)"] by simp
qed

lemma run_accepted:
  assumes inv: "zt_inv {} {} w" and "db (fdb_state w) \<noteq> None"
    and "\<not> calloc_null env" and "create_error env = 0"
  shows "\<exists>w'. zf_zonetick_run env z n d u w = Some (0, w') \<and>
    effect (zt_protocol (submit_env env) out ZT_ON_ERROR_RETRY (Suc (next_handle w)) z)
      (next_handle w)
      \<lparr>tr = Some (Suc (next_handle w)), z_id = z, tick_count = n, done_cb = d, user_ctx = u\<rparr>
      (created z n d u w) w' \<and> zt_inv {} {} w'"
proof -
  let ?x = "\<lparr>tr = Some (Suc (next_handle w)), z_id = z, tick_count = n, done_cb = d, user_ctx = u\<rparr>"
  let ?c = "next_handle w" and ?w = "created z n d u w"
  have run: "zf_zonetick_run env z n d u w =
      Option.bind (zt_start_range_read (submit_env env) ?c ?w) (\<lambda>w. Some (0, w))"
    using assms(2-4)
    by (simp add: zf_zonetick_run_def fdb_create_transaction_def created_def Let_def
        del: not_None_eq)
  have x: "ctx_heap ?w ?c = Some ?x" and t: "tr ?x = Some (Suc ?c)" by simp_all
  obtain w' where w': "zt_start_range_read (submit_env env) ?c ?w = Some w'"
    and eff: "effect (zt_protocol (submit_env env) out ZT_ON_ERROR_RETRY (Suc ?c) (z_id ?x)) ?c ?x ?w w'"
    using start_range_read_effect[OF inv_created(1)[OF inv] x t] by blast
  have "zt_inv {} {} w'"
    using inv_effect[OF inv_created(1)[OF inv] x inv_created(2)[OF inv] eff protocol_ok[OF t]] .
  with run w' eff show ?thesis by simp
qed


text \<open>The three ways a run ends: refused, waiting for its range read, or ended at once because
  the range read could not be submitted.\<close>

lemma run_cases:
  assumes inv: "zt_inv {} {} w" and db: "db (fdb_state w) \<noteq> None"
    and r: "zf_zonetick_run env z n d u w = Some (r, w')"
  obtains (refused) "r = -1" "same_but_log w w'"
  | (waiting) "r = 0" "w' = submitted (range_request (Suc (next_handle w)) z) ZT_ON_RANGE_READ
      (next_handle w) (created z n d u w)" "zt_inv {} {} w'"
  | (ended) w1 where "r = 0" "same_but_log (created z n d u w) w1" "w' = finished (next_handle w)
      \<lparr>tr = Some (Suc (next_handle w)), z_id = z, tick_count = n, done_cb = d, user_ctx = u\<rparr> False w1"
proof (cases "calloc_null env \<or> create_error env \<noteq> 0")
  case True
  then show ?thesis using refused run_refused[OF inv db, of env z n d u] r by simp
next
  case False
  then show ?thesis
    using run_accepted[OF inv db, of env z n d u] r waiting ended by (auto split: if_splits)
qed

subsection \<open>Reachable worlds\<close>

text \<open>A process starts with a database handle and nothing else. Then, in any order and any
  number of times: a tick is started for any zone, with any answers of the client; a
  registered future becomes ready, with any outcome \<open>ok\<close> admits for its request, and is
  delivered; another process writes to the database. The counter is the number of accepted
  runs that gave a completion callback.\<close>

definition zt_initial :: "zt_world \<Rightarrow> bool" where
  "zt_initial w \<longleftrightarrow> db (fdb_state w) \<noteq> None \<and> transactions w = Map.empty \<and> futures w = Map.empty \<and>
     callback_heap w = Map.empty \<and> registered w = Map.empty \<and> ctx_heap w = Map.empty \<and>
     done_log w = []"

inductive zt_step :: "fdb_client \<Rightarrow> (fdb_request \<Rightarrow> fdb_outcome \<Rightarrow> bool) \<Rightarrow> zt_world \<Rightarrow> nat \<Rightarrow> zt_world
    \<Rightarrow> bool" for client ok where
  run: "zf_zonetick_run env z n d u w = Some (r, w') \<Longrightarrow>
    zt_step client ok w (if r = 0 \<and> d \<noteq> None then 1 else 0) w'"
| deliver: "futures w f = Some req \<Longrightarrow> ok req out \<Longrightarrow> zt_deliver client env out f w = Some w' \<Longrightarrow>
    zt_step client ok w 0 w'"
| other: "zt_step client ok w 0 (w\<lparr>store := m\<rparr>)"

inductive zt_reach :: "fdb_client \<Rightarrow> (fdb_request \<Rightarrow> fdb_outcome \<Rightarrow> bool) \<Rightarrow> nat \<Rightarrow> zt_world \<Rightarrow> bool"
  for client ok where
  init: "zt_initial w \<Longrightarrow> zt_reach client ok 0 w"
| step: "zt_reach client ok k w \<Longrightarrow> zt_step client ok w j w' \<Longrightarrow> zt_reach client ok (k + j) w'"

inductive zt_steps :: "fdb_client \<Rightarrow> (fdb_request \<Rightarrow> fdb_outcome \<Rightarrow> bool) \<Rightarrow> zt_world \<Rightarrow> nat \<Rightarrow> zt_world
    \<Rightarrow> bool" for client ok where
  none: "zt_steps client ok w 0 w"
| more: "zt_steps client ok w n w1 \<Longrightarrow> zt_step client ok w1 j w2 \<Longrightarrow> zt_steps client ok w (n + j) w2"

definition any_outcome :: "fdb_request \<Rightarrow> fdb_outcome \<Rightarrow> bool" where
  "any_outcome req out = True"

text \<open>The completion callbacks made, and those still owed by live ticks.\<close>

definition live_cbs :: "zt_world \<Rightarrow> handle set" where
  "live_cbs w = {c. \<exists>x. ctx_heap w c = Some x \<and> done_cb x \<noteq> None}"

definition owed :: "zt_world \<Rightarrow> nat" where
  "owed w = length (done_log w) + card (live_cbs w)"

lemma live_cbs_cong: "ctx_heap w' = ctx_heap w \<Longrightarrow> live_cbs w' = live_cbs w"
  by (simp add: live_cbs_def)

lemma owed_cong: "ctx_heap w' = ctx_heap w \<Longrightarrow> done_log w' = done_log w \<Longrightarrow> owed w' = owed w"
  using live_cbs_cong[of w' w] by (simp add: owed_def)

lemma zt_inv_initial: "zt_initial w \<Longrightarrow> zt_inv {} {} w"
  by (auto simp: zt_initial_def zt_inv_def handles_fresh_def ctx_inv_def future_inv_def)

lemma finite_live_cbs:
  assumes "ctx_inv w"
  shows "finite (live_cbs w)"
proof (rule finite_subset)
  show "live_cbs w \<subseteq> {..<next_handle w}"
    using ctx_invD[OF assms] by (fastforce simp: live_cbs_def)
qed simp

lemma effect_frame:
  assumes "effect e c x w w'"
  shows "fdb_state w' = fdb_state w" and "store w' = store w"
    and "c' \<noteq> c \<Longrightarrow> ctx_heap w' c' = ctx_heap w c'"
    and "t \<noteq> the (tr x) \<Longrightarrow> transactions w' t = transactions w t"
proof -
  have sb: "fdb_state w' = fdb_state w \<and> store w' = store w \<and>
      (c' \<noteq> c \<longrightarrow> ctx_heap w' c' = ctx_heap w c') \<and>
      (t \<noteq> the (tr x) \<longrightarrow> transactions w' t = transactions w t)"
  proof (cases e)
    case (Finished b)
    then obtain w1 where w1: "same_but_log w w1" "w' = finished c x b w1" using assms by auto
    then show ?thesis using frame_same_but_log[OF w1(1)] by (simp add: finished_def)
  next
    case Orphaned
    then show ?thesis using assms frame_same_but_log[of w w'] by simp
  qed (use assms in simp)
  then show "fdb_state w' = fdb_state w" and "store w' = store w"
    and "c' \<noteq> c \<Longrightarrow> ctx_heap w' c' = ctx_heap w c'"
    and "t \<noteq> the (tr x) \<Longrightarrow> transactions w' t = transactions w t" by simp_all
qed

lemma effect_owed:
  assumes fin: "finite (live_cbs w)" and x: "ctx_heap w c = Some x" and eff: "effect e c x w w'"
  shows "owed w' = owed w"
proof (cases e)
  case (Waiting req p)
  then show ?thesis using eff owed_cong[of w' w] by simp
next
  case (Finished ok)
  then obtain w1 where w1: "same_but_log w w1" "w' = finished c x ok w1" using eff by auto
  have "live_cbs w' = live_cbs w - {c}"
    using frame_same_but_log[OF w1(1)] w1(2) by (auto simp: live_cbs_def finished_def)
  moreover have "c \<in> live_cbs w \<longleftrightarrow> done_cb x \<noteq> None" using x by (simp add: live_cbs_def)
  moreover have "card (live_cbs w) > 0" if "c \<in> live_cbs w" using that fin card_gt_0_iff by blast
  ultimately show ?thesis
    using frame_same_but_log[OF w1(1)] w1(2)
    by (auto simp: owed_def finished_def card_Diff_singleton_if split: option.split)
next
  case Orphaned
  then show ?thesis using eff frame_same_but_log(1,3)[of w w'] owed_cong[of w' w] by simp
qed

lemma created_owed:
  assumes "zt_inv {} {} w"
  shows "owed (created z n d u w) = owed w + (if d \<noteq> None then 1 else 0)"
proof -
  have "next_handle w \<notin> live_cbs w" using ctx_fresh[OF assms] by (auto simp: live_cbs_def)
  moreover have "live_cbs (created z n d u w) =
      (if d \<noteq> None then insert (next_handle w) (live_cbs w) else live_cbs w)"
    using ctx_fresh[OF assms] by (auto simp: live_cbs_def)
  ultimately show ?thesis
    using finite_live_cbs[OF zt_invD(2)[OF assms]] by (simp add: owed_def)
qed

lemma deliver_keeps:
  assumes inv: "zt_inv {} {} w" and d: "zt_deliver client env out f w = Some w'"
  shows "zt_inv {} {} w'" and "fdb_state w' = fdb_state w" and "owed w' = owed w"
proof -
  obtain a cc x t w1 w2 where cc: "callback_heap w a = Some cc" and
    x: "ctx_heap w (ctx cc) = Some x" and
    w1: "w1 = loaded out (cb cc) t (tick_count x)
        ((become_ready client out f w)\<lparr>registered := (registered w)(f := None)\<rparr>)" and
    eff: "effect (zt_protocol env out (cb cc) t (z_id x)) (ctx cc) x w1 w2" and
    w': "w' = released f a w2" and inv': "zt_inv {} {} w'" by (rule deliver_step[OF inv d]) blast
  show "zt_inv {} {} w'" by fact
  have "fdb_state w1 = fdb_state w" "ctx_heap w1 = ctx_heap w" "done_log w1 = done_log w"
    by (simp_all add: w1 loaded_def add_writes_def)
  moreover have "owed w' = owed w2" by (rule owed_cong) (simp_all add: w')
  ultimately show "fdb_state w' = fdb_state w" "owed w' = owed w"
    using effect_frame(1)[OF eff] effect_owed[OF _ _ eff] x owed_cong[of w1 w]
      live_cbs_cong[of w1 w] finite_live_cbs[OF zt_invD(2)[OF inv]]
    by (simp_all add: w')
qed

lemma run_keeps:
  assumes inv: "zt_inv {} {} w" and db: "db (fdb_state w) \<noteq> None"
    and r: "zf_zonetick_run env z n d u w = Some (r, w')"
  shows "zt_inv {} {} w'" and "db (fdb_state w') = db (fdb_state w)"
    and "owed w' = owed w + (if r = 0 \<and> d \<noteq> None then 1 else 0)"
proof -
  have "zt_inv {} {} w' \<and> db (fdb_state w') = db (fdb_state w) \<and>
    owed w' = owed w + (if r = 0 \<and> d \<noteq> None then 1 else 0)"
  proof (cases "calloc_null env \<or> create_error env \<noteq> 0")
    case True
    then have "r = -1" "same_but_log w w'" 
      using run_refused[OF inv db, of env z n d u] r by simp_all
    then show ?thesis
      using inv_same_but_log[OF inv] frame_same_but_log[of w w'] owed_cong[of w' w] by simp
  next
    case False
    let ?x = "\<lparr>tr = Some (Suc (next_handle w)), z_id = z, tick_count = n, done_cb = d, user_ctx = u\<rparr>"
    obtain e where "r = 0" and eff: "effect e (next_handle w) ?x (created z n d u w) w'"
      and inv': "zt_inv {} {} w'"
      using run_accepted[OF inv db, of env z n d u] False r by fastforce
    then show ?thesis
      using effect_frame(1)[OF eff] created_owed[OF inv] inv_created(1)[OF inv, THEN zt_invD(2)]
        effect_owed[OF finite_live_cbs _ eff]
      by simp
  qed
  then show "zt_inv {} {} w'" and "db (fdb_state w') = db (fdb_state w)"
    and "owed w' = owed w + (if r = 0 \<and> d \<noteq> None then 1 else 0)" by simp_all
qed

lemma step_keeps:
  assumes inv: "zt_inv {} {} w" and db: "db (fdb_state w) \<noteq> None" and st: "zt_step client ok w j w'"
  shows "zt_inv {} {} w' \<and> db (fdb_state w') \<noteq> None \<and> owed w' = owed w + j"
  using st
proof cases
  case (run env z n d u r)
  then show ?thesis using run_keeps[OF inv db run(2)] db by simp
next
  case (deliver f req out env)
  then show ?thesis using deliver_keeps[OF inv deliver(4)] db by simp
next
  case (other m)
  then show ?thesis using inv_transactions(2)[OF inv refl, of m] owed_cong[of w' w] db by simp
qed

lemma reach_inv:
  assumes "zt_reach client ok k w"
  shows "zt_inv {} {} w \<and> db (fdb_state w) \<noteq> None \<and> owed w = k"
  using assms
proof induction
  case (init w)
  then show ?case
    using zt_inv_initial[OF init] by (auto simp: zt_initial_def owed_def live_cbs_def)
next
  case (step k w j w')
  then show ?case using step_keeps[of w client ok j w'] by simp
qed

lemma reach_zt_inv:
  "zt_reach client ok k w \<Longrightarrow> zt_inv {} {} w"
  "zt_reach client ok k w \<Longrightarrow> db (fdb_state w) \<noteq> None"
  using reach_inv by blast+

text \<open>The runs of the process in the large: never stuck, every handle accounted for.\<close>

lemma run_total:
  assumes "zt_inv {} {} w" and "db (fdb_state w) \<noteq> None"
  shows "\<exists>r w'. zf_zonetick_run env z n d u w = Some (r, w') \<and>
    (r = 0 \<longleftrightarrow> \<not> calloc_null env \<and> create_error env = 0) \<and> r \<in> {0, -1}"
proof (cases "calloc_null env \<or> create_error env \<noteq> 0")
  case True
  then show ?thesis using run_refused[OF assms True, of z n d u] by auto
next
  case False
  then show ?thesis using run_accepted[OF assms, of env z n d u] by auto
qed

lemma deliver_defined_iff:
  assumes inv: "zt_inv {} {} w" and r: "registered w f = Some a"
    and cc: "callback_heap w a = Some cc" and x: "ctx_heap w (ctx cc) = Some x"
  shows "zt_deliver client env out f w = None \<longleftrightarrow> \<not> outcome_defined out (cb cc) (tick_count x)"
proof -
  obtain t where t: "tr x = Some t" using ctx_invD[OF zt_invD(2)[OF inv] x] by blast
  show ?thesis
    using deliver_undefined[OF inv r cc x t] deliver_effect[OF inv r cc x t] by (metis option.distinct(1))
qed

text \<open>C4: the tick is memory safe. In every reachable world, whatever is in flight and
  whatever the client answers: a call of \<open>zf_zonetick_run\<close> has defined behaviour, and
  returns -1 exactly when calloc or the creation of the transaction failed; and every future
  whose callback is registered can be delivered without using or releasing a dead handle,
  the only undefined behaviour being the signed overflow of a position in the range-read
  loop.\<close>

theorem tick_memory_safe:
  assumes "zt_reach client ok k w"
  shows "(\<exists>r w'. zf_zonetick_run renv z n d u w = Some (r, w') \<and> r \<in> {0, -1} \<and>
      (r = -1 \<longleftrightarrow> calloc_null renv \<or> create_error renv \<noteq> 0)) \<and>
    (registered w f = Some a \<longrightarrow> (\<exists>cc x. callback_heap w a = Some cc \<and>
      ctx_heap w (ctx cc) = Some x \<and>
      (zt_deliver client env out f w = None \<longleftrightarrow>
         cb cc = ZT_ON_RANGE_READ \<and> out_error out = 0 \<and> out_kv_error out = 0 \<and>
         \<not> (\<forall>(k, v) \<in> set (out_kvs out). tick_defined (tick_count x) (stored_packet v)))))"
proof (intro conjI impI)
  note inv = reach_zt_inv[OF assms]
  show "\<exists>r w'. zf_zonetick_run renv z n d u w = Some (r, w') \<and> r \<in> {0, -1} \<and>
      (r = -1 \<longleftrightarrow> calloc_null renv \<or> create_error renv \<noteq> 0)"
    using run_total[OF inv, of renv z n d u] by auto
  assume r: "registered w f = Some a"
  obtain cc x where o: "callback_heap w a = Some cc" "ctx_heap w (ctx cc) = Some x"
    using registered_tick[OF inv(1) r] by metis
  show "\<exists>cc x. callback_heap w a = Some cc \<and> ctx_heap w (ctx cc) = Some x \<and>
      (zt_deliver client env out f w = None \<longleftrightarrow>
         cb cc = ZT_ON_RANGE_READ \<and> out_error out = 0 \<and> out_kv_error out = 0 \<and>
         \<not> (\<forall>(k, v) \<in> set (out_kvs out). tick_defined (tick_count x) (stored_packet v)))"
    using o deliver_defined_iff[OF inv(1) r o, of client env out]
    by (auto simp: outcome_defined_def kvs_defined_def)
qed

lemma registered_inj:
  assumes "zt_inv {} {} w" and "registered w f = Some a" and "registered w g = Some a"
  shows "f = g"
  using registered_owned[OF assms(1,2)] registered_owned[OF assms(1,3)] by (auto simp: owned_def)

lemma waits_unique:
  assumes inv: "zt_inv {} {} w" and "waits w f c p" and "waits w f' c p'"
  shows "f = f' \<and> p = p'"
proof -
  obtain a cc where a: "registered w f = Some a" "callback_heap w a = Some cc" "ctx cc = c" "cb cc = p"
    using assms(2) by (rule waitsD)
  obtain b cc' where b: "registered w f' = Some b" "callback_heap w b = Some cc'" "ctx cc' = c" "cb cc' = p'"
    using assms(3) by (rule waitsD)
  have "a = b" using future_invD(4)[OF zt_invD(3)[OF inv] a(2) b(2)] a b by simp
  then show ?thesis using a b registered_inj[OF inv, of f a f'] by simp
qed

text \<open>C6: nothing leaks. In every reachable world the live futures are exactly the ones with
  a registered callback, the allocated callback objects are exactly the registered ones, each
  for one future; the live transactions are exactly those of the live ticks; a tick has at
  most one pending request; and when no tick is live the process holds no handle at all.\<close>

theorem tick_no_leak:
  assumes "zt_reach client ok k w"
  shows "dom (futures w) = dom (registered w) \<and> ran (registered w) = dom (callback_heap w) \<and>
    inj_on (registered w) (dom (registered w)) \<and>
    Some ` dom (transactions w) = tr ` ran (ctx_heap w) \<and>
    (waits w f c p \<and> waits w f' c p' \<longrightarrow> f = f' \<and> p = p') \<and>
    (ctx_heap w = Map.empty \<longrightarrow> futures w = Map.empty \<and> registered w = Map.empty \<and>
       callback_heap w = Map.empty \<and> transactions w = Map.empty)"
proof -
  have inv: "zt_inv {} {} w" using reach_zt_inv[OF assms] by simp
  note fi = zt_invD(3)[OF inv] and ci = zt_invD(2)[OF inv]
  have own: "\<exists>cc x req. callback_heap w a = Some cc \<and> future cc = f \<and> futures w f = Some req \<and>
      ctx_heap w (ctx cc) = Some x" if "registered w f = Some a" for f a
    using registered_owned[OF inv that] unfolding owned_def by blast
  have futs: "dom (futures w) = dom (registered w)"
    using future_invD(2)[OF fi] own by fastforce
  have cbs: "ran (registered w) = dom (callback_heap w)"
    using future_invD(3)[OF fi] own by (fastforce simp: ran_def)
  have inj: "inj_on (registered w) (dom (registered w))"
  proof (rule inj_onI)
    fix f g assume "f \<in> dom (registered w)" "registered w f = registered w g"
    then obtain a where "registered w f = Some a" "registered w g = Some a"
      by (metis domD)
    then show "f = g" by (rule registered_inj[OF inv])
  qed
  have trs: "Some ` dom (transactions w) = tr ` ran (ctx_heap w)"
  proof (intro equalityI subsetI)
    fix y assume "y \<in> Some ` dom (transactions w)"
    then obtain c x where "ctx_heap w c = Some x" "tr x = y" using ci unfolding ctx_inv_def by blast
    then show "y \<in> tr ` ran (ctx_heap w)" by (auto simp: ran_def)
  next
    fix y assume "y \<in> tr ` ran (ctx_heap w)"
    then obtain c x where "ctx_heap w c = Some x" "y = tr x" by (auto simp: ran_def)
    then show "y \<in> Some ` dom (transactions w)" using ctx_invD[OF ci] by (metis imageI)
  qed
  have one: "f = f' \<and> p = p'" if "waits w f c p" "waits w f' c p'"
    using waits_unique[OF inv that] .
  have none: "registered w = Map.empty" if "ctx_heap w = Map.empty"
    using own that by (intro ext) (metis not_None_eq option.distinct(1))
  show ?thesis
    using futs cbs inj trs one none by (intro conjI impI) (auto simp: ran_def)
qed

text \<open>C7: completion callbacks are conserved. In every reachable world the number of accepted
  runs that passed a completion callback is the number of callbacks made so far plus the
  number of ticks still live that have one: none is made twice and none is dropped by a tick
  that ends.\<close>

theorem callbacks_conserved:
  assumes "zt_reach client ok k w"
  shows "k = length (done_log w) + card {c. \<exists>x. ctx_heap w c = Some x \<and> done_cb x \<noteq> None}"
  using reach_inv[OF assms] by (simp add: owed_def live_cbs_def)

subsection \<open>One delivery, as a step of its tick\<close>

definition orphan :: "zt_world \<Rightarrow> handle \<Rightarrow> bool" where
  "orphan w c \<longleftrightarrow> c \<in> dom (ctx_heap w) \<and> (\<forall>f p. \<not> waits w f c p)"

lemma waits_after_release:
  assumes inv: "zt_inv {} {} w" and r: "registered w f = Some a"
    and reg: "registered w2 = (registered w)(f := None)" and cbh: "callback_heap w2 = callback_heap w"
  shows "waits (released f a w2) g c p \<longleftrightarrow> g \<noteq> f \<and> waits w g c p"
  using registered_inj[OF inv r] by (auto simp: waits_def reg cbh split: option.split)

lemma waits_after_submit:
  assumes inv: "zt_inv {} {} w" and r: "registered w f = Some a"
    and reg: "registered w1 = (registered w)(f := None)" and cbh: "callback_heap w1 = callback_heap w"
    and nh: "next_handle w1 = next_handle w"
  shows "waits (released f a (submitted req q c' w1)) g c p \<longleftrightarrow>
    g \<noteq> f \<and> waits w g c p \<or> g = next_handle w \<and> c = c' \<and> p = q"
proof -
  note fresh = handles_fresh_None[OF zt_invD(1)[OF inv]]
  have no: "registered w (next_handle w) = None" "callback_heap w (Suc (next_handle w)) = None"
    using fresh by simp_all
  obtain cc where "callback_heap w a = Some cc" using registered_owned[OF inv r] by (auto simp: owned_def)
  then have a: "a \<noteq> Suc (next_handle w)" and f: "f \<noteq> next_handle w" using no r by auto
  have live: "callback_heap w b \<noteq> None" if "registered w h = Some b" for h b
    using registered_owned[OF inv that] by (auto simp: owned_def)
  have "g \<noteq> next_handle w" if "waits w g c p" using that no by (auto simp: waits_def split: option.splits)
  moreover have "b \<noteq> Suc (next_handle w)" if "registered w h = Some b" for h b
    using live[OF that] no by auto
  ultimately show ?thesis
    using registered_inj[OF inv r] a f unfolding waits_def
    by (auto simp: reg cbh nh split: option.splits)
qed

lemma waits_effect:
  assumes inv: "zt_inv {} {} w" and r: "registered w f = Some a"
    and w1: "registered w1 = (registered w)(f := None)" "callback_heap w1 = callback_heap w"
      "next_handle w1 = next_handle w"
    and eff: "effect e c x w1 w2"
  shows "waits (released f a w2) g c' p \<longleftrightarrow>
    g \<noteq> f \<and> waits w g c' p \<or> g = next_handle w \<and> c' = c \<and> (\<exists>req. e = Waiting req p)"
proof (cases e)
  case (Waiting req q)
  then show ?thesis using eff waits_after_submit[OF inv r w1] by auto
next
  case (Finished b)
  then obtain w3 where "same_but_log w1 w3" "w2 = finished c x b w3" using eff by auto
  then have "registered w2 = (registered w)(f := None)" "callback_heap w2 = callback_heap w"
    using frame_same_but_log[of w1 w3] w1 by (simp_all add: finished_def)
  then show ?thesis using waits_after_release[OF inv r] Finished by simp
next
  case Orphaned
  then have "registered w2 = (registered w)(f := None)" "callback_heap w2 = callback_heap w"
    using eff frame_same_but_log[of w1 w2] w1 by simp_all
  then show ?thesis using waits_after_release[OF inv r] Orphaned by simp
qed

end
