(* ===== verification/Zonetick_Progress.thy ===== *)
theory Zonetick_Progress
  imports Zonetick_Runs
begin

text \<open>
  What one delivery does to its tick, and what sequences of deliveries can and cannot
  achieve: the refinement of the handlers to the abstract protocol, the paths on which a
  tick never reports, and the full path from the call of \<open>zf_zonetick_run\<close> to its
  completion callback.
\<close>

subsection \<open>One delivery refines one protocol step\<close>

text \<open>What the completion callback is told, if there is one.\<close>

definition report :: "zonetick_ctx_t \<Rightarrow> bool \<Rightarrow> (handle \<times> handle \<times> bool) list" where
  "report x b = (case done_cb x of None \<Rightarrow> [] | Some d \<Rightarrow> [(d, user_ctx x, b)])"

definition tick_after :: "tick_effect \<Rightarrow> handle \<Rightarrow> zonetick_ctx_t \<Rightarrow> zt_world \<Rightarrow> zt_world \<Rightarrow> bool" where
  "tick_after e c x w w' \<longleftrightarrow>
     (case e of
        Waiting req q \<Rightarrow>
          ctx_heap w' c = Some x \<and> waits w' (next_handle w) c q \<and>
          futures w' (next_handle w) = Some req \<and> done_log w' = done_log w
      | Finished b \<Rightarrow>
          ctx_heap w' c = None \<and> transactions w' (the (tr x)) = None \<and>
          done_log w' = done_log w @ report x b
      | Orphaned \<Rightarrow>
          ctx_heap w' c = Some x \<and> orphan w' c \<and> done_log w' = done_log w)"

lemma waits_tick:
  assumes "zt_inv {} {} w" and "waits w f c p"
  obtains a cc x t req where "registered w f = Some a" "callback_heap w a = Some cc"
    "ctx cc = c" "cb cc = p" "ctx_heap w c = Some x" "tr x = Some t" "futures w f = Some req"
    "request_ok req p t x"
proof -
  obtain a cc where a: "registered w f = Some a" "callback_heap w a = Some cc" "ctx cc = c" "cb cc = p"
    using assms(2) by (rule waitsD)
  then show ?thesis
    using registered_owned[OF assms(1) a(1)] that[OF a] unfolding owned_def request_ok_def by auto
qed

text \<open>The delivery of the future a tick waits for, spelled out.\<close>

lemma deliver_waits:
  assumes inv: "zt_inv {} {} w" and wt: "waits w f c p"
    and d: "zt_deliver client env out f w = Some w'"
  obtains a x t w1 w2 where "registered w f = Some a" "ctx_heap w c = Some x" "tr x = Some t"
    "outcome_defined out p (tick_count x)"
    "w1 = loaded out p t (tick_count x)
        ((become_ready client out f w)\<lparr>registered := (registered w)(f := None)\<rparr>)"
    "effect (zt_protocol env out p t (z_id x)) c x w1 w2" "w' = released f a w2"
proof -
  obtain a cc where a: "registered w f = Some a" "callback_heap w a = Some cc" "ctx cc = c" "cb cc = p"
    using wt by (rule waitsD)
  show ?thesis
    by (rule deliver_step[OF inv d]) (use a that in auto)
qed

lemma deliver_protocol:
  assumes inv: "zt_inv {} {} w" and wt: "waits w f c p"
    and d: "zt_deliver client env out f w = Some w'"
  obtains x t where "ctx_heap w c = Some x" and "tr x = Some t"
    and "tick_after (zt_protocol env out p t (z_id x)) c x w w'"
    and "\<forall>g c' q. waits w' g c' q \<longleftrightarrow> g \<noteq> f \<and> waits w g c' q \<or>
      g = next_handle w \<and> c' = c \<and> (\<exists>req. zt_protocol env out p t (z_id x) = Waiting req q)"
    and "\<forall>c'. c' \<noteq> c \<longrightarrow> ctx_heap w' c' = ctx_heap w c'"
proof -
  obtain a x t w1 w2 where r: "registered w f = Some a" and x: "ctx_heap w c = Some x"
    and t: "tr x = Some t" and w1: "w1 = loaded out p t (tick_count x)
        ((become_ready client out f w)\<lparr>registered := (registered w)(f := None)\<rparr>)"
    and eff: "effect (zt_protocol env out p t (z_id x)) c x w1 w2" and w': "w' = released f a w2"
    by (rule deliver_waits[OF inv wt d])
  let ?e = "zt_protocol env out p t (z_id x)"
  have fr: "registered w1 = (registered w)(f := None)" "callback_heap w1 = callback_heap w"
    "next_handle w1 = next_handle w" "ctx_heap w1 = ctx_heap w" "done_log w1 = done_log w"
    by (simp_all add: w1)
  note ww = waits_effect[OF inv r fr(1-3) eff, folded w']
  have new: "f \<noteq> next_handle w"
    using r handles_fresh_None(4)[OF zt_invD(1)[OF inv], of "next_handle w"] by auto
  have gone: "\<not> waits w g c q" if "g \<noteq> f" for g q
    using waits_unique[OF inv wt] that by blast
  have "tick_after ?e c x w w'"
  proof (cases ?e)
    case (Waiting req q)
    then show ?thesis
      using ww eff x fr new by (simp add: tick_after_def w')
  next
    case (Finished b)
    then obtain w3 where w3: "same_but_log w1 w3" "w2 = finished c x b w3" using eff by auto
    then show ?thesis
      using Finished fr frame_same_but_log[OF w3(1)]
      by (simp add: tick_after_def w' finished_def report_def)
  next
    case Orphaned
    then have "same_but_log w1 w2" using eff by simp
    then show ?thesis
      using Orphaned fr frame_same_but_log[of w1 w2] ww gone x
      by (auto simp: tick_after_def orphan_def w')
  qed
  moreover have "ctx_heap w' c' = ctx_heap w c'" if "c' \<noteq> c" for c'
    using effect_frame(3)[OF eff that] fr by (simp add: w')
  ultimately show ?thesis using that[OF x t] ww by blast
qed

text \<open>C5: the handlers implement the protocol. In every reachable world, delivering the future
  a tick waits for takes exactly the step of \<open>zt_protocol\<close>: the tick then waits for the
  one request the protocol names, or has ended with its context and transaction released and
  its completion callback called once with the protocol's verdict, or (when the submission of
  a commit or of an on_error fails, which the handlers do not check) is left with nothing
  pending. No other tick's context or pending request changes.\<close>

theorem deliver_refines_protocol:
  assumes "zt_reach client ok k w" and "waits w f c p"
    and "zt_deliver client env out f w = Some w'"
  shows "\<exists>x t. ctx_heap w c = Some x \<and> tr x = Some t \<and>
    tick_after (zt_protocol env out p t (z_id x)) c x w w' \<and>
    (\<forall>c'. c' \<noteq> c \<longrightarrow> ctx_heap w' c' = ctx_heap w c' \<and>
       (\<forall>g q. waits w' g c' q = waits w g c' q))"
proof (rule deliver_protocol[OF reach_zt_inv(1)[OF assms(1)] assms(2,3)])
  fix x t
  assume x: "ctx_heap w c = Some x" "tr x = Some t"
    and "tick_after (zt_protocol env out p t (z_id x)) c x w w'"
    and ww: "\<forall>g c' q. waits w' g c' q \<longleftrightarrow> g \<noteq> f \<and> waits w g c' q \<or>
      g = next_handle w \<and> c' = c \<and> (\<exists>req. zt_protocol env out p t (z_id x) = Waiting req q)"
    and "\<forall>c'. c' \<noteq> c \<longrightarrow> ctx_heap w' c' = ctx_heap w c'"
  moreover have "waits w' g c' q = waits w g c' q" if "c' \<noteq> c" for g c' q
    using ww that assms(2) by (auto simp: waits_def split: option.splits)
  ultimately show ?thesis by blast
qed

subsection \<open>Ticks that never report\<close>

text \<open>Any number of deliveries, in any order and for any ticks, all of futures that carry an
  error, with answers that \<open>acc\<close> admits to the submissions made meanwhile.\<close>

inductive zt_failing :: "fdb_client \<Rightarrow> (fdb_env \<Rightarrow> bool) \<Rightarrow> zt_world \<Rightarrow> zt_world \<Rightarrow> bool" for client acc where
  none: "zt_failing client acc w w"
| more: "zt_failing client acc w w1 \<Longrightarrow> out_error out \<noteq> 0 \<Longrightarrow> acc env \<Longrightarrow>
    zt_deliver client env out f w1 = Some w2 \<Longrightarrow> zt_failing client acc w w2"

lemma error_protocol:
  "out_error out \<noteq> 0 \<Longrightarrow> submit_ok env \<Longrightarrow> \<exists>req q. zt_protocol env out p t z = Waiting req q"
  by (cases p) (auto simp: submit_effect_def)

lemma deliver_waiting:
  assumes inv: "zt_inv {} {} w" and d: "zt_deliver client env out f w = Some w'"
  obtains c p where "waits w f c p"
proof -
  obtain a where r: "registered w f = Some a"
    using d by (auto simp: zt_deliver_def split: bind_splits)
  then show ?thesis using registered_owned[OF inv r] that by (auto simp: owned_def waits_def)
qed

lemma failing_step:
  assumes inv: "zt_inv {} {} w" and err: "out_error out \<noteq> 0" "submit_ok env"
    and d: "zt_deliver client env out f w = Some w'"
  shows "done_log w' = done_log w" and "ctx_heap w' = ctx_heap w"
    and "(\<exists>g q. waits w g c q) \<longleftrightarrow> (\<exists>g q. waits w' g c q)"
proof -
  obtain c0 p where wt: "waits w f c0 p" by (rule deliver_waiting[OF inv d])
  obtain x t where x: "ctx_heap w c0 = Some x" and t: "tr x = Some t"
    and af: "tick_after (zt_protocol env out p t (z_id x)) c0 x w w'"
    and ww: "\<forall>g c' q. waits w' g c' q \<longleftrightarrow> g \<noteq> f \<and> waits w g c' q \<or>
      g = next_handle w \<and> c' = c0 \<and> (\<exists>req. zt_protocol env out p t (z_id x) = Waiting req q)"
    and fr: "\<forall>c'. c' \<noteq> c0 \<longrightarrow> ctx_heap w' c' = ctx_heap w c'"
    by (rule deliver_protocol[OF inv wt d])
  obtain req q where e: "zt_protocol env out p t (z_id x) = Waiting req q"
    using error_protocol[OF err] by blast
  show "done_log w' = done_log w" using af by (simp add: e tick_after_def)
  have "ctx_heap w' c0 = ctx_heap w c0" using af x by (simp add: e tick_after_def)
  then show "ctx_heap w' = ctx_heap w" using fr by (intro ext) metis
  have "c = c0" if "waits w f c q'" for q'
    using that wt by (auto simp: waits_def split: option.splits)
  then show "(\<exists>g q. waits w g c q) \<longleftrightarrow> (\<exists>g q. waits w' g c q)"
    using ww e wt by metis
qed

text \<open>With any answer to the submissions: a report is made only of a retry whose range read is
  refused, and it is one of failure.\<close>

lemma failing_reports:
  assumes inv: "zt_inv {} {} w" and wt: "waits w f c p" and err: "out_error out \<noteq> 0"
    and d: "zt_deliver client env out f w = Some w'"
  shows "done_log w' = done_log w \<or>
    p = ZT_ON_ERROR_RETRY \<and> \<not> submit_ok env \<and> (\<exists>x. done_log w' = done_log w @ report x False)"
proof -
  obtain x t where "tick_after (zt_protocol env out p t (z_id x)) c x w w'"
    by (rule deliver_protocol[OF inv wt d])
  then show ?thesis
    using err by (cases p) (auto simp: tick_after_def submit_effect_def split: if_splits)
qed

lemma report_failure: "r \<in> set (report x b) \<Longrightarrow> snd (snd r) = b"
  by (auto simp: report_def split: option.splits)

lemma failing_log:
  assumes "zt_failing client acc w w'" and "zt_inv {} {} w"
  shows "zt_inv {} {} w' \<and> (\<exists>rs. done_log w' = done_log w @ rs \<and> (\<forall>r \<in> set rs. \<not> snd (snd r)))"
  using assms
proof induction
  case (more w w1 out env f w2)
  then obtain rs where inv: "zt_inv {} {} w1" and rs: "done_log w1 = done_log w @ rs" "\<forall>r \<in> set rs. \<not> snd (snd r)"
    by blast
  obtain c p where "waits w1 f c p" by (rule deliver_waiting[OF inv more(4)])
  then consider "done_log w2 = done_log w1" | x where "done_log w2 = done_log w1 @ report x False"
    using failing_reports[OF inv _ more(2,4)] by blast
  then have "\<exists>rs. done_log w2 = done_log w @ rs \<and> (\<forall>r \<in> set rs. \<not> snd (snd r))"
  proof cases
    case (2 x)
    then show ?thesis using rs report_failure[of _ x False] by (intro exI[of _ "rs @ report x False"]) auto
  qed (use rs in simp)
  then show ?case using deliver_keeps(1)[OF inv more(4)] by blast
qed simp

lemma failing_inv:
  assumes "zt_failing client acc w w'" and "zt_inv {} {} w" and "\<And>env. acc env \<Longrightarrow> submit_ok env"
  shows "zt_inv {} {} w' \<and> done_log w' = done_log w \<and> ctx_heap w' = ctx_heap w \<and>
    (\<forall>c. (\<exists>g q. waits w g c q) \<longleftrightarrow> (\<exists>g q. waits w' g c q))"
  using assms(1,2)
proof induction
  case (more w w1 out env f w2)
  then have inv: "zt_inv {} {} w1" by simp
  show ?case
    using more failing_step[OF inv more(2) assms(3)[OF more(3)] more(4)] deliver_keeps(1)[OF inv more(4)] by simp
qed simp

lemma error_delivery_defined:
  assumes "zt_inv {} {} w" and "waits w f c p" and "out_error out \<noteq> 0"
  shows "zt_deliver client env out f w \<noteq> None"
proof -
  obtain a cc x where "registered w f = Some a" "callback_heap w a = Some cc" "ctx cc = c" "cb cc = p"
    "ctx_heap w c = Some x" by (rule waits_tick[OF assms(1,2)])
  then show ?thesis
    using deliver_defined_iff[OF assms(1), of f a cc x client env out] assms(3)
    by (simp add: outcome_defined_def)
qed

text \<open>C26: an error is retried, not reported. Take any number of deliveries from a reachable world,
  all of futures that carry an error (an unretryable one included: the handler of the on_error
  future does not read its error). None of them reports success. A further delivery of an error
  makes a completion callback only if it is that of an on_error future and the range read that
  the handler then starts is refused. And while every submission is accepted, no completion
  callback has been made at all and every tick is still live; every tick that waited still
  waits, for a future whose failed delivery is again defined, so the rounds go on without end.\<close>

theorem errors_never_reported:
  assumes "zt_reach client ok k w" and "zt_failing client acc w w'"
  shows "(\<exists>rs. done_log w' = done_log w @ rs \<and> (\<forall>r \<in> set rs. \<not> snd (snd r))) \<and>
    (waits w' f c p \<and> out_error out \<noteq> 0 \<and> zt_deliver client env out f w' = Some w'' \<and>
       done_log w'' \<noteq> done_log w' \<longrightarrow> p = ZT_ON_ERROR_RETRY \<and> \<not> submit_ok env) \<and>
    ((\<forall>env. acc env \<longrightarrow> submit_ok env) \<longrightarrow>
       done_log w' = done_log w \<and> ctx_heap w' = ctx_heap w \<and>
       (waits w f c p \<longrightarrow> (\<exists>g q. waits w' g c q \<and>
          (\<forall>env out. out_error out \<noteq> 0 \<longrightarrow> zt_deliver client env out g w' \<noteq> None))))"
proof -
  note inv = reach_zt_inv(1)[OF assms(1)]
  note log = failing_log[OF assms(2) inv]
  have one: "p = ZT_ON_ERROR_RETRY \<and> \<not> submit_ok env"
    if "waits w' f c p" "out_error out \<noteq> 0" "zt_deliver client env out f w' = Some w''" "done_log w'' \<noteq> done_log w'"
    using failing_reports[OF _ that(1-3)] log that(4) by blast
  have all: "done_log w' = done_log w \<and> ctx_heap w' = ctx_heap w \<and>
      (waits w f c p \<longrightarrow> (\<exists>g q. waits w' g c q \<and>
        (\<forall>env out. out_error out \<noteq> 0 \<longrightarrow> zt_deliver client env out g w' \<noteq> None)))"
    if acc: "\<forall>env. acc env \<longrightarrow> submit_ok env"
  proof -
    note keep = failing_inv[OF assms(2) inv acc[rule_format]]
    have "\<exists>g q. waits w' g c q" if "waits w f c p" using keep that by blast
    then show ?thesis using keep error_delivery_defined by blast
  qed
  show ?thesis using log one all by blast
qed

text \<open>A tick with nothing pending stays that way.\<close>

lemma waits_run:
  assumes inv: "zt_inv {} {} w" and db: "db (fdb_state w) \<noteq> None"
    and r: "zf_zonetick_run env z n d u w = Some (r, w')" and "c < next_handle w"
  shows "waits w' g c q = waits w g c q" and "ctx_heap w' c = ctx_heap w c"
proof -
  have "waits w' g c q = waits w g c q \<and> ctx_heap w' c = ctx_heap w c"
  proof (cases "calloc_null env \<or> create_error env \<noteq> 0")
    case True
    then have "same_but_log w w'" using run_refused[OF inv db, of env z n d u] r by simp
    then show ?thesis using frame_same_but_log[of w w'] waits_cong[of w' w] by simp
  next
    case False
    let ?x = "\<lparr>tr = Some (Suc (next_handle w)), z_id = z, tick_count = n, done_cb = d, user_ctx = u\<rparr>"
    let ?w = "created z n d u w"
    obtain e where eff: "effect e (next_handle w) ?x ?w w'"
      using run_accepted[OF inv db, of env z n d u] False r by fastforce
    have cr: "waits ?w = waits w" by (rule waits_cong) simp_all
    have "waits w' g c q = waits ?w g c q"
    proof (cases e)
      case (Waiting req p)
      have "callback_heap w (Suc (Suc (Suc (next_handle w)))) = None"
        "registered w (Suc (Suc (next_handle w))) = None"
        using handles_fresh_None[OF zt_invD(1)[OF inv]] by simp_all
      then show ?thesis
        using Waiting eff assms(4) by (auto simp: waits_def split: option.split)
    next
      case (Finished b)
      then obtain w1 where "same_but_log ?w w1" "w' = finished (next_handle w) ?x b w1"
        using eff by auto
      then show ?thesis 
        using frame_same_but_log[of ?w w1] waits_cong[of w' ?w] by (simp add: finished_def)
    next
      case Orphaned
      then show ?thesis 
        using eff frame_same_but_log[of ?w w'] waits_cong[of w' ?w] by simp
    qed
    then show ?thesis using cr effect_frame(3)[OF eff, of c] assms(4) by simp
  qed
  then show "waits w' g c q = waits w g c q" and "ctx_heap w' c = ctx_heap w c" by simp_all
qed

lemma orphan_step:
  assumes inv: "zt_inv {} {} w" and db: "db (fdb_state w) \<noteq> None" and o: "orphan w c"
    and st: "zt_step client ok w j w'"
  shows "orphan w' c \<and> ctx_heap w' c = ctx_heap w c"
  using st
proof cases
  case (run env z n d u r)
  have "c < next_handle w"
    using o ctx_invD[OF zt_invD(2)[OF inv]] by (auto simp: orphan_def)
  then show ?thesis using waits_run[OF inv db run(2)] o by (auto simp: orphan_def)
next
  case (deliver f req out env)
  obtain c0 p where wt: "waits w f c0 p" by (rule deliver_waiting[OF inv deliver(4)])
  have ne: "c \<noteq> c0" using o wt by (auto simp: orphan_def)
  show ?thesis
    by (rule deliver_protocol[OF inv wt deliver(4)]) (use o ne in \<open>auto simp: orphan_def\<close>)
next
  case (other m)
  then show ?thesis using o waits_cong[of w' w] by (simp add: orphan_def)
qed

lemma orphan_steps:
  assumes "zt_steps client ok w n w'" and "zt_inv {} {} w" and "db (fdb_state w) \<noteq> None" and "orphan w c"
  shows "zt_inv {} {} w' \<and> db (fdb_state w') \<noteq> None \<and> owed w' = owed w + n \<and> orphan w' c \<and>
    ctx_heap w' c = ctx_heap w c"
  using assms
proof induction
  case (more w n w1 j w2)
  then show ?case using step_keeps[of w1 client ok j w2] orphan_step[of w1 c client ok j w2] by simp
qed simp

text \<open>C27: a tick whose commit or on_error could not be submitted is lost. Take, in a reachable world,
  the delivery of a tick's range read (unless the handler ends the tick over the result) or of
  its commit with an error, in which the submission of the commit or of the on_error is refused
  by the client, by malloc or by set_callback. The delivery reports nothing, and in every later
  world, whatever is run and delivered in between, the tick's context and its transaction are
  still allocated with nothing pending for them; so the completion callbacks made stay fewer
  than the accepted runs that asked for one (k before, n since).\<close>

theorem unsubmitted_tick_lost:
  assumes "zt_reach client ok k w" and "waits w f c p" and "zt_deliver client env out f w = Some w1"
    and "p = ZT_ON_RANGE_READ \<and> (out_error out \<noteq> 0 \<or> out_kv_error out = 0) \<or> p = ZT_ON_COMMIT \<and> out_error out \<noteq> 0"
    and "\<not> submit_ok env" and "zt_steps client ok' w1 n w'"
  shows "\<exists>x t. ctx_heap w c = Some x \<and> tr x = Some t \<and> done_log w1 = done_log w \<and>
    ctx_heap w' c = Some x \<and> t \<in> dom (transactions w') \<and> (\<forall>g q. \<not> waits w' g c q) \<and>
    (done_cb x \<noteq> None \<longrightarrow> length (done_log w') < k + n)"
proof -
  note inv = reach_inv[OF assms(1)]
  obtain x t where x: "ctx_heap w c = Some x" "tr x = Some t"
    and af: "tick_after (zt_protocol env out p t (z_id x)) c x w w1"
    by (rule deliver_protocol[OF conjunct1[OF inv] assms(2,3)])
  have "zt_protocol env out p t (z_id x) = Orphaned"
    using assms(4,5) by (auto simp: submit_effect_def)
  then have w1: "ctx_heap w1 c = Some x" "orphan w1 c" "done_log w1 = done_log w"
    using af by (simp_all add: tick_after_def)
  note keep = deliver_keeps[OF conjunct1[OF inv] assms(3)]
  have w': "zt_inv {} {} w'" "owed w' = k + n" "orphan w' c" "ctx_heap w' c = Some x"
    using orphan_steps[OF assms(6) keep(1) _ w1(2)] inv keep(2,3) w1(1) by simp_all
  have t: "t \<in> dom (transactions w')"
    by (rule ctx_invD[OF zt_invD(2)[OF w'(1)] w'(4)]) (use x in auto)
  have "length (done_log w') < k + n" if "done_cb x \<noteq> None"
  proof -
    have "c \<in> live_cbs w'" using w'(4) that by (simp add: live_cbs_def)
    then have "0 < card (live_cbs w')"
      using finite_live_cbs[OF zt_invD(2)[OF w'(1)]] card_gt_0_iff by blast
    then show ?thesis using w'(2) by (simp add: owed_def)
  qed
  then show ?thesis using x w1(3) w'(3,4) t by (auto simp: orphan_def)
qed

end
