(* ===== verification/Zonetick_Effect.thy ===== *)
theory Zonetick_Effect
  imports Zonetick_Progress
begin

text \<open>
  What a tick does to the database: the writes of a transaction that is being committed are
  the advanced values of exactly what it read, so an applied commit advances the zone and
  touches nothing else. The client's part is a hypothesis on the parameter \<open>client\<close>
  (\<open>client_documented\<close>); that a range read is still current when the commit applies
  (\<open>range_current\<close>) is the serialisability the client promises.
\<close>

subsection \<open>The transaction of a waiting tick\<close>

text \<open>Runs in which no on_error future carries an error: every retry is granted.\<close>

fun retry_granted :: "fdb_request \<Rightarrow> fdb_outcome \<Rightarrow> bool" where
  "retry_granted (On_Error_Request t e) out \<longleftrightarrow> out_error out = 0"
| "retry_granted _ out \<longleftrightarrow> True"

fun phase_ok :: "zt_cb \<Rightarrow> u32 \<Rightarrow> fdb_transaction \<Rightarrow> bool" where
  "phase_ok ZT_ON_RANGE_READ n y \<longleftrightarrow> writes y = []"
| "phase_ok ZT_ON_COMMIT n y \<longleftrightarrow>
     (case reads y of None \<Rightarrow> False | Some (kvs, rest) \<Rightarrow> writes y = tick_kvs n kvs)"
| "phase_ok ZT_ON_ERROR_RETRY n y \<longleftrightarrow> True"

definition tx_inv :: "zt_world \<Rightarrow> bool" where
  "tx_inv w \<longleftrightarrow> (\<forall>f c p x t y. waits w f c p \<and> ctx_heap w c = Some x \<and> tr x = Some t \<and>
     transactions w t = Some y \<longrightarrow> phase_ok p (tick_count x) y)"

lemma ready_transactions:
  assumes "futures w f = Some req" and "transactions w (request_transaction req) = Some y"
  shows "become_ready client out f w = w\<lparr>
    transactions := (transactions w)(request_transaction req \<mapsto> fst (client out req (y, store w))),
    store := snd (client out req (y, store w))\<rparr>"
  using assms by (simp add: become_ready_def split: prod.split)

lemma request_ok_transaction: "request_ok req p t x \<Longrightarrow> request_transaction req = t"
  by (auto simp: request_ok_def range_request_def)

text \<open>The state of the transaction and of the store when the handler takes its effect.\<close>

lemma readied:
  assumes inv: "zt_inv {} {} w" and wt: "waits w f c p"
    and x: "ctx_heap w c = Some x" and t: "tr x = Some t" and y: "transactions w t = Some y"
  obtains req where "futures w f = Some req" and "request_ok req p t x"
    and "transactions ((become_ready client out f w)\<lparr>registered := R\<rparr>) =
      (transactions w)(t \<mapsto> fst (client out req (y, store w)))"
    and "store ((become_ready client out f w)\<lparr>registered := R\<rparr>) = snd (client out req (y, store w))"
proof -
  obtain a cc x' t' req where "ctx_heap w c = Some x'" "tr x' = Some t'" "futures w f = Some req"
    "request_ok req p t' x'" by (rule waits_tick[OF inv wt])
  then have req: "futures w f = Some req" "request_ok req p t x" using x t by simp_all
  then show ?thesis
    using that[OF req] ready_transactions[of w f req y client out] request_ok_transaction[OF req(2)] y
    by simp
qed

lemma loaded_transactions:
  "transactions (loaded out p t n w) =
     (if p = ZT_ON_RANGE_READ \<and> out_error out = 0 \<and> out_kv_error out = 0
      then (transactions w)(t := map_option (\<lambda>y. y\<lparr>writes := writes y @ tick_kvs n (out_kvs out)\<rparr>)
             (transactions w t))
      else transactions w)"
  by (simp add: loaded_def add_writes_def)

lemma phase_next:
  assumes client: "client_documented client" and req: "request_ok req p t x"
    and ph: "phase_ok p (tick_count x) y" and ok: "retry_granted req out"
    and e: "zt_protocol env out p t (z_id x) = Waiting req' q"
    and y': "transactions (loaded out p t (tick_count x) w) t = Some y'"
      "transactions w t = Some (fst (client out req (y, m)))"
  shows "phase_ok q (tick_count x) y'"
proof (cases p)
  case ZT_ON_RANGE_READ
  then have r: "req = range_request t (z_id x)" using req by (auto simp: request_ok_def)
  show ?thesis
  proof (cases "out_error out = 0 \<and> out_kv_error out = 0")
    case True
    then have "q = ZT_ON_COMMIT" using e ZT_ON_RANGE_READ
      by (auto simp: submit_effect_def split: if_splits)
    then show ?thesis
      using True ZT_ON_RANGE_READ y' ph client
      by (auto simp: loaded_transactions r range_request_def client_documented_def client_reads_def)
  next
    case False
    then have "q = ZT_ON_ERROR_RETRY" using e ZT_ON_RANGE_READ
      by (auto simp: submit_effect_def split: if_splits)
    then show ?thesis by simp
  qed
next
  case ZT_ON_COMMIT
  then have "q = ZT_ON_ERROR_RETRY" using e by (auto simp: submit_effect_def split: if_splits)
  then show ?thesis by simp
next
  case ZT_ON_ERROR_RETRY
  then obtain err where r: "req = On_Error_Request t err" using req by (auto simp: request_ok_def)
  moreover have "q = ZT_ON_RANGE_READ" using e ZT_ON_ERROR_RETRY by (auto split: if_splits)
  moreover have "out_error out = 0" using ok r by simp
  ultimately show ?thesis
    using y' client ZT_ON_ERROR_RETRY
    by (auto simp: loaded_transactions client_documented_def client_resets_def empty_transaction_def)
qed

lemma other_transaction:
  assumes "zt_inv F A w" and "ctx_heap w c = Some x" and "ctx_heap w c' = Some x'" and "c \<noteq> c'"
  shows "tr x \<noteq> tr x'"
  using zt_invD(2)[OF assms(1)] assms(2-4) unfolding ctx_inv_def by blast

text \<open>A delivery to one tick leaves the transactions of the others alone, and takes its own to the
  state its next phase expects.\<close>

lemma deliver_other_transaction:
  assumes inv: "zt_inv {} {} w" and wt: "waits w f c p" and d: "zt_deliver client env out f w = Some w'"
    and x': "ctx_heap w c' = Some x'" "tr x' = Some t'" "c' \<noteq> c"
  shows "transactions w' t' = transactions w t'"
proof -
  obtain a x t w1 w2 where x: "ctx_heap w c = Some x" and t: "tr x = Some t"
    and w1: "w1 = loaded out p t (tick_count x)
        ((become_ready client out f w)\<lparr>registered := (registered w)(f := None)\<rparr>)"
    and eff: "effect (zt_protocol env out p t (z_id x)) c x w1 w2" and w': "w' = released f a w2"
    by (rule deliver_waits[OF inv wt d])
  obtain y where y: "transactions w t = Some y" using ctx_live[OF inv x t] by blast
  obtain req where tr: "transactions ((become_ready client out f w)\<lparr>registered := (registered w)(f := None)\<rparr>) =
      (transactions w)(t \<mapsto> fst (client out req (y, store w)))"
    by (rule readied[OF inv wt x t y])
  have ne: "t' \<noteq> t" using other_transaction[OF inv x x'(1)] x'(2,3) t by auto
  have "transactions w' t' = transactions w1 t'" using effect_frame(4)[OF eff, of t'] ne t by (simp add: w')
  then show ?thesis using ne tr by (simp add: w1 loaded_transactions)
qed

lemma deliver_own_transaction:
  assumes inv: "zt_inv {} {} w" and tx: "tx_inv w" and client: "client_documented client"
    and fut: "futures w f = Some req" and ok: "retry_granted req out"
    and wt: "waits w f c p" and d: "zt_deliver client env out f w = Some w'"
    and x: "ctx_heap w c = Some x" and t: "tr x = Some t"
    and e: "zt_protocol env out p t (z_id x) = Waiting rq q" and y': "transactions w' t = Some y'"
  shows "phase_ok q (tick_count x) y'"
proof -
  obtain a x0 t0 w1 w2 where x0: "ctx_heap w c = Some x0" "tr x0 = Some t0"
    and w1: "w1 = loaded out p t0 (tick_count x0)
        ((become_ready client out f w)\<lparr>registered := (registered w)(f := None)\<rparr>)"
    and eff: "effect (zt_protocol env out p t0 (z_id x0)) c x0 w1 w2" and w': "w' = released f a w2"
    by (rule deliver_waits[OF inv wt d])
  have same: "x0 = x" "t0 = t" using x0 x t by simp_all
  obtain y where y: "transactions w t = Some y" using ctx_live[OF inv x t] by blast
  obtain req' where r: "futures w f = Some req'" "request_ok req' p t x"
    and tr: "transactions ((become_ready client out f w)\<lparr>registered := (registered w)(f := None)\<rparr>) =
      (transactions w)(t \<mapsto> fst (client out req' (y, store w)))"
    by (rule readied[OF inv wt x t y])
  have rq: "req' = req" using r fut by simp
  have "transactions w1 t = Some y'" using y' eff by (simp add: same e w')
  then show ?thesis
    using phase_next[OF client r(2) _ ok[folded rq] e, of y _ y' "store w"] tr tx wt x t y
    by (simp add: w1 same tx_inv_def)
qed

lemma tx_inv_deliver:
  assumes inv: "zt_inv {} {} w" and tx: "tx_inv w" and client: "client_documented client"
    and fut: "futures w f = Some req" and ok: "retry_granted req out"
    and d: "zt_deliver client env out f w = Some w'"
  shows "tx_inv w'"
proof -
  obtain c p where wt: "waits w f c p" by (rule deliver_waiting[OF inv d])
  obtain x t where x: "ctx_heap w c = Some x" "tr x = Some t"
    and ta: "tick_after (zt_protocol env out p t (z_id x)) c x w w'"
    and ww: "\<forall>g c' q. waits w' g c' q \<longleftrightarrow> g \<noteq> f \<and> waits w g c' q \<or>
      g = next_handle w \<and> c' = c \<and> (\<exists>req. zt_protocol env out p t (z_id x) = Waiting req q)"
    and fr: "\<forall>c'. c' \<noteq> c \<longrightarrow> ctx_heap w' c' = ctx_heap w c'"
    by (rule deliver_protocol[OF inv wt d])
  show ?thesis unfolding tx_inv_def
  proof (intro allI impI, elim conjE)
    fix g c' q x' t' y'
    assume g: "waits w' g c' q" and x': "ctx_heap w' c' = Some x'" "tr x' = Some t'"
      and y': "transactions w' t' = Some y'"
    show "phase_ok q (tick_count x') y'"
    proof (cases "c' = c")
      case True
      have "g = next_handle w \<and> (\<exists>req. zt_protocol env out p t (z_id x) = Waiting req q)"
        using ww g True waits_unique[OF inv wt] by auto
      then obtain rq where e: "zt_protocol env out p t (z_id x) = Waiting rq q" by blast
      have "x' = x" using ta x' True by (simp add: e tick_after_def)
      then show ?thesis
        using deliver_own_transaction[OF inv tx client fut ok wt d x e] x x' y' by simp
    next
      case False
      then have "waits w g c' q" "ctx_heap w c' = Some x'" using ww g fr x' by auto
      then show ?thesis
        using deliver_other_transaction[OF inv wt d _ x'(2) False] tx x'(2) y' unfolding tx_inv_def by simp
    qed
  qed
qed

lemma run_store:
  assumes inv: "zt_inv {} {} w" and db: "db (fdb_state w) \<noteq> None"
    and r: "zf_zonetick_run env z n d u w = Some (r, w')"
  shows "store w' = store w"
  using assms by (cases rule: run_cases) (auto simp: finished_def dest!: frame_same_but_log(4))

lemma tx_inv_mono:
  assumes "tx_inv w" and "transactions w' = transactions w"
    and "\<And>f c p. waits w' f c p \<Longrightarrow> waits w f c p \<and> ctx_heap w' c = ctx_heap w c"
  shows "tx_inv w'"
  using assms unfolding tx_inv_def by metis

lemma tx_inv_started:
  assumes inv: "zt_inv {} {} w" and db: "db (fdb_state w) \<noteq> None" and tx: "tx_inv w"
    and r: "zf_zonetick_run env z n d u w = Some (r, w')"
    and w': "w' = submitted (range_request (Suc (next_handle w)) z) ZT_ON_RANGE_READ (next_handle w) (created z n d u w)"
      "zt_inv {} {} w'"
  shows "tx_inv w'"
proof -
  let ?c = "next_handle w"
  have "waits w' (Suc (Suc ?c)) ?c ZT_ON_RANGE_READ" using w'(1) by (simp add: waits_def)
  note one = waits_unique[OF w'(2) this]
  show ?thesis unfolding tx_inv_def
  proof (intro allI impI, elim conjE)
    fix f c p x t y
    assume wt: "waits w' f c p" and x: "ctx_heap w' c = Some x" "tr x = Some t"
      and y: "transactions w' t = Some y"
    show "phase_ok p (tick_count x) y"
    proof (cases "c = ?c")
      case True
      then have "p = ZT_ON_RANGE_READ" using one wt by blast
      then show ?thesis using True x y w'(1) by (auto simp: empty_transaction_def)
    next
      case False
      then have xw: "ctx_heap w c = Some x" using x w'(1) by simp
      then have c: "c < next_handle w" using ctx_invD[OF zt_invD(2)[OF inv]] by blast
      have "t \<in> dom (transactions w)" using ctx_live[OF inv xw x(2)] .
      then have "t \<noteq> Suc ?c" using handles_fresh_None(3)[OF zt_invD(1)[OF inv], of "Suc ?c"] by auto
      then have "transactions w t = Some y" using y w'(1) by simp
      then show ?thesis
        using tx wt waits_run(1)[OF inv db r c] xw x(2) unfolding tx_inv_def by blast
    qed
  qed
qed

lemma tx_inv_run:
  assumes inv: "zt_inv {} {} w" and db: "db (fdb_state w) \<noteq> None" and tx: "tx_inv w"
    and r: "zf_zonetick_run env z n d u w = Some (r, w')"
  shows "tx_inv w'"
  using inv db r
proof (cases rule: run_cases)
  case refused
  then show ?thesis
    using frame_same_but_log[of w w'] waits_cong[of w' w] by (intro tx_inv_mono[OF tx]) simp_all
next
  case waiting
  then show ?thesis using tx_inv_started[OF inv db tx r] by simp
next
  case (ended w1)
  let ?c = "next_handle w"
  note fr = frame_same_but_log[OF ended(2)]
  have tr: "transactions w' = transactions w"
    using ended(3) fr handles_fresh_None(3)[OF zt_invD(1)[OF inv], of "Suc ?c"]
    by (simp add: finished_def fun_upd_fresh_cancel domIff)
  have "waits w' = waits w" by (rule waits_cong) (simp_all add: ended(3) finished_def fr)
  moreover have "ctx_heap w' = ctx_heap w"
    using ended(3) fr ctx_fresh[OF inv, of ?c] by (simp add: finished_def fun_upd_fresh_cancel domIff)
  ultimately show ?thesis by (intro tx_inv_mono[OF tx tr]) simp
qed

lemma reach_tx_inv:
  assumes "zt_reach client retry_granted k w" and "client_documented client"
  shows "tx_inv w"
  using assms
proof (induction rule: zt_reach.induct)
  case (init w)
  then show ?case by (simp add: zt_initial_def tx_inv_def)
next
  case (step k w j w')
  note inv = reach_zt_inv[OF step(1)]
  show ?case using step(2)
  proof cases
    case (run env z n d u r)
    then show ?thesis using tx_inv_run[OF inv] step by blast
  next
    case (deliver f req out env)
    then show ?thesis using tx_inv_deliver[OF inv(1)] step by blast
  next
    case (other m)
    then have "transactions w' = transactions w" "waits w' = waits w" "ctx_heap w' = ctx_heap w"
      using waits_cong[of w' w] by simp_all
    then show ?thesis using tx_inv_mono[of w w'] step(3)[OF step(4)] by metis
  qed
qed

subsection \<open>The effect on the database\<close>

lemma deliver_store:
  assumes inv: "zt_inv {} {} w" and client: "client_documented client" and wt: "waits w f c p"
    and x: "ctx_heap w c = Some x" and t: "tr x = Some t" and y: "transactions w t = Some y"
    and d: "zt_deliver client env out f w = Some w'"
  shows "store w' =
    (if p = ZT_ON_COMMIT \<and> out_applied out then apply_writes (writes y) (store w) else store w)"
proof -
  obtain a x' t' w1 w2 where x': "ctx_heap w c = Some x'" "tr x' = Some t'"
    and w1: "w1 = loaded out p t' (tick_count x')
        ((become_ready client out f w)\<lparr>registered := (registered w)(f := None)\<rparr>)"
    and eff: "effect (zt_protocol env out p t' (z_id x')) c x' w1 w2" and w': "w' = released f a w2"
    by (rule deliver_waits[OF inv wt d])
  obtain req where r: "request_ok req p t x"
    and st: "store ((become_ready client out f w)\<lparr>registered := (registered w)(f := None)\<rparr>) =
      snd (client out req (y, store w))"
    by (rule readied[OF inv wt x t y])
  have "store w' = snd (client out req (y, store w))"
    using effect_frame(2)[OF eff] st by (simp add: w' w1)
  then show ?thesis
    using r client
    by (cases p) (auto simp: request_ok_def range_request_def client_documented_def client_reads_def
        client_commits_def client_resets_def)
qed

text \<open>A range read that is complete and current: it lists, once each, the entries the store has
  in the zone's range. This is what the client promises of a read without a further page by a
  transaction whose commit is applied.\<close>

definition range_current :: "u32 \<Rightarrow> key_value list \<Rightarrow> (bytes \<rightharpoonup> bytes) \<Rightarrow> bool" where
  "range_current z kvs m \<longleftrightarrow>
     distinct (map fst kvs) \<and> set kvs = {(k, v). m k = Some v \<and> in_zone_range z k}"

text \<open>The specification of a tick: every value in the zone's range is advanced, everything else
  stays.\<close>

definition tick_bytes :: "u32 \<Rightarrow> bytes \<Rightarrow> bytes" where
  "tick_bytes n v = packet_wire (tick_packet n (stored_packet v))"

definition zone_ticked :: "u32 \<Rightarrow> u32 \<Rightarrow> (bytes \<rightharpoonup> bytes) \<Rightarrow> (bytes \<rightharpoonup> bytes)" where
  "zone_ticked z n m =
     (\<lambda>k. if in_zone_range z k then map_option (tick_bytes n) (m k) else m k)"

lemma tick_kvs_keys: "map fst (tick_kvs n kvs) = map fst kvs"
  by (induction kvs) auto

lemma tick_kvs_set: "(k, v) \<in> set kvs \<Longrightarrow> (k, tick_bytes n v) \<in> set (tick_kvs n kvs)"
  by (force simp: tick_kvs_def tick_bytes_def)

lemma apply_tick_kvs:
  assumes "distinct (map fst kvs)"
  shows "(k, v) \<in> set kvs \<Longrightarrow> apply_writes (tick_kvs n kvs) m k = Some (tick_bytes n v)"
    and "k \<notin> fst ` set kvs \<Longrightarrow> apply_writes (tick_kvs n kvs) m k = m k"
proof -
  show "(k, v) \<in> set kvs \<Longrightarrow> apply_writes (tick_kvs n kvs) m k = Some (tick_bytes n v)"
    using assms by (intro apply_writes_in) (auto simp: tick_kvs_keys tick_kvs_set)
  have "fst ` set (tick_kvs n kvs) = fst ` set kvs"
    using tick_kvs_keys[of n kvs] by (metis list.set_map)
  then show "k \<notin> fst ` set kvs \<Longrightarrow> apply_writes (tick_kvs n kvs) m k = m k"
    by (intro apply_writes_notin) simp
qed

lemma apply_tick_range:
  assumes "range_current z kvs m"
  shows "apply_writes (tick_kvs n kvs) m = zone_ticked z n m"
proof
  fix k
  have dist: "distinct (map fst kvs)" and kvs: "set kvs = {(k, v). m k = Some v \<and> in_zone_range z k}"
    using assms by (simp_all add: range_current_def)
  show "apply_writes (tick_kvs n kvs) m k = zone_ticked z n m k"
  proof (cases "in_zone_range z k \<and> m k \<noteq> None")
    case True
    then obtain v where "(k, v) \<in> set kvs" "m k = Some v" using kvs by auto
    then show ?thesis using apply_tick_kvs(1)[OF dist] True by (simp add: zone_ticked_def)
  next
    case False
    then have "k \<notin> fst ` set kvs" using kvs by auto
    then show ?thesis using apply_tick_kvs(2)[OF dist] False by (auto simp: zone_ticked_def)
  qed
qed

text \<open>The pending commit of a reachable tick.\<close>

lemma pending_commit:
  assumes reach: "zt_reach client retry_granted k w" and client: "client_documented client"
    and wt: "waits w f c ZT_ON_COMMIT"
  obtains x t y kvs m where "ctx_heap w c = Some x" "tr x = Some t" "transactions w t = Some y"
    "reads y = Some (kvs, m)" "writes y = tick_kvs (tick_count x) kvs"
proof -
  note inv = reach_zt_inv(1)[OF reach]
  obtain x t where x: "ctx_heap w c = Some x" "tr x = Some t" by (rule waits_tick[OF inv wt])
  obtain y where y: "transactions w t = Some y" using ctx_live[OF inv x] by blast
  have "phase_ok ZT_ON_COMMIT (tick_count x) y"
    using reach_tx_inv[OF reach client] wt x y unfolding tx_inv_def by blast
  then show ?thesis using that[OF x y] by (auto split: option.splits)
qed

text \<open>C2: what an applied commit does to the database. In a reachable world whose retries were all
  granted, with a client that behaves as documented, take the pending commit of a tick. Its
  transaction has read some list of entries. When the commit is applied, every key that was not
  read is as it was, whether or not it is in the zone's range; every key that was read (once
  each, as a range read lists them) has the value that was read advanced by the tick count. So
  when that read is complete and still current, the database afterwards is the database before
  with every value in the zone's range advanced by the tick count, and every other key (any
  other zone's entities included) as it was.\<close>

theorem commit_ticks_zone:
  assumes "zt_reach client retry_granted k w" and "client_documented client"
    and "waits w f c ZT_ON_COMMIT" and "out_applied out"
    and "zt_deliver client env out f w = Some w'"
  shows "\<exists>x t y kvs more. ctx_heap w c = Some x \<and> tr x = Some t \<and> transactions w t = Some y \<and>
    reads y = Some (kvs, more) \<and>
    (\<forall>key. key \<notin> fst ` set kvs \<longrightarrow> store w' key = store w key) \<and>
    (distinct (map fst kvs) \<longrightarrow>
       (\<forall>(key, v) \<in> set kvs. store w' key = Some (tick_bytes (tick_count x) v))) \<and>
    (range_current (z_id x) kvs (store w) \<longrightarrow>
       store w' = zone_ticked (z_id x) (tick_count x) (store w))"
proof -
  obtain x t y kvs m where x: "ctx_heap w c = Some x" "tr x = Some t" "transactions w t = Some y"
    "reads y = Some (kvs, m)" "writes y = tick_kvs (tick_count x) kvs"
    by (rule pending_commit[OF assms(1-3)])
  have "store w' = apply_writes (tick_kvs (tick_count x) kvs) (store w)"
    using deliver_store[OF reach_zt_inv(1)[OF assms(1)] assms(2,3) x(1-3) assms(5)] assms(4) x(5)
    by simp
  moreover have "fst ` set (tick_kvs (tick_count x) kvs) = fst ` set kvs"
    using tick_kvs_keys[of "tick_count x" kvs] by (metis list.set_map)
  ultimately have "\<forall>key. key \<notin> fst ` set kvs \<longrightarrow> store w' key = store w key"
    "distinct (map fst kvs) \<longrightarrow> (\<forall>(key, v) \<in> set kvs. store w' key = Some (tick_bytes (tick_count x) v))"
    "range_current (z_id x) kvs (store w) \<longrightarrow> store w' = zone_ticked (z_id x) (tick_count x) (store w)"
    using apply_tick_range[of "z_id x" kvs "store w" "tick_count x"] apply_writes_notin apply_tick_kvs(1) by auto
  then show ?thesis using x by blast
qed

text \<open>C25: an entity beyond the first page is not ticked. Whatever the read returned, an applied
  commit leaves every key that was not in it as it was, while an error-free commit ends the
  tick and reports success: when the client says that more entries follow, the tick succeeds
  without them.\<close>

theorem unread_entity_not_ticked:
  assumes "zt_reach client retry_granted k w" and "client_documented client"
    and "waits w f c ZT_ON_COMMIT" and "out_error out = 0"
    and "zt_deliver client env out f w = Some w'"
  shows "\<exists>x t y kvs more. ctx_heap w c = Some x \<and> tr x = Some t \<and> transactions w t = Some y \<and>
    reads y = Some (kvs, more) \<and> (key \<notin> fst ` set kvs \<longrightarrow> store w' key = store w key) \<and>
    done_log w' = done_log w @ report x True"
proof -
  note inv = reach_zt_inv(1)[OF assms(1)]
  obtain x t y kvs m where x: "ctx_heap w c = Some x" "tr x = Some t" "transactions w t = Some y"
    "reads y = Some (kvs, m)" "writes y = tick_kvs (tick_count x) kvs"
    by (rule pending_commit[OF assms(1-3)])
  have keys: "fst ` set (tick_kvs (tick_count x) kvs) = fst ` set kvs"
    using tick_kvs_keys[of "tick_count x" kvs] by (metis list.set_map)
  have "store w' key = store w key" if "key \<notin> fst ` set kvs"
    using deliver_store[OF inv assms(2,3) x(1-3) assms(5)] apply_writes_notin[of key] that
    by (simp add: x(5) keys)
  moreover have "done_log w' = done_log w @ report x True"
    by (rule deliver_protocol[OF inv assms(3,5)]) (use x assms(4) in \<open>simp add: tick_after_def\<close>)
  ultimately show ?thesis using x by blast
qed

text \<open>The database changes only by an applied commit. Starting a tick, a range read, a retry
  and a commit that is not applied leave the store as it is, whatever else they do.\<close>

lemma store_changes_by_commit_only:
  assumes "zt_reach client ok k w" and "client_documented client"
  shows "(zf_zonetick_run renv z n d u w = Some (r, w') \<longrightarrow> store w' = store w) \<and>
    (waits w f c p \<and> zt_deliver client env out f w = Some w' \<and> store w' \<noteq> store w \<longrightarrow>
      p = ZT_ON_COMMIT \<and> out_applied out)"
proof (rule conjI; rule impI; (elim conjE)?)
  note inv = reach_zt_inv[OF assms(1)]
  show "zf_zonetick_run renv z n d u w = Some (r, w') \<Longrightarrow> store w' = store w"
    by (rule run_store[OF inv])
  assume wt: "waits w f c p" and d: "zt_deliver client env out f w = Some w'" "store w' \<noteq> store w"
  obtain x t where x: "ctx_heap w c = Some x" "tr x = Some t" by (rule waits_tick[OF inv(1) wt])
  obtain y where "transactions w t = Some y" using ctx_live[OF inv(1) x] by blast
  then show "p = ZT_ON_COMMIT \<and> out_applied out"
    using deliver_store[OF inv(1) assms(2) wt x _ d(1)] d(2) by (auto split: if_splits)
qed

text \<open>A stored value in the form the encoder writes: a full packet with its reserved bytes clear.\<close>

definition canonical :: "bytes \<Rightarrow> bool" where
  "canonical v \<longleftrightarrow> packet_wire (stored_packet v) = v"

lemma canonical_wire: "packet_wf p \<Longrightarrow> canonical (packet_wire p)"
  by (simp add: canonical_def)

lemma canonical_length: "canonical v \<Longrightarrow> length v = 100"
  by (metis canonical_def length_packet_wire stored_packet_wf)

lemma apply_writes_cases: "apply_writes ws m k = Some v \<Longrightarrow> (k, v) \<in> set ws \<or> m k = Some v"
proof (induction ws arbitrary: m)
  case (Cons a ws)
  obtain k' v' where a: "a = (k', v')" by force
  have "apply_writes ws (m(k' \<mapsto> v')) k = Some v" using Cons.prems by (simp add: a)
  from Cons.IH[OF this] show ?case by (auto simp: a split: if_splits)
qed simp

lemma tick_kvs_canonical: "(k, v) \<in> set (tick_kvs n kvs) \<Longrightarrow> canonical v"
  by (auto simp: tick_kvs_def canonical_wire)

text \<open>C13: the program stores only well-typed entities. Whatever a delivery changes in the database,
  every value it has written is a canonical packet of exactly 100 bytes, which the decoder
  reads back without loss; values it did not write are as they were. So a database whose
  values are all canonical stays so, whatever futures are delivered.\<close>

theorem store_stays_typed:
  assumes "zt_reach client retry_granted k w" and "client_documented client"
    and "zt_deliver client env out f w = Some w'"
  shows "(\<forall>key v. store w' key = Some v \<and> store w key \<noteq> Some v \<longrightarrow>
      canonical v \<and> length v = 100 \<and> (\<exists>p. zf_kv_decode_entity v 100 = Some p \<and> packet_wire p = v)) \<and>
    ((\<forall>key v. store w key = Some v \<longrightarrow> canonical v) \<longrightarrow> (\<forall>key v. store w' key = Some v \<longrightarrow> canonical v))"
proof -
  note inv = reach_zt_inv(1)[OF assms(1)]
  obtain c p where wt: "waits w f c p" by (rule deliver_waiting[OF inv assms(3)])
  have new: "canonical v" if v: "store w' key = Some v" "store w key \<noteq> Some v" for key v
  proof -
    obtain x t where x: "ctx_heap w c = Some x" "tr x = Some t" by (rule waits_tick[OF inv wt])
    obtain y where y: "transactions w t = Some y" using ctx_live[OF inv x] by blast
    note st = deliver_store[OF inv assms(2) wt x y assms(3)]
    then have p: "p = ZT_ON_COMMIT" "store w' = apply_writes (writes y) (store w)"
      using v by (auto split: if_splits)
    obtain kvs where "writes y = tick_kvs (tick_count x) kvs"
      using pending_commit[OF assms(1,2) wt[unfolded p(1)]] x y by (metis option.inject)
    then show ?thesis using apply_writes_cases[of "writes y" "store w" key v] v p(2) tick_kvs_canonical by auto
  qed
  have dec: "zf_kv_decode_entity v 100 = Some (stored_packet v)" if "canonical v" for v
    using decode_stored[of v] canonical_length[OF that] by simp
  show ?thesis
  proof (intro conjI allI impI)
    fix key v assume "store w' key = Some v \<and> store w key \<noteq> Some v"
    then have "canonical v" using new by blast
    then show "canonical v" "length v = 100" "\<exists>p. zf_kv_decode_entity v 100 = Some p \<and> packet_wire p = v"
      using dec canonical_length by (simp_all add: canonical_def)
  next
    show "canonical v" if "\<forall>key v. store w key = Some v \<longrightarrow> canonical v" "store w' key = Some v" for key v
      using that new by blast
  qed
qed

end
