(* ===== verification/Zonetick_Ticks.thy ===== *)
theory Zonetick_Ticks
  imports Zonetick_Effect
begin

text \<open>
  Whole ticks, from the call of \<open>zf_zonetick_run\<close> to its completion callback: the steps of one
  tick chained, with the database before and after.
\<close>

subsection \<open>Whole ticks\<close>

text \<open>A tick at one point of its life: what it waits for, with the invariants, the rest of the
  contexts, the store and the callbacks made so far.\<close>

definition at_phase :: "zt_world \<Rightarrow> handle \<Rightarrow> handle \<Rightarrow> zt_cb \<Rightarrow> zonetick_ctx_t
    \<Rightarrow> (handle \<rightharpoonup> zonetick_ctx_t) \<Rightarrow> (bytes \<rightharpoonup> bytes) \<Rightarrow> (handle \<times> handle \<times> bool) list \<Rightarrow> bool" where
  "at_phase w f c p x cs m l \<longleftrightarrow> zt_inv {} {} w \<and> tx_inv w \<and> waits w f c p \<and>
     ctx_heap w = cs(c \<mapsto> x) \<and> cs c = None \<and> store w = m \<and> done_log w = l"

lemma at_phaseD:
  assumes "at_phase w f c p x cs m l"
  shows "zt_inv {} {} w" "tx_inv w" "waits w f c p" "ctx_heap w c = Some x"
    "ctx_heap w = cs(c \<mapsto> x)" "store w = m" "done_log w = l"
  using assms by (simp_all add: at_phase_def)

lemma at_phase_deliverable:
  assumes ph: "at_phase w f c p x cs m l" and "outcome_defined out p (tick_count x)"
  obtains w' where "zt_deliver client env out f w = Some w'"
proof -
  note i = at_phaseD[OF ph]
  obtain a cc where "registered w f = Some a" "callback_heap w a = Some cc" "ctx cc = c" "cb cc = p"
    using i(3) by (rule waitsD)
  then show ?thesis
    using deliver_defined_iff[OF i(1), of f a cc x client env out] i(4) assms(2) that by auto
qed

text \<open>The step of a tick that goes on waiting.\<close>

lemma phase_waiting:
  assumes ph: "at_phase w f c p x cs m l" and client: "client_documented client"
    and defd: "outcome_defined out p (tick_count x)"
    and ok: "\<And>req. request_ok req p (the (tr x)) x \<Longrightarrow> retry_granted req out"
    and e: "\<And>t. \<exists>req. zt_protocol env out p t (z_id x) = Waiting req q"
    and m': "\<And>y. transactions w (the (tr x)) = Some y \<Longrightarrow>
      m' = (if p = ZT_ON_COMMIT \<and> out_applied out then apply_writes (writes y) m else m)"
  shows "\<exists>w'. zt_deliver client env out f w = Some w' \<and> at_phase w' (next_handle w) c q x cs m' l"
proof -
  note i = at_phaseD[OF ph]
  obtain w' where d: "zt_deliver client env out f w = Some w'"
    by (rule at_phase_deliverable[OF ph defd])
  obtain x' t where x: "ctx_heap w c = Some x'" "tr x' = Some t"
    and ta: "tick_after (zt_protocol env out p t (z_id x')) c x' w w'"
    and fr: "\<forall>c'. c' \<noteq> c \<longrightarrow> ctx_heap w' c' = ctx_heap w c'"
    by (rule deliver_protocol[OF i(1,3) d])
  have x': "x' = x" using x i(4) by simp
  obtain y where y: "transactions w t = Some y" using ctx_live[OF i(1) x] by blast
  obtain req where req: "futures w f = Some req" "request_ok req p t x"
    using i(3,4) x x' by (auto elim!: waits_tick[OF i(1)])
  have "tx_inv w'"
    using tx_inv_deliver[OF i(1,2) client req(1) _ d] ok req(2) x x' by simp
  moreover have "store w' = m'"
    using deliver_store[OF i(1) client i(3) x y d] m'[of y] y i(6) x x' by simp
  moreover have "ctx_heap w' = cs(c \<mapsto> x)" "done_log w' = l" "waits w' (next_handle w) c q"
    using ta fr e[of t] x x' i(5,7) by (auto simp: tick_after_def)
  ultimately show ?thesis
    using d deliver_keeps(1)[OF i(1) d] ph by (simp add: at_phase_def)
qed

definition good_read :: "fdb_outcome \<Rightarrow> u32 \<Rightarrow> bool" where
  "good_read out n \<longleftrightarrow> out_error out = 0 \<and> out_kv_error out = 0 \<and> kvs_defined n (out_kvs out)"

lemma read_recorded:
  assumes ph: "at_phase w f c ZT_ON_RANGE_READ x cs m l" and client: "client_documented client"
    and good: "good_read out (tick_count x)" and env: "submit_ok env"
    and d: "zt_deliver client env out f w = Some w'"
  shows "\<exists>y. transactions w' (the (tr x)) = Some y \<and> reads y = Some (out_kvs out, out_more out)"
proof -
  note i = at_phaseD[OF ph]
  obtain a x' t w1 w2 where x': "ctx_heap w c = Some x'" "tr x' = Some t"
    and w1: "w1 = loaded out ZT_ON_RANGE_READ t (tick_count x')
        ((become_ready client out f w)\<lparr>registered := (registered w)(f := None)\<rparr>)"
    and eff: "effect (zt_protocol env out ZT_ON_RANGE_READ t (z_id x')) c x' w1 w2"
    and w': "w' = released f a w2"
    by (rule deliver_waits[OF i(1,3) d])
  obtain y where y: "transactions w t = Some y" using ctx_live[OF i(1) x'] by blast
  obtain req where r: "request_ok req ZT_ON_RANGE_READ t x'"
    and tr: "transactions ((become_ready client out f w)\<lparr>registered := (registered w)(f := None)\<rparr>) =
      (transactions w)(t \<mapsto> fst (client out req (y, store w)))"
    by (rule readied[OF i(1,3) x' y])
  have "transactions w' t = transactions w1 t"
    using eff good env by (simp add: w' good_read_def submit_effect_def)
  then show ?thesis
    using tr good client r x' i(4)
    by (auto simp: w1 loaded_transactions good_read_def request_ok_def range_request_def
        client_documented_def client_reads_def)
qed

text \<open>The four steps of a tick.\<close>

lemma step_started:
  assumes reach: "zt_reach client retry_granted k w" and client: "client_documented client"
    and "\<not> calloc_null env" "create_error env = 0" "submit_ok (submit_env env)"
  shows "\<exists>w' f. zf_zonetick_run env z n d u w = Some (0, w') \<and>
    at_phase w' f (next_handle w) ZT_ON_RANGE_READ
      \<lparr>tr = Some (Suc (next_handle w)), z_id = z, tick_count = n, done_cb = d, user_ctx = u\<rparr>
      (ctx_heap w) (store w) (done_log w)"
proof -
  note inv = reach_zt_inv[OF reach]
  obtain w' where run: "zf_zonetick_run env z n d u w = Some (0, w')"
    and eff: "w' = submitted (range_request (Suc (next_handle w)) z) ZT_ON_RANGE_READ
      (next_handle w) (created z n d u w)" and inv': "zt_inv {} {} w'"
    using run_accepted[OF inv assms(3,4), of z n d u] assms(5) by auto
  have "waits w' (Suc (Suc (next_handle w))) (next_handle w) ZT_ON_RANGE_READ"
    by (simp add: eff waits_def)
  then show ?thesis
    using run inv' tx_inv_run[OF inv reach_tx_inv[OF reach client] run] eff ctx_fresh[OF inv(1)]
    unfolding at_phase_def by auto
qed

lemma step_read:
  assumes ph: "at_phase w f c ZT_ON_RANGE_READ x cs m l" and client: "client_documented client"
    and good: "good_read out (tick_count x)" and env: "submit_ok env"
  shows "\<exists>w' f' y. zt_deliver client env out f w = Some w' \<and>
    at_phase w' f' c ZT_ON_COMMIT x cs m l \<and> transactions w' (the (tr x)) = Some y \<and>
    writes y = tick_kvs (tick_count x) (out_kvs out)"
proof -
  have "\<exists>w'. zt_deliver client env out f w = Some w' \<and> at_phase w' (next_handle w) c ZT_ON_COMMIT x cs m l"
    using good env
    by (intro phase_waiting[OF ph client])
      (auto simp: outcome_defined_def good_read_def submit_effect_def request_ok_def range_request_def)
  then obtain w' where d: "zt_deliver client env out f w = Some w'"
    and ph': "at_phase w' (next_handle w) c ZT_ON_COMMIT x cs m l" by blast
  obtain y where y: "transactions w' (the (tr x)) = Some y" "reads y = Some (out_kvs out, out_more out)"
    using read_recorded[OF ph client good env d] by blast
  obtain t where "tr x = Some t"
    using ctx_invD[OF zt_invD(2)] at_phaseD(1,4)[OF ph'] by metis
  then have "phase_ok ZT_ON_COMMIT (tick_count x) y"
    using at_phaseD(2,3,4)[OF ph'] y unfolding tx_inv_def by fastforce
  then show ?thesis using d ph' y by auto
qed

lemma step_reported:
  assumes ph: "at_phase w f c ZT_ON_COMMIT x cs m l" and client: "client_documented client"
    and y: "transactions w (the (tr x)) = Some y"
    and out: "out_error out = 0"
  shows "\<exists>w'. zt_deliver client env out f w = Some w' \<and> ctx_heap w' = cs \<and>
    store w' = (if out_applied out then apply_writes (writes y) m else m) \<and> done_log w' = l @ report x True"
proof -
  note i = at_phaseD[OF ph]
  obtain w' where d: "zt_deliver client env out f w = Some w'"
    by (rule at_phase_deliverable[OF ph]) (simp add: outcome_defined_def)
  obtain x' t where x: "ctx_heap w c = Some x'" "tr x' = Some t"
    and ta: "tick_after (zt_protocol env out ZT_ON_COMMIT t (z_id x')) c x' w w'"
    and fr: "\<forall>c'. c' \<noteq> c \<longrightarrow> ctx_heap w' c' = ctx_heap w c'"
    by (rule deliver_protocol[OF i(1,3) d])
  have x': "x' = x" using x i(4) by simp
  have "store w' = (if out_applied out then apply_writes (writes y) m else m)"
    using deliver_store[OF i(1) client i(3) x _ d] y x x' out i(6) by simp
  moreover have "ctx_heap w' c = None" "done_log w' = l @ report x True"
    using ta out x' i(7) by (simp_all add: tick_after_def)
  moreover have "ctx_heap w' = cs"
  proof
    fix c' show "ctx_heap w' c' = cs c'"
      using fr i(5) \<open>ctx_heap w' c = None\<close> ph by (cases "c' = c") (auto simp: at_phase_def)
  qed
  ultimately show ?thesis using d by blast
qed

lemma step_committed:
  assumes "at_phase w f c ZT_ON_COMMIT x cs m l" and "client_documented client"
    and "transactions w (the (tr x)) = Some y" and "out_error out = 0" "out_applied out"
  shows "\<exists>w'. zt_deliver client env out f w = Some w' \<and> ctx_heap w' = cs \<and>
    store w' = apply_writes (writes y) m \<and> done_log w' = l @ report x True"
  using step_reported[OF assms(1-4)] assms(5) by simp

lemma step_unknown:
  assumes ph: "at_phase w f c ZT_ON_COMMIT x cs m l" and client: "client_documented client"
    and y: "transactions w (the (tr x)) = Some y"
    and out: "out_error out \<noteq> 0" "out_applied out" and env: "submit_ok env"
  shows "\<exists>w' f'. zt_deliver client env out f w = Some w' \<and>
    at_phase w' f' c ZT_ON_ERROR_RETRY x cs (apply_writes (writes y) m) l"
  using phase_waiting[OF ph client, of out env ZT_ON_ERROR_RETRY "apply_writes (writes y) m"] y out env
  by (auto simp: outcome_defined_def submit_effect_def request_ok_def)

lemma step_retried:
  assumes ph: "at_phase w f c ZT_ON_ERROR_RETRY x cs m l" and client: "client_documented client"
    and out: "out_error out = 0" and env: "submit_ok env"
  shows "\<exists>w' f'. zt_deliver client env out f w = Some w' \<and> at_phase w' f' c ZT_ON_RANGE_READ x cs m l"
proof -
  have "retry_granted req out" if "request_ok req ZT_ON_ERROR_RETRY t x" for req t
    using that out by (auto simp: request_ok_def)
  then show ?thesis
    using phase_waiting[OF ph client, of out env ZT_ON_RANGE_READ m] env
    by (simp add: outcome_defined_def) blast
qed

text \<open>C1: a tick that meets no error does its work. From any reachable world (any other ticks in
  flight), \<open>zf_zonetick_run\<close> returns 0; delivering the range read it submits and then the
  commit that submits is defined; afterwards the completion callback has been called once,
  with success, the context is released and no other tick's context changed; and if the range
  read was complete and current, the database is the old one with exactly this zone advanced
  by the tick count.\<close>

theorem tick_completes:
  assumes "zt_reach client retry_granted k w" and "client_documented client"
    and "\<not> calloc_null renv" and "create_error renv = 0" and "submit_ok (submit_env renv)"
    and "submit_ok env1" and "good_read out1 n"
    and "out_error out2 = 0" and "out_applied out2"
  shows "\<exists>w1 f1 w2 f2 w3. zf_zonetick_run renv z n (Some d) u w = Some (0, w1) \<and>
    zt_deliver client env1 out1 f1 w1 = Some w2 \<and>
    zt_deliver client env2 out2 f2 w2 = Some w3 \<and>
    done_log w3 = done_log w @ [(d, u, True)] \<and> ctx_heap w3 = ctx_heap w \<and>
    (range_current z (out_kvs out1) (store w) \<longrightarrow> store w3 = zone_ticked z n (store w))"
proof -
  let ?x = "\<lparr>tr = Some (Suc (next_handle w)), z_id = z, tick_count = n, done_cb = Some d, user_ctx = u\<rparr>"
  obtain w1 f1 where w1: "zf_zonetick_run renv z n (Some d) u w = Some (0, w1)"
    "at_phase w1 f1 (next_handle w) ZT_ON_RANGE_READ ?x (ctx_heap w) (store w) (done_log w)"
    using step_started[OF assms(1-5), of z n "Some d" u] by blast
  obtain w2 f2 y where w2: "zt_deliver client env1 out1 f1 w1 = Some w2"
    "at_phase w2 f2 (next_handle w) ZT_ON_COMMIT ?x (ctx_heap w) (store w) (done_log w)"
    "transactions w2 (the (tr ?x)) = Some y" "writes y = tick_kvs n (out_kvs out1)"
    using step_read[OF w1(2) assms(2) _ assms(6), of out1] assms(7) by auto
  obtain w3 where "zt_deliver client env2 out2 f2 w2 = Some w3" "ctx_heap w3 = ctx_heap w"
    "store w3 = apply_writes (writes y) (store w)" "done_log w3 = done_log w @ report ?x True"
    using step_committed[OF w2(2) assms(2) w2(3) assms(8,9)] by blast
  then show ?thesis
    using w1(1) w2(1,4) apply_tick_range[of z "out_kvs out1" "store w" n]
    by (intro exI[of _ w1] exI[of _ f1] exI[of _ w2] exI[of _ f2] exI[of _ w3])
      (simp add: report_def)
qed

text \<open>C24: a commit whose result is unknown can tick a zone twice. If the commit of a tick is
  applied but its future carries an error, on_error grants the retry, and the second round
  meets no error, then the single run, which reports success once, has advanced the zone by
  twice the tick count.\<close>

theorem unknown_result_ticks_twice:
  assumes "zt_reach client retry_granted k w" and "client_documented client"
    and "\<not> calloc_null renv" and "create_error renv = 0" and "submit_ok (submit_env renv)"
    and "submit_ok env" and "good_read out1 n" and "range_current z (out_kvs out1) (store w)"
    and "out_error unknown \<noteq> 0" and "out_applied unknown" and "out_error granted = 0"
    and "good_read out2 n" and "range_current z (out_kvs out2) (zone_ticked z n (store w))"
    and "out_error final = 0" and "out_applied final"
  shows "\<exists>w1 f1 w2 f2 w3 f3 w4 f4 w5 f5 w6. zf_zonetick_run renv z n (Some d) u w = Some (0, w1) \<and>
    zt_deliver client env out1 f1 w1 = Some w2 \<and> zt_deliver client env unknown f2 w2 = Some w3 \<and>
    zt_deliver client env granted f3 w3 = Some w4 \<and> zt_deliver client env out2 f4 w4 = Some w5 \<and>
    zt_deliver client env final f5 w5 = Some w6 \<and>
    done_log w6 = done_log w @ [(d, u, True)] \<and>
    store w6 = zone_ticked z n (zone_ticked z n (store w))"
proof -
  let ?x = "\<lparr>tr = Some (Suc (next_handle w)), z_id = z, tick_count = n, done_cb = Some d, user_ctx = u\<rparr>"
  let ?c = "next_handle w" and ?m = "zone_ticked z n (store w)"
  obtain w1 f1 where w1: "zf_zonetick_run renv z n (Some d) u w = Some (0, w1)"
    "at_phase w1 f1 ?c ZT_ON_RANGE_READ ?x (ctx_heap w) (store w) (done_log w)"
    using step_started[OF assms(1-5), of z n "Some d" u] by blast
  obtain w2 f2 y where w2: "zt_deliver client env out1 f1 w1 = Some w2"
    "at_phase w2 f2 ?c ZT_ON_COMMIT ?x (ctx_heap w) (store w) (done_log w)"
    "transactions w2 (the (tr ?x)) = Some y" "writes y = tick_kvs n (out_kvs out1)"
    using step_read[OF w1(2) assms(2) _ assms(6), of out1] assms(7) by auto
  obtain w3 f3 where w3: "zt_deliver client env unknown f2 w2 = Some w3"
    "at_phase w3 f3 ?c ZT_ON_ERROR_RETRY ?x (ctx_heap w) ?m (done_log w)"
    using step_unknown[OF w2(2) assms(2) w2(3) assms(9,10,6)] apply_tick_range[OF assms(8)] w2(4)
    by auto
  obtain w4 f4 where w4: "zt_deliver client env granted f3 w3 = Some w4"
    "at_phase w4 f4 ?c ZT_ON_RANGE_READ ?x (ctx_heap w) ?m (done_log w)"
    using step_retried[OF w3(2) assms(2,11,6)] by blast
  obtain w5 f5 y' where w5: "zt_deliver client env out2 f4 w4 = Some w5"
    "at_phase w5 f5 ?c ZT_ON_COMMIT ?x (ctx_heap w) ?m (done_log w)"
    "transactions w5 (the (tr ?x)) = Some y'" "writes y' = tick_kvs n (out_kvs out2)"
    using step_read[OF w4(2) assms(2) _ assms(6), of out2] assms(12) by auto
  obtain w6 where w6: "zt_deliver client env final f5 w5 = Some w6"
    "store w6 = apply_writes (writes y') ?m" "done_log w6 = done_log w @ report ?x True"
    using step_committed[OF w5(2) assms(2) w5(3) assms(14,15)] by blast
  have "store w6 = zone_ticked z n ?m" "done_log w6 = done_log w @ [(d, u, True)]"
    using w6(2,3) w5(4) apply_tick_range[OF assms(13)] by (simp_all add: report_def)
  then show ?thesis using w1(1) w2(1) w3(1) w4(1) w5(1) w6(1) by blast
qed

end
