(* ===== verification/Zonetick_Samples.thy ===== *)
theory Zonetick_Samples
  imports Zonetick_Ticks
begin

text \<open>
  A concrete process: two entities of two zones in the database, one tick of zone 7 with
  three steps in flight. The worlds below are reachable, and the theorems about reachable
  worlds are applied to them.
\<close>

subsection \<open>The worlds\<close>

definition sample_store :: "bytes \<rightharpoonup> bytes" where
  "sample_store = [entity_key 7 42 \<mapsto> packet_wire moving_packet, entity_key 8 1 \<mapsto> packet_wire moving_packet]"

definition sample_w0 :: zt_world where
  "sample_w0 =
     \<lparr>store = sample_store,
      fdb_state = \<lparr>db = Some 0, active_transactions = 0, max_transactions = 0\<rparr>,
      transactions = Map.empty, futures = Map.empty, callback_heap = Map.empty,
      registered = Map.empty, next_handle = 0, error_log = [],
      ctx_heap = Map.empty, done_log = []\<rparr>"

definition good_env :: fdb_env where
  "good_env = \<lparr>future_null = False, malloc_null = False, set_callback_error = 0\<rparr>"

definition bad_env :: fdb_env where
  "bad_env = \<lparr>future_null = True, malloc_null = False, set_callback_error = 0\<rparr>"

definition good_renv :: zt_run_env where
  "good_renv = \<lparr>calloc_null = False, create_error = 0, submit_env = good_env\<rparr>"

definition sample_read :: fdb_outcome where
  "sample_read = \<lparr>out_error = 0, out_kv_error = 0,
     out_kvs = [(entity_key 7 42, packet_wire moving_packet)], out_more = False, out_applied = False\<rparr>"

definition sample_reread :: fdb_outcome where
  "sample_reread = sample_read
     \<lparr>out_kvs := [(entity_key 7 42, packet_wire (tick_packet 3 moving_packet))]\<rparr>"

definition sample_done :: fdb_outcome where
  "sample_done = \<lparr>out_error = 0, out_kv_error = 0, out_kvs = [], out_more = False, out_applied = True\<rparr>"

definition sample_unknown :: fdb_outcome where
  "sample_unknown = sample_done\<lparr>out_error := 1021\<rparr>"

definition sample_w1 :: zt_world where
  "sample_w1 = submitted (range_request 1 7) ZT_ON_RANGE_READ 0 (created 7 3 (Some 99) 5 sample_w0)"

definition sample_w2 :: zt_world where
  "sample_w2 = the (zt_deliver reference_client good_env sample_read 2 sample_w1)"

definition lost_w2 :: zt_world where
  "lost_w2 = the (zt_deliver reference_client bad_env sample_read 2 sample_w1)"

definition failed_w2 :: zt_world where
  "failed_w2 = the (zt_deliver reference_client good_env sample_unknown 2 sample_w1)"

definition sample_ctx :: zonetick_ctx_t where
  "sample_ctx = \<lparr>tr = Some 1, z_id = 7, tick_count = 3, done_cb = Some 99, user_ctx = 5\<rparr>"

lemma sample_envs [simp]:
  "submit_ok good_env" "\<not> submit_ok bad_env" "\<not> calloc_null good_renv" "create_error good_renv = 0"
  "submit_env good_renv = good_env"
  by (simp_all add: good_env_def bad_env_def good_renv_def submit_ok_def)

lemma sample_outcomes [simp]:
  "out_error sample_read = 0" "out_kv_error sample_read = 0"
  "out_kvs sample_read = [(entity_key 7 42, packet_wire moving_packet)]"
  "out_error sample_reread = 0" "out_kv_error sample_reread = 0"
  "out_kvs sample_reread = [(entity_key 7 42, packet_wire (tick_packet 3 moving_packet))]"
  "out_error sample_done = 0" "out_applied sample_done"
  "out_error sample_unknown = 1021" "out_applied sample_unknown"
  by (simp_all add: sample_read_def sample_reread_def sample_done_def sample_unknown_def)

lemma sample_good [simp]: "good_read sample_read 3" "good_read sample_reread 3"
  by (simp_all add: good_read_def)
    (simp add: tick_defined_def tick_packet_def moved_def sint_i64_of in_i64_def)

lemma sample_current:
  "range_current 7 (out_kvs sample_read) sample_store"
  "range_current 7 (out_kvs sample_reread) (zone_ticked 7 3 sample_store)"
  by (auto simp: range_current_def sample_store_def zone_ticked_def tick_bytes_def
      entity_key_in_range_iff split: if_splits)

lemmas sample_current_simps [simp] = sample_current[simplified]

lemma sample_initial [simp]: "zt_initial sample_w0" "store sample_w0 = sample_store"
  "done_log sample_w0 = []" "ctx_heap sample_w0 = Map.empty" "next_handle sample_w0 = 0"
  "db (fdb_state sample_w0) \<noteq> None"
  by (simp_all add: sample_w0_def zt_initial_def)

lemma sample_reach0: "zt_reach client ok 0 sample_w0"
  by (simp add: zt_reach.init)

lemma sample_run: "zf_zonetick_run good_renv 7 3 (Some 99) 5 sample_w0 = Some (0, sample_w1)"
  using run_accepted[OF zt_inv_initial sample_initial(6), of good_renv 7 3 "Some 99" 5]
  by (auto simp: sample_w1_def)

lemma sample_reach1: "zt_reach client ok 1 sample_w1"
  using zt_reach.step[OF sample_reach0 zt_step.run[OF sample_run]] by simp

lemmas sample_reach = sample_reach1[of reference_client any_outcome]

lemma sample_w1 [simp]:
  "registered sample_w1 2 = Some 3" "callback_heap sample_w1 3 =
     Some \<lparr>cb = ZT_ON_RANGE_READ, ctx = 0, future = 2\<rparr>"
  "ctx_heap sample_w1 = [0 \<mapsto> sample_ctx]" "futures sample_w1 2 = Some (range_request 1 7)"
  "done_log sample_w1 = []" "store sample_w1 = sample_store" "next_handle sample_w1 = 4"
  "waits sample_w1 2 0 ZT_ON_RANGE_READ"
  by (simp_all add: sample_w1_def sample_ctx_def waits_def numeral_eq_Suc)

lemma sample_deliverable:
  "out_error out \<noteq> 0 \<or> out = sample_read \<Longrightarrow>
    \<exists>w. zt_deliver reference_client env out 2 sample_w1 = Some w"
  using deliver_defined_iff[OF reach_zt_inv(1)[OF sample_reach1], of 2 3 _ sample_ctx reference_client env out]
    sample_good(1)
  by (auto simp: outcome_defined_def good_read_def sample_ctx_def)

lemma sample_steps:
  "zt_deliver reference_client good_env sample_read 2 sample_w1 = Some sample_w2"
  "zt_deliver reference_client bad_env sample_read 2 sample_w1 = Some lost_w2"
  "zt_deliver reference_client good_env sample_unknown 2 sample_w1 = Some failed_w2"
  using sample_deliverable[of sample_read good_env] sample_deliverable[of sample_read bad_env]
    sample_deliverable[of sample_unknown good_env]
  by (auto simp: sample_w2_def lost_w2_def failed_w2_def)

lemma sample_reach2:
  "zt_reach reference_client retry_granted 1 sample_w2" "zt_reach reference_client any_outcome 1 lost_w2"
  using zt_reach.step[OF sample_reach1 zt_step.deliver[OF sample_w1(4) _ sample_steps(1), of retry_granted]]
    zt_reach.step[OF sample_reach1 zt_step.deliver[OF sample_w1(4) _ sample_steps(2), of any_outcome]]
  by (simp_all add: range_request_def any_outcome_def)

lemma sample_w2 [simp]: "waits sample_w2 4 0 ZT_ON_COMMIT" "ctx_heap sample_w2 0 = Some sample_ctx"
  "store sample_w2 = sample_store" "done_log sample_w2 = []"
  "orphan lost_w2 0"
proof -
  note inv = reach_zt_inv(1)[OF sample_reach1]
  show "waits sample_w2 4 0 ZT_ON_COMMIT" "ctx_heap sample_w2 0 = Some sample_ctx" "done_log sample_w2 = []"
    by (rule deliver_protocol[OF inv sample_w1(8) sample_steps(1)],
        simp add: tick_after_def submit_effect_def)+
  show "orphan lost_w2 0"
    by (rule deliver_protocol[OF inv sample_w1(8) sample_steps(2)])
      (simp add: tick_after_def submit_effect_def)
  obtain y where "transactions sample_w1 1 = Some y"
    using ctx_live[OF inv, of 0 sample_ctx 1] by (auto simp: sample_ctx_def)
  then show "store sample_w2 = sample_store"
    using deliver_store[OF inv reference_client_documented sample_w1(8) _ _ _ sample_steps(1),
        of sample_ctx 1 y] by (simp add: sample_ctx_def)
qed

subsection \<open>The theorems at work\<close>

theorem tick_memory_safe_witness:
  "zt_reach reference_client any_outcome 1 sample_w1 \<and> registered sample_w1 2 = Some 3 \<and>
   zt_deliver reference_client bad_env sample_unknown 2 sample_w1 \<noteq> None \<and>
   (\<exists>r w'. zf_zonetick_run good_renv 8 1 None 0 sample_w1 = Some (r, w') \<and> r \<noteq> -1)"
  using sample_reach tick_memory_safe[OF sample_reach, of good_renv 8 1 None 0 2 3 bad_env sample_unknown]
  by auto

theorem tick_no_leak_witness:
  "zt_reach reference_client any_outcome 1 sample_w1 \<and>
   dom (futures sample_w1) = dom (registered sample_w1) \<and>
   Some ` dom (transactions sample_w1) = tr ` ran (ctx_heap sample_w1)"
  using tick_no_leak[OF sample_reach] sample_reach by (intro conjI) simp_all

theorem callbacks_conserved_witness:
  "zt_reach reference_client any_outcome 1 sample_w1 \<and>
   1 = length (done_log sample_w1) +
     card {c. \<exists>x. ctx_heap sample_w1 c = Some x \<and> done_cb x \<noteq> None}"
  using callbacks_conserved[OF sample_reach] sample_reach by (intro conjI)

theorem deliver_refines_protocol_witness:
  "zt_reach reference_client any_outcome 1 sample_w1 \<and> waits sample_w1 2 0 ZT_ON_RANGE_READ \<and>
   zt_deliver reference_client good_env sample_read 2 sample_w1 = Some sample_w2 \<and>
   tick_after (Waiting (Commit_Request 1) ZT_ON_COMMIT) 0 sample_ctx sample_w1 sample_w2"
  using deliver_refines_protocol[OF sample_reach sample_w1(8) sample_steps(1)]
    sample_reach sample_steps(1)
  by (auto simp: submit_effect_def sample_ctx_def)

theorem errors_never_reported_witness:
  "zt_reach reference_client any_outcome 1 sample_w1 \<and>
   zt_failing reference_client submit_ok sample_w1 failed_w2 \<and> done_log failed_w2 = [] \<and>
   (\<exists>g q. waits failed_w2 g 0 q)"
proof -
  have f: "zt_failing reference_client submit_ok sample_w1 failed_w2"
    by (rule zt_failing.more[OF zt_failing.none _ _ sample_steps(3)]) simp_all
  show ?thesis
    using errors_never_reported[OF sample_reach f, of 2 0 ZT_ON_RANGE_READ sample_unknown good_env failed_w2]
      f sample_reach by auto
qed

theorem unsubmitted_tick_lost_witness:
  "zt_deliver reference_client bad_env sample_read 2 sample_w1 = Some lost_w2 \<and>
   zt_steps reference_client any_outcome lost_w2 0 (lost_w2\<lparr>store := Map.empty\<rparr>) \<and>
   ctx_heap (lost_w2\<lparr>store := Map.empty\<rparr>) 0 = Some sample_ctx \<and>
   length (done_log (lost_w2\<lparr>store := Map.empty\<rparr>)) < 1"
proof -
  have s: "zt_steps reference_client any_outcome lost_w2 0 (lost_w2\<lparr>store := Map.empty\<rparr>)"
    using zt_steps.more[OF zt_steps.none zt_step.other] by fastforce
  have b: "\<not> submit_ok bad_env" "out_error sample_read = 0" "out_kv_error sample_read = 0"
    by (simp_all add: bad_env_def submit_ok_def sample_read_def)
  show ?thesis
    using unsubmitted_tick_lost[OF sample_reach sample_w1(8) sample_steps(2) _ b(1) s] b(2,3) sample_steps(2) s sample_w1(2)
    by (simp add: sample_ctx_def)
qed

lemma sample_commit:
  "\<exists>w'. zt_deliver reference_client good_env sample_done 4 sample_w2 = Some w'"
proof -
  note inv = reach_zt_inv(1)[OF sample_reach2(1)]
  obtain a cc x where "registered sample_w2 4 = Some a" "callback_heap sample_w2 a = Some cc"
    "ctx cc = 0" "cb cc = ZT_ON_COMMIT" "ctx_heap sample_w2 0 = Some x"
    by (rule waits_tick[OF inv sample_w2(1)])
  then show ?thesis
    using deliver_defined_iff[OF inv, of 4 a cc x reference_client good_env sample_done]
    by (auto simp: outcome_defined_def)
qed

lemma sample_w2_reads:
  "transactions sample_w2 1 = Some y \<Longrightarrow> reads y = Some ([(entity_key 7 42, packet_wire moving_packet)], False)"
proof -
  assume y: "transactions sample_w2 1 = Some y"
  have "at_phase sample_w1 2 0 ZT_ON_RANGE_READ sample_ctx Map.empty sample_store []"
    using reach_zt_inv(1)[OF sample_reach1] reach_tx_inv[OF sample_reach1 reference_client_documented]
    by (simp add: at_phase_def)
  from read_recorded[OF this reference_client_documented _ sample_envs(1) sample_steps(1)] y
  show ?thesis by (simp add: sample_ctx_def sample_read_def sample_good(1)[unfolded sample_read_def])
qed

theorem commit_ticks_zone_witness:
  "zt_reach reference_client retry_granted 1 sample_w2 \<and> client_documented reference_client \<and>
   waits sample_w2 4 0 ZT_ON_COMMIT \<and>
   (\<exists>w'. zt_deliver reference_client good_env sample_done 4 sample_w2 = Some w' \<and>
      store w' = zone_ticked 7 3 sample_store)"
proof -
  obtain w' where w': "zt_deliver reference_client good_env sample_done 4 sample_w2 = Some w'"
    using sample_commit by blast
  show ?thesis
    using commit_ticks_zone[OF sample_reach2(1) reference_client_documented sample_w2(1) sample_outcomes(8) w']
      w' sample_w2_reads sample_current(1) sample_reach2(1) by (auto simp: sample_ctx_def)
qed

theorem unread_entity_not_ticked_witness:
  "zt_reach reference_client retry_granted 1 sample_w2 \<and> client_documented reference_client \<and>
   (\<exists>w'. zt_deliver reference_client good_env sample_done 4 sample_w2 = Some w' \<and>
      store w' (entity_key 8 1) = sample_store (entity_key 8 1) \<and> done_log w' = [(99, 5, True)])"
proof -
  obtain w' where w': "zt_deliver reference_client good_env sample_done 4 sample_w2 = Some w'"
    using sample_commit by blast
  show ?thesis
    using unread_entity_not_ticked[OF sample_reach2(1) reference_client_documented sample_w2(1)
        sample_outcomes(7) w', of "entity_key 8 1"] w' sample_w2_reads sample_reach2(1)
    by (auto simp: sample_ctx_def report_def)
qed

theorem tick_completes_witness:
  "\<exists>w1 f1 w2 f2 w3. zf_zonetick_run good_renv 7 3 (Some 99) 5 sample_w0 = Some (0, w1) \<and>
    zt_deliver reference_client good_env sample_read f1 w1 = Some w2 \<and>
    zt_deliver reference_client bad_env sample_done f2 w2 = Some w3 \<and>
    done_log w3 = [(99, 5, True)] \<and> store w3 = zone_ticked 7 3 sample_store"
  using tick_completes[OF sample_reach0 reference_client_documented sample_envs(3,4), of good_env sample_read 3
      sample_done 7 99 5 bad_env] by simp blast

theorem unknown_result_ticks_twice_witness:
  "\<exists>w1 f1 w2 f2 w3 f3 w4 f4 w5 f5 w6.
    zf_zonetick_run good_renv 7 3 (Some 99) 5 sample_w0 = Some (0, w1) \<and>
    zt_deliver reference_client good_env sample_read f1 w1 = Some w2 \<and>
    zt_deliver reference_client good_env sample_unknown f2 w2 = Some w3 \<and>
    zt_deliver reference_client good_env sample_done f3 w3 = Some w4 \<and>
    zt_deliver reference_client good_env sample_reread f4 w4 = Some w5 \<and>
    zt_deliver reference_client good_env sample_done f5 w5 = Some w6 \<and>
    done_log w6 = [(99, 5, True)] \<and>
    store w6 = zone_ticked 7 3 (zone_ticked 7 3 sample_store)"
proof -
  have pre: "submit_ok (submit_env good_renv)" "range_current 7 (out_kvs sample_read) (store sample_w0)"
    "range_current 7 (out_kvs sample_reread) (zone_ticked 7 3 (store sample_w0))"
    "out_error sample_unknown \<noteq> 0"
    using sample_current by simp_all
  show ?thesis
    using unknown_result_ticks_twice[OF sample_reach0 reference_client_documented sample_envs(3,4) pre(1)
        sample_envs(1) sample_good(1) pre(2,4) sample_outcomes(10,7) sample_good(2) pre(3)
        sample_outcomes(7,8), of 99 5]
    by simp
qed

theorem store_stays_typed_witness:
  "ran (store sample_w2) \<subseteq> Collect canonical \<and>
   (\<exists>w'. zt_deliver reference_client good_env sample_done 4 sample_w2 = Some w' \<and>
      ran (store w') \<subseteq> Collect canonical)"
proof -
  obtain w' where w': "zt_deliver reference_client good_env sample_done 4 sample_w2 = Some w'"
    using sample_commit by blast
  have "\<forall>key v. store sample_w2 key = Some v \<longrightarrow> canonical v"
    by (auto simp: sample_store_def canonical_wire split: if_splits)
  then show ?thesis
    using store_stays_typed[OF sample_reach2(1) reference_client_documented w'] w' by (auto simp: ran_def)
qed

end
