(* ===== verification/Zonetick_Events.thy ===== *)
theory Zonetick_Events
  imports Zonetick_Samples
begin

text \<open>
  Any number of ticks of any zones in flight at once, seen from outside. A commit is applied by the
  database at some moment after it was requested: before its future is delivered, after an error
  was delivered for it (the result of that commit was unknown), or without any delivery. The
  history of a run is the list of what happened in the order in which it happened: commits
  applied, results delivered, writes of other processes. The database and the successes
  reported follow from it.
\<close>

subsection \<open>Events\<close>

text \<open>A commit is named by its future. An applied one has the zone and the tick count of its tick,
  the writes that an earlier attempt had left in the transaction, and the entries read. The
  result of a commit is told, with the completion callback made, or lost: delivered with an
  error, or never to be delivered because the submission was refused.\<close>

datatype zt_event =
    Ticked handle u32 u32 "key_value list" "key_value list"
  | Told handle u32 u32 "(handle \<times> handle \<times> bool) list"
  | Lost handle
  | is_foreign: Wrote "bytes \<rightharpoonup> bytes"

definition keys_ticked :: "u32 \<Rightarrow> bytes set \<Rightarrow> (bytes \<rightharpoonup> bytes) \<Rightarrow> (bytes \<rightharpoonup> bytes)" where
  "keys_ticked n K m = (\<lambda>k. if k \<in> K then map_option (tick_bytes n) (m k) else m k)"

fun apply_event :: "zt_event \<Rightarrow> (bytes \<rightharpoonup> bytes) \<Rightarrow> (bytes \<rightharpoonup> bytes)" where
  "apply_event (Ticked g z n stale kvs) m = keys_ticked n (fst ` set kvs) (apply_writes stale m)"
| "apply_event (Wrote m') m = m'"
| "apply_event _ m = m"

text \<open>What an event does to the value of one key, when only ticks of zone \<open>z\<close> count.\<close>

fun value_event :: "u32 \<Rightarrow> bytes \<Rightarrow> zt_event \<Rightarrow> bytes option \<Rightarrow> bytes option" where
  "value_event z key (Ticked g z' n stale kvs) v =
     (if z' = z then apply_event (Ticked g z' n stale kvs) (\<lambda>_. v) key else v)"
| "value_event z key (Wrote m) v = m key"
| "value_event z key _ v = v"

fun foreign_event :: "bytes \<Rightarrow> zt_event \<Rightarrow> bytes option \<Rightarrow> bytes option" where
  "foreign_event key (Wrote m) v = m key"
| "foreign_event key _ v = v"

fun event_reports :: "zt_event \<Rightarrow> (handle \<times> handle \<times> bool) list" where
  "event_reports (Told g z n rs) = rs"
| "event_reports _ = []"

fun ticked_id :: "zt_event \<Rightarrow> handle list" where
  "ticked_id (Ticked g z n stale kvs) = [g]"
| "ticked_id _ = []"

fun told_id :: "zt_event \<Rightarrow> handle list" where
  "told_id (Told g z n rs) = [g]"
| "told_id _ = []"

fun lost_id :: "zt_event \<Rightarrow> handle list" where
  "lost_id (Lost g) = [g]"
| "lost_id _ = []"

definition applied :: "zt_event list \<Rightarrow> handle list" where
  "applied es = concat (map ticked_id es)"

definition told :: "zt_event list \<Rightarrow> handle list" where
  "told es = concat (map told_id es)"

definition lost :: "zt_event list \<Rightarrow> handle list" where
  "lost es = concat (map lost_id es)"

lemma names_append [simp]:
  "applied [] = []" "applied (e # es) = ticked_id e @ applied es" "applied (es @ es') = applied es @ applied es'"
  "told [] = []" "told (e # es) = told_id e @ told es" "told (es @ es') = told es @ told es'"
  "lost [] = []" "lost (e # es) = lost_id e @ lost es" "lost (es @ es') = lost es @ lost es'"
  by (simp_all add: applied_def told_def lost_def)

text \<open>A commit that was requested and is not applied yet: the writes of its transaction at that
  moment, those that were there before the last read, and what that read returned.\<close>

record attempt =
  at_commit :: handle
  at_zone :: u32
  at_count :: u32
  at_stale :: "key_value list"
  at_read :: "key_value list"
  at_writes :: "key_value list"

text \<open>The tick that waits for a future, and what its delivery adds to the history: the result of a
  commit, and a commit newly requested.\<close>

definition pending_tick :: "zt_world \<Rightarrow> handle \<Rightarrow> (zt_cb \<times> zonetick_ctx_t) option" where
  "pending_tick w f = do {
     a \<leftarrow> registered w f;
     cc \<leftarrow> callback_heap w a;
     x \<leftarrow> ctx_heap w (ctx cc);
     Some (cb cc, x)
   }"

definition requests_commit :: "fdb_env \<Rightarrow> fdb_outcome \<Rightarrow> zt_cb \<Rightarrow> bool" where
  "requests_commit env out p \<longleftrightarrow>
     p = ZT_ON_RANGE_READ \<and> out_error out = 0 \<and> out_kv_error out = 0 \<and> \<not> future_null env"

definition delivery_events :: "fdb_env \<Rightarrow> fdb_outcome \<Rightarrow> handle \<Rightarrow> zt_world \<Rightarrow> zt_event list" where
  "delivery_events env out f w =
     (case pending_tick w f of
        None \<Rightarrow> []
      | Some (p, x) \<Rightarrow>
          if p = ZT_ON_COMMIT
          then (if out_error out = 0 then [Told f (z_id x) (tick_count x) (report x True)] else [Lost f])
          else if requests_commit env out p \<and> \<not> submit_ok env then [Lost (next_handle w)] else [])"

definition delivery_commits :: "fdb_env \<Rightarrow> fdb_outcome \<Rightarrow> handle \<Rightarrow> zt_world \<Rightarrow> zt_world \<Rightarrow> attempt list" where
  "delivery_commits env out f w w' =
     (case pending_tick w f of
        None \<Rightarrow> []
      | Some (p, x) \<Rightarrow>
          if requests_commit env out p
          then (case tr x of
                  None \<Rightarrow> []
                | Some t \<Rightarrow>
                    (case (transactions w t, transactions w' t) of
                       (Some y, Some y') \<Rightarrow>
                         [\<lparr>at_commit = next_handle w, at_zone = z_id x, at_count = tick_count x,
                           at_stale = writes y, at_read = out_kvs out, at_writes = writes y'\<rparr>]
                     | _ \<Rightarrow> []))
          else [])"

subsection \<open>Steps\<close>

text \<open>What may happen between two calls of the program: a delivery, or a change of the database.\<close>

datatype arrival =
    Delivery handle fdb_env fdb_outcome
  | Database "bytes \<rightharpoonup> bytes"

fun zt_arrive :: "fdb_client \<Rightarrow> arrival \<Rightarrow> zt_world \<Rightarrow> zt_world option" where
  "zt_arrive client (Delivery f env out) w = zt_deliver client env out f w"
| "zt_arrive client (Database m) w = Some (w\<lparr>store := m\<rparr>)"

text \<open>What the client promises of an answer. A range read returns every key at most once, and keys
  of the requested range only. A commit is applied by a step of its own, not by the delivery.\<close>

fun answer_ok :: "fdb_request \<Rightarrow> fdb_outcome \<Rightarrow> bool" where
  "answer_ok (Range_Request t b e r) out \<longleftrightarrow> (out_error out = 0 \<and> out_kv_error out = 0 \<longrightarrow>
     distinct (map fst (out_kvs out)) \<and> (\<forall>(k, v) \<in> set (out_kvs out). sel_key b \<le> k \<and> k < sel_key e))"
| "answer_ok (Commit_Request t) out \<longleftrightarrow> \<not> out_applied out"
| "answer_ok _ out \<longleftrightarrow> True"

text \<open>A commit without an error has been applied; of a commit with an error nothing is promised.\<close>

fun commit_ok :: "zt_event list \<Rightarrow> handle \<Rightarrow> fdb_request \<Rightarrow> fdb_outcome \<Rightarrow> bool" where
  "commit_ok es f (Commit_Request t) out \<longleftrightarrow> (out_error out = 0 \<longrightarrow> f \<in> set (applied es))"
| "commit_ok es f _ out \<longleftrightarrow> True"

text \<open>A commit is applied only if what its transaction has read (its own earlier writes included) is
  still what the database has, and at most once.\<close>

definition read_current :: "attempt \<Rightarrow> (bytes \<rightharpoonup> bytes) \<Rightarrow> bool" where
  "read_current a m \<longleftrightarrow> (\<forall>(k, v) \<in> set (at_read a). apply_writes (at_stale a) m k = Some v)"

definition commit_event :: "attempt \<Rightarrow> zt_event" where
  "commit_event a = Ticked (at_commit a) (at_zone a) (at_count a) (at_stale a) (at_read a)"

type_synonym hist_state = "(zt_event list \<times> attempt list) \<times> zt_world"

inductive hist_step :: "fdb_client \<Rightarrow> (fdb_request \<Rightarrow> fdb_outcome \<Rightarrow> bool) \<Rightarrow> arrival \<Rightarrow> hist_state \<Rightarrow> hist_state
    \<Rightarrow> bool" for client ok where
  deliver: "futures w f = Some req \<Longrightarrow> ok req out \<Longrightarrow> answer_ok req out \<Longrightarrow> commit_ok es f req out \<Longrightarrow>
    zt_deliver client env out f w = Some w' \<Longrightarrow>
    hist_step client ok (Delivery f env out) ((es, as), w)
      ((es @ delivery_events env out f w, as @ delivery_commits env out f w w'), w')"
| commit: "read_current a (store w) \<Longrightarrow> m = apply_writes (at_writes a) (store w) \<Longrightarrow>
    hist_step client ok (Database m) ((es, as @ a # bs), w)
      ((es @ [commit_event a], as @ bs), w\<lparr>store := m\<rparr>)"
| other: "hist_step client ok (Database m) ((es, as), w) ((es @ [Wrote m], as), w\<lparr>store := m\<rparr>)"

inductive zt_history :: "fdb_client \<Rightarrow> (fdb_request \<Rightarrow> fdb_outcome \<Rightarrow> bool) \<Rightarrow> zt_world \<Rightarrow> hist_state \<Rightarrow> bool"
  for client ok w0 where
  start: "zt_initial w0 \<Longrightarrow> zt_history client ok w0 (([], []), w0)"
| run: "zt_history client ok w0 (h, w) \<Longrightarrow> zf_zonetick_run env z n d u w = Some (r, w') \<Longrightarrow>
    zt_history client ok w0 (h, w')"
| arrive: "zt_history client ok w0 s \<Longrightarrow> hist_step client ok a s s' \<Longrightarrow> zt_history client ok w0 s'"

inductive_cases hist_stepE: "hist_step client ok a s s'"

lemma hist_step_arrives: "hist_step client ok a (h, w) (h', w') \<Longrightarrow> zt_arrive client a w = Some w'"
  by (auto elim: hist_step.cases)

lemma history_reach:
  assumes "zt_history client ok w0 s"
  shows "\<exists>k. zt_reach client ok k (snd s)"
  using assms
proof (induction rule: zt_history.induct)
  case start
  then show ?case using zt_reach.init by fastforce
next
  case (run h w env z n d u r w')
  then show ?case using zt_reach.step zt_step.run by fastforce
next
  case (arrive s a s')
  then obtain k where k: "zt_reach client ok k (snd s)" by blast
  show ?case using arrive(2)
  proof cases
    case (deliver w f req out es env w' as)
    then show ?thesis using zt_reach.step[OF k zt_step.deliver] by fastforce
  next
    case (commit a w m es as bs)
    then show ?thesis using zt_reach.step[OF k zt_step.other] by fastforce
  next
    case (other m es as w)
    then show ?thesis using zt_reach.step[OF k zt_step.other] by fastforce
  qed
qed

lemma history_inv:
  assumes "zt_history client ok w0 (h, w)"
  shows "zt_inv {} {} w" and "db (fdb_state w) \<noteq> None"
  using history_reach[OF assms] reach_zt_inv by fastforce+

subsection \<open>One delivery\<close>

lemma run_next_handle:
  assumes "zt_inv {} {} w" "db (fdb_state w) \<noteq> None" "zf_zonetick_run env z n d u w = Some (r, w')"
  shows "next_handle w \<le> next_handle w'"
  using assms
proof (cases rule: run_cases)
  case (ended w1)
  then show ?thesis using frame_same_but_log(9)[OF ended(2)] by (simp add: finished_def)
qed (auto dest: frame_same_but_log(9))

lemma commit_takes_handle:
  "fdb_async_commit env t c u w = Some (r, w') \<Longrightarrow> \<not> future_null env \<Longrightarrow> next_handle w < next_handle w'"
  by (auto simp: fdb_async_commit_def new_future_def submit_future_def fdb_future_destroy_def free_callback_def
      Let_def log_error_def split: if_splits bind_splits)

lemma deliver_takes_handle:
  assumes inv: "zt_inv {} {} w" and wt: "waits w f c p" and d: "zt_deliver client env out f w = Some w'"
  shows "next_handle w \<le> next_handle w'" and "requests_commit env out p \<Longrightarrow> next_handle w < next_handle w'"
proof -
  obtain a x t w1 w2 where a: "registered w f = Some a" "ctx_heap w c = Some x" "tr x = Some t"
    and w1: "w1 = loaded out p t (tick_count x)
        ((become_ready client out f w)\<lparr>registered := (registered w)(f := None)\<rparr>)"
    and eff: "effect (zt_protocol env out p t (z_id x)) c x w1 w2" and w': "w' = released f a w2"
    by (rule deliver_waits[OF inv wt d])
  have "next_handle w1 \<le> next_handle w2"
    using eff
    by (cases "zt_protocol env out p t (z_id x)") (auto simp: finished_def dest: frame_same_but_log(9))
  then show "next_handle w \<le> next_handle w'" by (simp add: w' w1 released_def)
  assume r: "requests_commit env out p"
  let ?w = "(become_ready client out f w)\<lparr>registered := (registered w)(f := None)\<rparr>"
  obtain a' cc where cc: "registered w f = Some a'" "callback_heap w a' = Some cc" "ctx cc = c" "cb cc = p"
    using wt by (rule waitsD)
  have run: "Option.bind (zt_on_range_read env out c ?w) (\<lambda>w. Option.bind (fdb_future_destroy f w) (free_callback a)) = Some w'"
    using d r cc a(1) by (simp add: zt_deliver_def future_callback_def zt_code_def requests_commit_def)
  then obtain w3 w4 rc where w3: "zt_tick_loop (tick_count x) t (out_kvs out) ?w = Some w3"
    and w4: "fdb_async_commit env t ZT_ON_COMMIT c w3 = Some (rc, w4)"
    and rel: "Option.bind (fdb_future_destroy f w4) (free_callback a) = Some w'"
    using r a(2,3) by (auto simp: zt_on_range_read_def requests_commit_def split: bind_splits)
  have "t \<in> dom (transactions ?w)" using ctx_live[OF inv a(2,3)] by (simp add: become_ready_def split: option.splits prod.splits)
  then have "next_handle w3 = next_handle w" using w3 by (auto simp: tick_loop_eq split: if_splits)
  moreover have "next_handle w' = next_handle w4"
    using rel by (auto simp: fdb_future_destroy_def free_callback_def split: if_splits bind_splits)
  ultimately show "next_handle w < next_handle w'"
    using commit_takes_handle[OF w4] r by (simp add: requests_commit_def)
qed

text \<open>The writes in the transaction of a tick after a delivery to it.\<close>

lemma own_writes:
  assumes inv: "zt_inv {} {} w" and client: "client_documented client" and wt: "waits w f c p"
    and d: "zt_deliver client env out f w = Some w'" and x: "ctx_heap w c = Some x" "tr x = Some t"
    and y: "transactions w t = Some y" and live: "ctx_heap w' c = Some x'"
  shows "\<exists>y'. transactions w' t = Some y' \<and> writes y' =
    (if p = ZT_ON_RANGE_READ \<and> out_error out = 0 \<and> out_kv_error out = 0
     then writes y @ tick_kvs (tick_count x) (out_kvs out)
     else if p = ZT_ON_ERROR_RETRY \<and> out_error out = 0 then [] else writes y)"
proof -
  obtain a x0 t0 w1 w2 where x0: "ctx_heap w c = Some x0" "tr x0 = Some t0"
    and w1: "w1 = loaded out p t0 (tick_count x0)
        ((become_ready client out f w)\<lparr>registered := (registered w)(f := None)\<rparr>)"
    and eff: "effect (zt_protocol env out p t0 (z_id x0)) c x0 w1 w2" and w': "w' = released f a w2"
    by (rule deliver_waits[OF inv wt d])
  have same: "x0 = x" "t0 = t" using x0 x by simp_all
  obtain req where r: "request_ok req p t x"
    and tr: "transactions ((become_ready client out f w)\<lparr>registered := (registered w)(f := None)\<rparr>) =
      (transactions w)(t \<mapsto> fst (client out req (y, store w)))"
    by (rule readied[OF inv wt x y])
  have "transactions w' t = transactions w1 t"
    using eff live
    by (cases "zt_protocol env out p t (z_id x)")
      (auto simp: same w' finished_def dest: frame_same_but_log(1,2))
  moreover have "fst (client out req (y, store w)) =
      (if p = ZT_ON_RANGE_READ \<and> out_error out = 0 \<and> out_kv_error out = 0 then y\<lparr>reads := Some (out_kvs out, out_more out)\<rparr>
       else if p = ZT_ON_ERROR_RETRY \<and> out_error out = 0 then empty_transaction else y)"
    using r client
    by (auto simp: request_ok_def range_request_def client_documented_def client_reads_def client_commits_def
        client_resets_def)
  ultimately show ?thesis
    by (auto simp: w1 same loaded_transactions tr empty_transaction_def)
qed

lemma waits_pending: "waits w f c p \<Longrightarrow> ctx_heap w c = Some x \<Longrightarrow> pending_tick w f = Some (p, x)"
  by (auto simp: waits_def pending_tick_def split: option.splits)

text \<open>All that the histories need of one delivery.\<close>

lemma delivery_facts:
  assumes inv: "zt_inv {} {} w" and client: "client_documented client"
    and req: "futures w f = Some req" and d: "zt_deliver client env out f w = Some w'"
  obtains c p x t y where "waits w f c p" "ctx_heap w c = Some x" "tr x = Some t" "transactions w t = Some y"
    "request_ok req p t x" "pending_tick w f = Some (p, x)"
    "tick_after (zt_protocol env out p t (z_id x)) c x w w'"
    "\<forall>g c' q. waits w' g c' q \<longleftrightarrow> g \<noteq> f \<and> waits w g c' q \<or>
      g = next_handle w \<and> c' = c \<and> (\<exists>req. zt_protocol env out p t (z_id x) = Waiting req q)"
    "\<forall>c'. c' \<noteq> c \<longrightarrow> ctx_heap w' c' = ctx_heap w c'"
    "store w' = (if p = ZT_ON_COMMIT \<and> out_applied out then apply_writes (writes y) (store w) else store w)"
proof -
  obtain c p where wt: "waits w f c p" by (rule deliver_waiting[OF inv d])
  obtain x t req' where x: "ctx_heap w c = Some x" "tr x = Some t" and r: "futures w f = Some req'" "request_ok req' p t x"
    by (rule waits_tick[OF inv wt])
  obtain y where y: "transactions w t = Some y" using ctx_live[OF inv x] by blast
  show ?thesis
  proof (rule deliver_protocol[OF inv wt d])
    fix x' t'
    assume "ctx_heap w c = Some x'" "tr x' = Some t'" "tick_after (zt_protocol env out p t' (z_id x')) c x' w w'"
      "\<forall>g c' q. waits w' g c' q \<longleftrightarrow> g \<noteq> f \<and> waits w g c' q \<or>
        g = next_handle w \<and> c' = c \<and> (\<exists>req. zt_protocol env out p t' (z_id x') = Waiting req q)"
      "\<forall>c'. c' \<noteq> c \<longrightarrow> ctx_heap w' c' = ctx_heap w c'"
    then show ?thesis
      using that[OF wt x y _ waits_pending[OF wt x(1)]] r req x deliver_store[OF inv client wt x y d] by simp
  qed
qed

end
