(* ===== verification/Zonetick_History.thy ===== *)
theory Zonetick_History
  imports Zonetick_Events
begin

text \<open>
  The invariant of a history: the database is what the events make of it, the successes reported are
  those told, the writes of a transaction stay within the range of its zone, and every commit is
  applied at most once, before it is told.
\<close>

subsection \<open>The invariant of a history\<close>

text \<open>The writes of a transaction are within the range of its zone.\<close>

definition writes_in_range :: "zt_world \<Rightarrow> bool" where
  "writes_in_range w \<longleftrightarrow> (\<forall>c x t y. ctx_heap w c = Some x \<and> tr x = Some t \<and> transactions w t = Some y \<longrightarrow>
     (\<forall>k \<in> fst ` set (writes y). in_zone_range (z_id x) k))"

definition attempt_ok :: "attempt \<Rightarrow> bool" where
  "attempt_ok a \<longleftrightarrow> at_writes a = at_stale a @ tick_kvs (at_count a) (at_read a) \<and> distinct (map fst (at_read a)) \<and>
     (\<forall>k \<in> fst ` set (at_stale a @ at_read a). in_zone_range (at_zone a) k)"

fun event_ok :: "zt_event \<Rightarrow> bool" where
  "event_ok (Ticked g z n stale kvs) \<longleftrightarrow> (\<forall>k \<in> fst ` set (stale @ kvs). in_zone_range z k)"
| "event_ok _ \<longleftrightarrow> True"

text \<open>The names of the commits: each is applied at most once and told at most once; every one that was
  requested is told, lost or waited for; the one a tick waits for is known with its zone and
  count; and what was told had been applied.\<close>

definition known :: "zt_event list \<Rightarrow> attempt list \<Rightarrow> handle \<Rightarrow> u32 \<Rightarrow> u32 \<Rightarrow> bool" where
  "known es as g z n \<longleftrightarrow> (\<exists>a \<in> set as. at_commit a = g \<and> at_zone a = z \<and> at_count a = n) \<or>
     (\<exists>stale kvs. Ticked g z n stale kvs \<in> set es)"

definition told_after :: "zt_event list \<Rightarrow> bool" where
  "told_after es \<longleftrightarrow> (\<forall>es1 es2 g z n rs. es = es1 @ Told g z n rs # es2 \<longrightarrow>
     (\<exists>stale kvs. Ticked g z n stale kvs \<in> set es1))"

definition waiting_known :: "zt_event list \<Rightarrow> attempt list \<Rightarrow> zt_world \<Rightarrow> bool" where
  "waiting_known es as w \<longleftrightarrow> (\<forall>f c x. waits w f c ZT_ON_COMMIT \<and> ctx_heap w c = Some x \<longrightarrow>
     f \<notin> set (told es) \<and> known es as f (z_id x) (tick_count x))"

definition ids_inv :: "zt_event list \<Rightarrow> attempt list \<Rightarrow> zt_world \<Rightarrow> bool" where
  "ids_inv es as w \<longleftrightarrow> distinct (applied es @ map at_commit as) \<and> distinct (told es) \<and> told_after es \<and>
     (\<forall>g \<in> set (applied es @ map at_commit as @ told es). g < next_handle w) \<and>
     (\<forall>g \<in> set (applied es @ map at_commit as). g \<in> set (told es @ lost es) \<or> (\<exists>c. waits w g c ZT_ON_COMMIT)) \<and>
     waiting_known es as w"

lemma told_after_snoc:
  "told_after (es @ [e]) \<longleftrightarrow> told_after es \<and>
     (\<forall>g z n rs. e = Told g z n rs \<longrightarrow> (\<exists>stale kvs. Ticked g z n stale kvs \<in> set es))"
proof -
  have "es @ [e] = es1 @ x # es2 \<longleftrightarrow> es2 = [] \<and> e = x \<and> es = es1 \<or> (\<exists>us. es2 = us @ [e] \<and> es = es1 @ x # us)"
    for es1 es2 x by (cases es2 rule: rev_cases) auto
  then show ?thesis unfolding told_after_def by (auto 0 3)
qed

lemma run_commit_waits:
  assumes inv: "zt_inv {} {} w" and db: "db (fdb_state w) \<noteq> None"
    and r: "zf_zonetick_run env z n d u w = Some (r, w')"
  shows "waits w' g c ZT_ON_COMMIT \<longleftrightarrow> waits w g c ZT_ON_COMMIT"
    and "waits w g c p \<Longrightarrow> ctx_heap w' c = ctx_heap w c"
proof -
  show "waits w' g c ZT_ON_COMMIT \<longleftrightarrow> waits w g c ZT_ON_COMMIT"
    using inv db r
  proof (cases rule: run_cases)
    case refused
    then show ?thesis using frame_same_but_log[of w w'] waits_cong[of w' w] by simp
  next
    case waiting
    have "callback_heap w (Suc (Suc (Suc (next_handle w)))) = None" "registered w (Suc (Suc (next_handle w))) = None"
      using handles_fresh_None[OF zt_invD(1)[OF inv]] by simp_all
    moreover have "registered w g = Some a \<Longrightarrow> a \<noteq> Suc (Suc (Suc (next_handle w)))" for a
      using calculation registered_owned[OF inv, of g a] by (auto simp: owned_def)
    ultimately show ?thesis using waiting(2) by (auto simp: waits_def split: option.splits)
  next
    case (ended w1)
    then show ?thesis
      using frame_same_but_log[OF ended(2)] waits_cong[of w' w] by (simp add: finished_def)
  qed
  assume wt: "waits w g c p"
  obtain x where "ctx_heap w c = Some x" by (rule waits_tick[OF inv wt])
  then have "c < next_handle w" using ctx_invD[OF zt_invD(2)[OF inv]] by blast
  then show "ctx_heap w' c = ctx_heap w c" using waits_run(2)[OF inv db r] by blast
qed

lemma ids_run:
  assumes inv: "zt_inv {} {} w" and db: "db (fdb_state w) \<noteq> None"
    and r: "zf_zonetick_run env z n d u w = Some (r, w')" and ids: "ids_inv es as w"
  shows "ids_inv es as w'"
proof -
  have "ctx_heap w c = Some x" if "waits w' f c ZT_ON_COMMIT" "ctx_heap w' c = Some x" for f c x
    using that run_commit_waits[OF inv db r] by metis
  then have "waiting_known es as w'"
    using ids run_commit_waits(1)[OF inv db r] unfolding ids_inv_def waiting_known_def by blast
  then show ?thesis
    using ids run_commit_waits(1)[OF inv db r] run_next_handle[OF inv db r]
    unfolding ids_inv_def by (auto intro: less_le_trans)
qed

lemma ids_store: "ids_inv es as (w\<lparr>store := m\<rparr>) \<longleftrightarrow> ids_inv es as w"
proof -
  have "waits (w\<lparr>store := m\<rparr>) = waits w" by (rule waits_cong) simp_all
  then show ?thesis by (simp add: ids_inv_def waiting_known_def)
qed

lemma known_commit: "known es (as @ a # bs) g z n \<Longrightarrow> known (es @ [commit_event a]) (as @ bs) g z n"
  by (auto simp: known_def commit_event_def)

lemma known_mono: "known es as g z n \<Longrightarrow> known (es @ es') (as @ as') g z n"
  by (auto simp: known_def)

lemma ids_commit:
  assumes "ids_inv es (as @ a # bs) w"
  shows "ids_inv (es @ [commit_event a]) (as @ bs) w"
proof -
  have ce: "ticked_id (commit_event a) = [at_commit a]" "told_id (commit_event a) = []" "lost_id (commit_event a) = []"
    "\<And>g z n rs. commit_event a \<noteq> Told g z n rs" by (simp_all add: commit_event_def)
  have "waiting_known es (as @ a # bs) w" using assms by (simp add: ids_inv_def)
  then have "waiting_known (es @ [commit_event a]) (as @ bs) w"
    unfolding waiting_known_def using known_commit by (auto simp: ce)
  then show ?thesis using assms unfolding ids_inv_def told_after_snoc by (auto simp: ce)
qed

lemma ids_foreign:
  assumes "ids_inv es as w"
  shows "ids_inv (es @ [Wrote m]) as w"
proof -
  have "waiting_known es as w" using assms by (simp add: ids_inv_def)
  then have "waiting_known (es @ [Wrote m]) as w"
    unfolding waiting_known_def using known_mono[of es as _ _ _ "[Wrote m]" "[]"] by auto
  then show ?thesis using assms unfolding ids_inv_def told_after_snoc by auto
qed

text \<open>The commits waited for after a delivery, and what the delivery adds to the history.\<close>

lemma delivery_commit_waits:
  assumes inv: "zt_inv {} {} w" and wt: "waits w f c p"
    and af: "tick_after (zt_protocol env out p t (z_id x)) c x w w'" and x: "ctx_heap w c = Some x"
    and ww: "\<forall>g c' q. waits w' g c' q \<longleftrightarrow> g \<noteq> f \<and> waits w g c' q \<or>
      g = next_handle w \<and> c' = c \<and> (\<exists>req. zt_protocol env out p t (z_id x) = Waiting req q)"
    and fr: "\<forall>c'. c' \<noteq> c \<longrightarrow> ctx_heap w' c' = ctx_heap w c'"
  shows "waits w' g c' ZT_ON_COMMIT \<longleftrightarrow> g \<noteq> f \<and> waits w g c' ZT_ON_COMMIT \<or>
      g = next_handle w \<and> c' = c \<and> requests_commit env out p \<and> submit_ok env"
    and "waits w' g c' ZT_ON_COMMIT \<Longrightarrow> ctx_heap w' c' = Some x' \<Longrightarrow> ctx_heap w c' = Some x'"
proof -
  have "(\<exists>req. zt_protocol env out p t (z_id x) = Waiting req ZT_ON_COMMIT) \<longleftrightarrow>
      requests_commit env out p \<and> submit_ok env"
    by (cases p) (auto simp: requests_commit_def submit_effect_def submit_ok_def)
  then show "waits w' g c' ZT_ON_COMMIT \<longleftrightarrow> g \<noteq> f \<and> waits w g c' ZT_ON_COMMIT \<or>
      g = next_handle w \<and> c' = c \<and> requests_commit env out p \<and> submit_ok env"
    using ww by auto
  have "ctx_heap w' c = Some x \<or> ctx_heap w' c = None"
    using af by (auto simp: tick_after_def split: tick_effect.splits)
  then show "ctx_heap w' c' = Some x' \<Longrightarrow> ctx_heap w c' = Some x'"
    using fr x by (cases "c' = c") auto
qed

lemma requests_commit_live:
  assumes "requests_commit env out p" "tick_after (zt_protocol env out p t (z_id x)) c x w w'"
  shows "ctx_heap w' c = Some x"
  using assms by (auto simp: requests_commit_def tick_after_def submit_effect_def split: if_splits)

lemma delivery_commits_eq:
  assumes inv: "zt_inv {} {} w" and client: "client_documented client" and wt: "waits w f c p"
    and d: "zt_deliver client env out f w = Some w'" and x: "ctx_heap w c = Some x" "tr x = Some t"
    and y: "transactions w t = Some y" and af: "tick_after (zt_protocol env out p t (z_id x)) c x w w'"
  shows "delivery_commits env out f w w' =
    (if requests_commit env out p
     then [\<lparr>at_commit = next_handle w, at_zone = z_id x, at_count = tick_count x, at_stale = writes y,
            at_read = out_kvs out, at_writes = writes y @ tick_kvs (tick_count x) (out_kvs out)\<rparr>]
     else [])"
proof (cases "requests_commit env out p")
  case True
  obtain y' where "transactions w' t = Some y'" "writes y' = writes y @ tick_kvs (tick_count x) (out_kvs out)"
    using own_writes[OF inv client wt d x y requests_commit_live[OF True af]] True
    by (auto simp: requests_commit_def)
  then show ?thesis using True x y waits_pending[OF wt x(1)] by (simp add: delivery_commits_def)
qed (use waits_pending[OF wt x(1)] in \<open>simp add: delivery_commits_def\<close>)

lemma delivery_events_eq:
  assumes "waits w f c p" "ctx_heap w c = Some x"
  shows "delivery_events env out f w =
    (if p = ZT_ON_COMMIT then (if out_error out = 0 then [Told f (z_id x) (tick_count x) (report x True)] else [Lost f])
     else if requests_commit env out p \<and> \<not> submit_ok env then [Lost (next_handle w)] else [])"
  using waits_pending[OF assms] by (simp add: delivery_events_def)

lemma ids_deliver:
  assumes inv: "zt_inv {} {} w" and client: "client_documented client" and req: "futures w f = Some req"
    and ok: "commit_ok es f req out" and d: "zt_deliver client env out f w = Some w'" and ids: "ids_inv es as w"
  shows "ids_inv (es @ delivery_events env out f w) (as @ delivery_commits env out f w w') w'"
proof -
  obtain c p x t y where wt: "waits w f c p" and x: "ctx_heap w c = Some x" "tr x = Some t"
    and y: "transactions w t = Some y" and r: "request_ok req p t x"
    and af: "tick_after (zt_protocol env out p t (z_id x)) c x w w'"
    and ww: "\<forall>g c' q. waits w' g c' q \<longleftrightarrow> g \<noteq> f \<and> waits w g c' q \<or>
      g = next_handle w \<and> c' = c \<and> (\<exists>req. zt_protocol env out p t (z_id x) = Waiting req q)"
    and fr: "\<forall>c'. c' \<noteq> c \<longrightarrow> ctx_heap w' c' = ctx_heap w c'"
    by (rule delivery_facts[OF inv client req d])
  note W = delivery_commit_waits[OF inv wt af x(1) ww fr] and nh = deliver_takes_handle[OF inv wt d]
  note evs = delivery_events_eq[OF wt x(1), of env out] and cms = delivery_commits_eq[OF inv client wt d x y af]
  have D: "distinct (applied es @ map at_commit as)" "distinct (told es)" "told_after es"
    "\<And>g. g \<in> set (applied es @ map at_commit as @ told es) \<Longrightarrow> g < next_handle w"
    "\<And>g. g \<in> set (applied es @ map at_commit as) \<Longrightarrow> g \<in> set (told es @ lost es) \<or> (\<exists>c. waits w g c ZT_ON_COMMIT)"
    "\<And>g c x. waits w g c ZT_ON_COMMIT \<Longrightarrow> ctx_heap w c = Some x \<Longrightarrow>
      g \<notin> set (told es) \<and> known es as g (z_id x) (tick_count x)"
    using ids unfolding ids_inv_def waiting_known_def by blast+
  have new: "next_handle w \<notin> set (applied es @ map at_commit as @ told es)" using D(4) by blast
  have told_f: "f \<notin> set (told es) \<and> f \<in> set (applied es) \<and> (\<exists>st kvs. Ticked f (z_id x) (tick_count x) st kvs \<in> set es)"
    if "p = ZT_ON_COMMIT" "out_error out = 0"
  proof -
    have "f \<in> set (applied es)" using ok r that by (auto simp: request_ok_def)
    moreover from this have "f \<notin> at_commit ` set as" using D(1) by auto
    ultimately show ?thesis using D(6)[OF wt[unfolded that(1)] x(1)] by (auto simp: known_def)
  qed
  let ?es = "es @ delivery_events env out f w" and ?as = "as @ delivery_commits env out f w w'"
  have "waiting_known ?es ?as w'" unfolding waiting_known_def
  proof (intro allI impI, elim conjE)
    fix g c' x' assume g: "waits w' g c' ZT_ON_COMMIT" and x': "ctx_heap w' c' = Some x'"
    note xo = W(2)[OF g x']
    from g consider (old) "g \<noteq> f" "waits w g c' ZT_ON_COMMIT"
      | (fresh) "g = next_handle w" "c' = c" "requests_commit env out p" "submit_ok env" using W(1) by blast
    then show "g \<notin> set (told ?es) \<and> known ?es ?as g (z_id x') (tick_count x')"
    proof cases
      case old
      then show ?thesis using D(6)[OF old(2) xo] known_mono by (auto simp: evs)
    next
      case fresh
      then show ?thesis
        using new x(1) xo by (auto simp: evs cms known_def requests_commit_def)
    qed
  qed
  moreover have "told_after ?es"
    using D(3) told_f by (simp add: evs told_after_snoc)
  moreover have "distinct (applied ?es @ map at_commit ?as)" using D(1) new by (auto simp: evs cms)
  moreover have "distinct (told ?es)" using D(2) told_f by (auto simp: evs)
  moreover have "\<forall>g \<in> set (applied ?es @ map at_commit ?as @ told ?es). g < next_handle w'"
    using D(4) nh told_f by (auto simp: evs cms intro: less_le_trans)
  moreover have "\<forall>g \<in> set (applied ?es @ map at_commit ?as).
      g \<in> set (told ?es @ lost ?es) \<or> (\<exists>c. waits w' g c ZT_ON_COMMIT)"
  proof
    fix g assume "g \<in> set (applied ?es @ map at_commit ?as)"
    then consider (old) "g \<in> set (applied es @ map at_commit as)" | (fresh) "g = next_handle w" "requests_commit env out p"
      by (auto simp: evs cms split: if_splits)
    then show "g \<in> set (told ?es @ lost ?es) \<or> (\<exists>c. waits w' g c ZT_ON_COMMIT)"
    proof cases
      case old
      have "p = ZT_ON_COMMIT" if "waits w f c' ZT_ON_COMMIT" for c'
        using that wt by (auto simp: waits_def split: option.splits)
      then show ?thesis using D(5)[OF old] W(1) by (cases "g = f") (auto simp: evs)
    next
      case fresh
      then show ?thesis using W(1)[of g c] by (auto simp: evs requests_commit_def)
    qed
  qed
  ultimately show ?thesis unfolding ids_inv_def by blast
qed

lemma writes_in_range_run:
  assumes inv: "zt_inv {} {} w" and db: "db (fdb_state w) \<noteq> None"
    and r: "zf_zonetick_run env z n d u w = Some (r, w')" and wr: "writes_in_range w"
  shows "writes_in_range w'"
  using inv db r
proof (cases rule: run_cases)
  case refused
  then show ?thesis using wr frame_same_but_log(1,2)[of w w'] by (simp add: writes_in_range_def)
next
  case waiting
  let ?t = "Suc (next_handle w)"
  have no: "transactions w ?t = None" using handles_fresh_None(3)[OF zt_invD(1)[OF inv], of ?t] by simp
  have "tr x \<noteq> Some ?t" if "ctx_heap w c = Some x" for c x using ctx_live[OF inv that] no by auto
  then show ?thesis
    using wr unfolding writes_in_range_def waiting(2)
    by (auto simp: empty_transaction_def split: if_splits) force
next
  case (ended w1)
  let ?c = "next_handle w"
  note fr = frame_same_but_log[OF ended(2)]
  have "transactions w' = transactions w" "ctx_heap w' = ctx_heap w"
    using ended(3) fr handles_fresh_None(3)[OF zt_invD(1)[OF inv], of "Suc ?c"] ctx_fresh[OF inv, of ?c]
    by (simp_all add: finished_def fun_upd_fresh_cancel domIff)
  then show ?thesis using wr by (simp add: writes_in_range_def)
qed

lemma writes_in_range_store: "writes_in_range (w\<lparr>store := m\<rparr>) \<longleftrightarrow> writes_in_range w"
  by (simp add: writes_in_range_def)

lemma answer_in_range:
  assumes "request_ok req ZT_ON_RANGE_READ t x" "answer_ok req out" "out_error out = 0" "out_kv_error out = 0"
  shows "distinct (map fst (out_kvs out))" "\<And>k. k \<in> fst ` set (out_kvs out) \<Longrightarrow> in_zone_range (z_id x) k"
  using assms by (auto simp: request_ok_def range_request_def in_zone_range_def)

lemma tick_kvs_fst: "fst ` set (tick_kvs n kvs) = fst ` set kvs"
  using tick_kvs_keys[of n kvs] by (metis list.set_map)

lemma writes_in_range_deliver:
  assumes inv: "zt_inv {} {} w" and client: "client_documented client" and req: "futures w f = Some req"
    and ok: "answer_ok req out" and d: "zt_deliver client env out f w = Some w'" and wr: "writes_in_range w"
  shows "writes_in_range w'"
  unfolding writes_in_range_def
proof (intro allI impI ballI, elim conjE)
  obtain c p x t y where wt: "waits w f c p" and x: "ctx_heap w c = Some x" "tr x = Some t"
    and y: "transactions w t = Some y" and r: "request_ok req p t x"
    and af: "tick_after (zt_protocol env out p t (z_id x)) c x w w'"
    and fr: "\<forall>c'. c' \<noteq> c \<longrightarrow> ctx_heap w' c' = ctx_heap w c'"
    by (rule delivery_facts[OF inv client req d])
  fix c' x' t' y' k
  assume x': "ctx_heap w' c' = Some x'" "tr x' = Some t'" and y': "transactions w' t' = Some y'"
    and k: "k \<in> fst ` set (writes y')"
  show "in_zone_range (z_id x') k"
  proof (cases "c' = c")
    case True
    have xx: "x' = x" using af x'(1) True by (auto simp: tick_after_def split: tick_effect.splits)
    have old: "\<And>k. k \<in> fst ` set (writes y) \<Longrightarrow> in_zone_range (z_id x) k"
      using wr x y unfolding writes_in_range_def by blast
    obtain y2 where "transactions w' t = Some y2" "writes y2 =
      (if p = ZT_ON_RANGE_READ \<and> out_error out = 0 \<and> out_kv_error out = 0
       then writes y @ tick_kvs (tick_count x) (out_kvs out)
       else if p = ZT_ON_ERROR_RETRY \<and> out_error out = 0 then [] else writes y)"
      using own_writes[OF inv client wt d x y x'(1)[unfolded True]] by blast
    then show ?thesis
      using k y' x'(2) x(2) old answer_in_range(2)[of req t x out k] r ok
      by (auto simp: xx image_Un tick_kvs_fst split: if_splits)
  next
    case False
    then have xo: "ctx_heap w c' = Some x'" using fr x'(1) by simp
    then show ?thesis
      using deliver_other_transaction[OF inv wt d xo x'(2) False] wr x'(2) y' k unfolding writes_in_range_def
      by (metis (no_types, lifting))
  qed
qed

lemma attempts_deliver:
  assumes inv: "zt_inv {} {} w" and client: "client_documented client" and req: "futures w f = Some req"
    and ok: "answer_ok req out" and d: "zt_deliver client env out f w = Some w'" and wr: "writes_in_range w"
  shows "list_all attempt_ok (delivery_commits env out f w w')"
proof -
  obtain c p x t y where wt: "waits w f c p" and x: "ctx_heap w c = Some x" "tr x = Some t"
    and y: "transactions w t = Some y" and r: "request_ok req p t x"
    and af: "tick_after (zt_protocol env out p t (z_id x)) c x w w'"
    by (rule delivery_facts[OF inv client req d])
  have "\<And>k. k \<in> fst ` set (writes y) \<Longrightarrow> in_zone_range (z_id x) k"
    using wr x y unfolding writes_in_range_def by blast
  moreover have "distinct (map fst (out_kvs out)) \<and> (\<forall>k \<in> fst ` set (out_kvs out). in_zone_range (z_id x) k)"
    if "requests_commit env out p"
    using that answer_in_range[of req t x out] r ok by (auto simp: requests_commit_def)
  ultimately show ?thesis
    by (auto simp: delivery_commits_eq[OF inv client wt d x y af] attempt_ok_def)
qed

subsection \<open>Effect and reports\<close>

abbreviation successes_of :: "zt_world \<Rightarrow> (handle \<times> handle \<times> bool) list" where
  "successes_of w \<equiv> filter (\<lambda>(d, u, ok). ok) (done_log w)"

lemma filter_report: "filter (\<lambda>(d, u, ok). ok) (report x b) = (if b then report x True else [])"
  by (simp add: report_def split: option.splits)

lemma run_successes:
  assumes "zt_inv {} {} w" "db (fdb_state w) \<noteq> None" "zf_zonetick_run env z n d u w = Some (r, w')"
  shows "successes_of w' = successes_of w"
  using assms
proof (cases rule: run_cases)
  case (ended w1)
  then show ?thesis
    using frame_same_but_log[OF ended(2)] by (simp add: finished_def split: option.splits)
qed (auto dest!: frame_same_but_log(3))

lemma deliver_reports:
  assumes inv: "zt_inv {} {} w" and client: "client_documented client" and req: "futures w f = Some req"
    and ok: "answer_ok req out" and d: "zt_deliver client env out f w = Some w'"
  shows "store w' = store w" and "fold apply_event (delivery_events env out f w) m = m"
    and "successes_of w' = successes_of w @ concat (map event_reports (delivery_events env out f w))"
    and "list_all event_ok (delivery_events env out f w)"
proof -
  obtain c p x t y where wt: "waits w f c p" and x: "ctx_heap w c = Some x" "tr x = Some t"
    and y: "transactions w t = Some y"
    and r: "request_ok req p t x" and af: "tick_after (zt_protocol env out p t (z_id x)) c x w w'"
    and st: "store w' = (if p = ZT_ON_COMMIT \<and> out_applied out then apply_writes (writes y) (store w) else store w)"
    by (rule delivery_facts[OF inv client req d])
  note evs = delivery_events_eq[OF wt x(1), of env out]
  show "store w' = store w" using st ok r by (auto simp: request_ok_def)
  show "fold apply_event (delivery_events env out f w) m = m" "list_all event_ok (delivery_events env out f w)"
    by (simp_all add: evs)
  have "done_log w' = done_log w \<or> done_log w' = done_log w @ report x False"
    if "\<not> (p = ZT_ON_COMMIT \<and> out_error out = 0)"
    using af that by (cases p) (auto simp: tick_after_def submit_effect_def split: if_splits)
  moreover have "done_log w' = done_log w @ report x True" if "p = ZT_ON_COMMIT" "out_error out = 0"
    using af that by (simp add: tick_after_def)
  ultimately show "successes_of w' = successes_of w @ concat (map event_reports (delivery_events env out f w))"
    by (auto simp: evs filter_report)
qed

lemma keys_ticked_apply:
  assumes "distinct (map fst kvs)" "\<forall>(k, v) \<in> set kvs. m k = Some v"
  shows "apply_writes (tick_kvs n kvs) m = keys_ticked n (fst ` set kvs) m"
proof
  fix k
  show "apply_writes (tick_kvs n kvs) m k = keys_ticked n (fst ` set kvs) m k"
  proof (cases "k \<in> fst ` set kvs")
    case True
    then obtain v where v: "(k, v) \<in> set kvs" by auto
    then show ?thesis using apply_tick_kvs(1)[OF assms(1) v] assms(2) True by (auto simp: keys_ticked_def)
  next
    case False
    then show ?thesis using apply_tick_kvs(2)[OF assms(1) False] by (simp add: keys_ticked_def)
  qed
qed

lemma apply_writes_append: "apply_writes (us @ vs) m = apply_writes vs (apply_writes us m)"
  by (simp add: apply_writes_def)

lemma commit_applies:
  assumes "attempt_ok a" "read_current a m"
  shows "apply_writes (at_writes a) m = apply_event (commit_event a) m" and "event_ok (commit_event a)"
proof -
  have a: "at_writes a = at_stale a @ tick_kvs (at_count a) (at_read a)" "distinct (map fst (at_read a))"
    using assms(1) by (simp_all add: attempt_ok_def)
  show "apply_writes (at_writes a) m = apply_event (commit_event a) m"
    using keys_ticked_apply[OF a(2)] assms(2) by (simp add: a(1) apply_writes_append commit_event_def read_current_def)
  show "event_ok (commit_event a)" using assms(1) by (simp add: attempt_ok_def commit_event_def)
qed

subsection \<open>Whole runs\<close>

definition hist_inv :: "(bytes \<rightharpoonup> bytes) \<Rightarrow> hist_state \<Rightarrow> bool" where
  "hist_inv m0 s \<longleftrightarrow> (case s of ((es, as), w) \<Rightarrow>
     store w = fold apply_event es m0 \<and> successes_of w = concat (map event_reports es) \<and>
     writes_in_range w \<and> list_all attempt_ok as \<and> list_all event_ok es \<and> ids_inv es as w)"

lemma hist_inv_step:
  assumes inv: "zt_inv {} {} (snd s)" and client: "client_documented client"
    and st: "hist_step client ok a s s'" and hi: "hist_inv m0 s"
  shows "hist_inv m0 s'"
  using st
proof cases
  case (deliver w f req out es env w' as)
  have zi: "zt_inv {} {} w" using inv deliver by simp
  note rep = deliver_reports[OF zi client deliver(4,6,8)]
  have wr: "writes_in_range w" "ids_inv es as w" using hi deliver by (simp_all add: hist_inv_def)
  show ?thesis
    using hi rep writes_in_range_deliver[OF zi client deliver(4,6,8) wr(1)]
      attempts_deliver[OF zi client deliver(4,6,8) wr(1)] ids_deliver[OF zi client deliver(4,7,8) wr(2)]
    by (simp add: hist_inv_def deliver)
next
  case (commit a w m es as bs)
  have "attempt_ok a" "ids_inv es (as @ a # bs) w" using hi commit by (simp_all add: hist_inv_def)
  then show ?thesis
    using hi commit commit_applies[of a "store w"] ids_commit[of es as a bs w]
    by (simp add: hist_inv_def ids_store writes_in_range_store) (simp add: commit_event_def)
next
  case (other m es as w)
  then show ?thesis
    using hi ids_foreign[of es as w m] by (simp add: hist_inv_def ids_store writes_in_range_store)
qed

lemma history_hist_inv:
  assumes "zt_history client ok w0 s" and client: "client_documented client"
  shows "hist_inv (store w0) s"
  using assms(1)
proof (induction rule: zt_history.induct)
  case start
  then have "\<not> waits w0 f c p" for f c p by (simp add: zt_initial_def waits_def)
  then show ?case
    using start by (simp add: hist_inv_def zt_initial_def writes_in_range_def ids_inv_def told_after_def waiting_known_def)
next
  case (run h w env z n d u r w')
  note inv = history_inv[OF run(1)]
  show ?case
    using run(3) run_store[OF inv run(2)] run_successes[OF inv run(2)] writes_in_range_run[OF inv run(2)]
      ids_run[OF inv run(2)]
    by (cases h) (simp add: hist_inv_def)
next
  case (arrive s a s')
  have "zt_inv {} {} (snd s)" using arrive(1) history_inv(1)[of client ok w0 "fst s" "snd s"] by simp
  then show ?case using hist_inv_step[OF _ client arrive(2,3)] by blast
qed

end
