(* ===== verification/Zonetick_Atomic.thy ===== *)
theory Zonetick_Atomic
  imports Zonetick_History
begin

text \<open>
  Concurrent ticks are atomic: what any interleaving does to the database, seen as a whole and key by
  key.
\<close>

subsection \<open>Clean attempts\<close>

lemma history_clean:
  assumes "zt_history client retry_granted w0 s" and client: "client_documented client"
  shows "(\<forall>a \<in> set (snd (fst s)). at_stale a = []) \<and>
    (\<forall>g z n stale kvs. Ticked g z n stale kvs \<in> set (fst (fst s)) \<longrightarrow> stale = [])"
  using assms(1)
proof (induction rule: zt_history.induct)
  case (arrive s a s')
  obtain k where k: "zt_reach client retry_granted k (snd s)" using history_reach[OF arrive(1)] by blast
  show ?case using arrive(2)
  proof cases
    case (deliver w f req out es env w' as)
    have inv: "zt_inv {} {} w" and tx: "tx_inv w" using reach_zt_inv(1)[OF k] reach_tx_inv[OF k client] deliver by simp_all
    obtain c p x t y where wt: "waits w f c p" and x: "ctx_heap w c = Some x" "tr x = Some t"
      and y: "transactions w t = Some y" and af: "tick_after (zt_protocol env out p t (z_id x)) c x w w'"
      by (rule delivery_facts[OF inv client deliver(4,8)])
    have "writes y = []" if "requests_commit env out p"
      using tx wt x y that unfolding tx_inv_def requests_commit_def by (metis phase_ok.simps(1))
    then show ?thesis
      using arrive(3) delivery_commits_eq[OF inv client wt deliver(8) x y af] delivery_events_eq[OF wt x(1), of env out]
      by (auto simp: deliver split: if_splits)
  next
    case (commit a w m es as bs)
    then show ?thesis using arrive(3) by (auto simp: commit_event_def)
  next
    case (other m es as w)
    then show ?thesis using arrive(3) by auto
  qed
qed simp_all

lemma apply_writes_cong: "m k = m' k \<Longrightarrow> apply_writes ws m k = apply_writes ws m' k"
proof (induction ws arbitrary: m m')
  case (Cons a ws)
  show ?case by (cases a) (simp, rule Cons.IH, use Cons.prems in simp)
qed simp

lemma value_event_eq:
  assumes "event_ok e"
  shows "in_zone_range z key \<Longrightarrow> apply_event e m key = value_event z key e (m key)"
    and "(\<And>z. \<not> in_zone_range z key) \<Longrightarrow> apply_event e m key = foreign_event key e (m key)"
proof -
  have out: "apply_event (Ticked g z' n stale kvs) m key = m key"
    if "e = Ticked g z' n stale kvs" "\<not> in_zone_range z' key" for g z' n stale kvs
  proof -
    have "key \<notin> fst ` set stale" "key \<notin> fst ` set kvs" using assms that by (auto simp: image_Un)
    then show ?thesis by (simp add: keys_ticked_def apply_writes_notin)
  qed
  show "apply_event e m key = value_event z key e (m key)" if "in_zone_range z key"
  proof (cases e)
    case (Ticked g z' n stale kvs)
    show ?thesis
    proof (cases "z' = z")
      case True
      then show ?thesis
        using apply_writes_cong[of m key "\<lambda>_. m key" stale] by (simp add: Ticked keys_ticked_def)
    next
      case False
      then have "\<not> in_zone_range z' key" using in_zone_range_unique[OF that, of z'] by blast
      then show ?thesis using out[OF Ticked] False by (simp add: Ticked)
    qed
  qed simp_all
  show "apply_event e m key = foreign_event key e (m key)" if "\<And>z. \<not> in_zone_range z key"
    using out[OF _ that] by (cases e) simp_all
qed

lemma value_projection:
  assumes "list_all event_ok es"
  shows "in_zone_range z key \<Longrightarrow> fold apply_event es m key = fold (value_event z key) es (m key)"
    and "(\<And>z. \<not> in_zone_range z key) \<Longrightarrow> fold apply_event es m key = fold (foreign_event key) es (m key)"
  using assms by (induction es arbitrary: m) (simp_all add: value_event_eq)

lemma complete_read_ticks:
  assumes "range_current z kvs m"
  shows "keys_ticked n (fst ` set kvs) m = zone_ticked z n m"
proof
  fix k
  have "k \<in> fst ` set kvs \<longleftrightarrow> in_zone_range z k \<and> m k \<noteq> None"
    using assms by (force simp: range_current_def)
  then show "keys_ticked n (fst ` set kvs) m k = zone_ticked z n m k"
    by (auto simp: keys_ticked_def zone_ticked_def)
qed

text \<open>C3: concurrent ticks are atomic. Take any interleaving of runs (any zones, two of the same zone
  included), deliveries with any errors, commits that the database applies at any moment after
  they were requested (also one whose result is then unknown, or never delivered), and writes of
  other processes. The client is assumed to do what it documents: range reads return keys of the
  requested range, each once; a commit takes effect at most once and only while what its
  transaction read is what the database has; a commit without an error has taken effect. Then
  the database is the result of the events in their order, in which a commit is one atomic step
  that advances the entities it read. If its read was complete, that is one tick of the whole
  zone; what comes before it are writes that an unsuccessful attempt left in the transaction,
  and there are none if every retry was granted. The successes reported to the completion
  callbacks are exactly those told in the history, in order; each commit is applied at most once
  and told at most once, and is told only after it was applied, with the zone and the count of
  its own tick. And a zone is affected by its own ticks and by foreign writes only: the value of
  a key in its range follows from these events, and a key in no zone's range changes by foreign
  writes alone.\<close>

theorem ticks_atomic:
  assumes "zt_history client ok w0 ((es, as), w)" and "client_documented client"
  shows "store w = fold apply_event es (store w0) \<and>
    filter (\<lambda>(d, u, ok). ok) (done_log w) = concat (map event_reports es) \<and>
    distinct (applied es) \<and> distinct (told es) \<and>
    (\<forall>es1 es2 g z n rs. es = es1 @ Told g z n rs # es2 \<longrightarrow> (\<exists>stale kvs. Ticked g z n stale kvs \<in> set es1)) \<and>
    (\<forall>es1 es2 g z n stale kvs m. es = es1 @ Ticked g z n stale kvs # es2 \<and> m = fold apply_event es1 (store w0) \<longrightarrow>
       (range_current z kvs (apply_writes stale m) \<longrightarrow>
          apply_event (Ticked g z n stale kvs) m = zone_ticked z n (apply_writes stale m)) \<and>
       (ok = retry_granted \<longrightarrow> stale = [])) \<and>
    (in_zone_range z key \<longrightarrow> store w key = fold (value_event z key) es (store w0 key)) \<and>
    ((\<forall>z. \<not> in_zone_range z key) \<longrightarrow> store w key = fold (foreign_event key) es (store w0 key))"
proof -
  have h: "store w = fold apply_event es (store w0)" "successes_of w = concat (map event_reports es)"
    "list_all event_ok es" "ids_inv es as w"
    using history_hist_inv[OF assms] by (simp_all add: hist_inv_def)
  have clean: "stale = []" if "ok = retry_granted" "Ticked g z n stale kvs \<in> set es" for g z n stale kvs
    using history_clean[OF assms(1)[unfolded that(1)] assms(2)] that(2) by simp blast
  have "\<forall>es1 es2 g z n stale kvs m. es = es1 @ Ticked g z n stale kvs # es2 \<and> m = fold apply_event es1 (store w0) \<longrightarrow>
       (range_current z kvs (apply_writes stale m) \<longrightarrow>
          apply_event (Ticked g z n stale kvs) m = zone_ticked z n (apply_writes stale m)) \<and>
       (ok = retry_granted \<longrightarrow> stale = [])"
  proof (intro allI impI conjI)
    fix es1 es2 g z n stale kvs m
    assume e: "es = es1 @ Ticked g z n stale kvs # es2 \<and> m = fold apply_event es1 (store w0)"
    show "apply_event (Ticked g z n stale kvs) m = zone_ticked z n (apply_writes stale m)"
      if "range_current z kvs (apply_writes stale m)" using complete_read_ticks[OF that] by simp
    show "stale = []" if "ok = retry_granted" by (rule clean[OF that, of g z n stale kvs]) (simp add: e)
  qed
  moreover have "distinct (applied es)" "distinct (told es)" "told_after es" using h(4) by (simp_all add: ids_inv_def)
  moreover have "in_zone_range z key \<longrightarrow> store w key = fold (value_event z key) es (store w0 key)"
    "(\<forall>z. \<not> in_zone_range z key) \<longrightarrow> store w key = fold (foreign_event key) es (store w0 key)"
    using value_projection[OF h(3)] by (auto simp: h(1))
  ultimately show ?thesis using h(1,2) unfolding told_after_def by blast
qed

subsection \<open>A sample history\<close>

text \<open>The sample tick of zone 7: its commit is applied before its future is delivered.\<close>

definition sample_attempt :: attempt where
  "sample_attempt = \<lparr>at_commit = 4, at_zone = 7, at_count = 3, at_stale = [], at_read = out_kvs sample_read,
     at_writes = tick_kvs 3 (out_kvs sample_read)\<rparr>"

definition sample_w3 :: zt_world where
  "sample_w3 = sample_w2\<lparr>store := apply_writes (at_writes sample_attempt) sample_store\<rparr>"

lemma sample_requested:
  "zt_history reference_client retry_granted sample_w0 (([], [sample_attempt]), sample_w2)"
proof -
  have w1: "zt_history reference_client retry_granted sample_w0 (([], []), sample_w1)"
    using zt_history.run[OF zt_history.start[OF sample_initial(1)] sample_run] .
  note inv = history_inv(1)[OF w1]
  obtain c p x t y where f: "waits sample_w1 2 c p" "ctx_heap sample_w1 c = Some x" "tr x = Some t"
    "transactions sample_w1 t = Some y" "tick_after (zt_protocol good_env sample_read p t (z_id x)) c x sample_w1 sample_w2"
    by (rule delivery_facts[OF inv reference_client_documented sample_w1(4) sample_steps(1)])
  have p: "c = 0" "p = ZT_ON_RANGE_READ" "x = sample_ctx"
    using f(1,2) sample_w1(1-3) by (auto simp: waits_def split: if_splits)
  have "transactions sample_w1 1 = Some empty_transaction" by (simp add: sample_w1_def)
  then have y: "writes y = []" using f(3,4) by (auto simp: p sample_ctx_def empty_transaction_def)
  have "requests_commit good_env sample_read p" by (simp add: p requests_commit_def good_env_def)
  then have "delivery_commits good_env sample_read 2 sample_w1 sample_w2 = [sample_attempt]"
    "delivery_events good_env sample_read 2 sample_w1 = []"
    using delivery_commits_eq[OF inv reference_client_documented f(1) sample_steps(1) f(2-5)]
      delivery_events_eq[OF f(1,2), of good_env sample_read]
    by (simp_all add: p y sample_attempt_def) (simp_all add: sample_ctx_def)
  moreover have "answer_ok (range_request 1 7) sample_read" "retry_granted (range_request 1 7) sample_read"
    "commit_ok [] 2 (range_request 1 7) sample_read"
    using entity_key_in_range_iff[of 7 7 42] by (simp_all add: range_request_def in_zone_range_def)
  ultimately show ?thesis
    using zt_history.arrive[OF w1 hist_step.deliver[OF sample_w1(4) _ _ _ sample_steps(1), of retry_granted "[]" "[]"]]
    by simp
qed

lemma sample_applied:
  "zt_history reference_client retry_granted sample_w0 (([commit_event sample_attempt], []), sample_w3)"
proof -
  have "read_current sample_attempt (store sample_w2)"
    by (simp add: read_current_def sample_attempt_def sample_store_def)
  from zt_history.arrive[OF sample_requested hist_step.commit[OF this refl, of reference_client retry_granted "[]" "[]" "[]", simplified]]
  show ?thesis by (simp add: sample_w3_def)
qed

theorem ticks_atomic_witness:
  "\<exists>w. zt_history reference_client retry_granted sample_w0
      (([Ticked 4 7 3 [] (out_kvs sample_read), Told 4 7 3 [(99, 5, True)]], []), w) \<and>
     store w = zone_ticked 7 3 sample_store \<and> filter (\<lambda>(d, u, ok). ok) (done_log w) = [(99, 5, True)]"
proof -
  let ?out = "sample_done\<lparr>out_applied := False\<rparr>"
  note inv = history_inv(1)[OF sample_applied]
  have wt: "waits sample_w3 4 0 ZT_ON_COMMIT" and x: "ctx_heap sample_w3 0 = Some sample_ctx"
    using sample_w2(1,2) waits_cong[of sample_w3 sample_w2] by (simp_all add: sample_w3_def)
  obtain req where req: "futures sample_w3 4 = Some req" "request_ok req ZT_ON_COMMIT 1 sample_ctx"
    by (rule waits_tick[OF inv wt]) (use x in \<open>auto simp: sample_ctx_def\<close>)
  obtain a cc where "registered sample_w3 4 = Some a" "callback_heap sample_w3 a = Some cc" "ctx cc = 0" "cb cc = ZT_ON_COMMIT"
    using wt by (rule waitsD)
  then obtain w where d: "zt_deliver reference_client good_env ?out 4 sample_w3 = Some w"
    using deliver_defined_iff[OF inv, of 4 a cc sample_ctx reference_client good_env ?out] x
    by (auto simp: outcome_defined_def)
  have ev: "delivery_events good_env ?out 4 sample_w3 = [Told 4 7 3 [(99, 5, True)]]"
    by (simp add: delivery_events_eq[OF wt x] sample_ctx_def report_def)
  have "delivery_commits good_env ?out 4 sample_w3 w = []"
    using waits_pending[OF wt x] by (simp add: delivery_commits_def requests_commit_def)
  then have h: "zt_history reference_client retry_granted sample_w0
      (([Ticked 4 7 3 [] (out_kvs sample_read), Told 4 7 3 [(99, 5, True)]], []), w)"
    using zt_history.arrive[OF sample_applied hist_step.deliver[OF req(1) _ _ _ d, of retry_granted "[commit_event sample_attempt]" "[]"]]
      req(2) ev by (simp add: request_ok_def commit_event_def sample_attempt_def)
  have "keys_ticked 3 (fst ` set (out_kvs sample_read)) sample_store = zone_ticked 7 3 sample_store"
    by (rule complete_read_ticks[OF sample_current(1)])
  then show ?thesis
    using ticks_atomic[OF h reference_client_documented] h by auto
qed

end
