(* ===== verification/Sinew.thy ===== *)
theory Sinew
  imports Complex_Main Prelude
begin

text \<open>
  The rotation fit: \<^verbatim>\<open>src/gen/sinew_align.{h,c}\<close>.

  The arithmetic of doubles is a parameter \<open>A\<close>: the operations of the C language and of
  the mathematical library the file uses, over a type \<open>'d\<close> of numbers, with the
  literals given by their real value. The definitions are the C functions over any such
  arithmetic, so whatever they show of control flow and array handling holds with rounding;
  \<open>exact\<close> is the arithmetic of the real numbers, in which the algebraic theorems are stated.
  Arrays are lists of 3 or 9 numbers in row-major order; a loop that fills an array cell by
  cell from other arrays is a list comprehension in the order of the loop.
\<close>

subsection \<open>Arithmetic\<close>

record 'd arith =
  lit :: "real \<Rightarrow> 'd"
  add :: "'d \<Rightarrow> 'd \<Rightarrow> 'd"
  sub :: "'d \<Rightarrow> 'd \<Rightarrow> 'd"
  mul :: "'d \<Rightarrow> 'd \<Rightarrow> 'd"
  quot :: "'d \<Rightarrow> 'd \<Rightarrow> 'd"
  neg :: "'d \<Rightarrow> 'd"
  f_abs :: "'d \<Rightarrow> 'd"
  f_sqrt :: "'d \<Rightarrow> 'd"
  f_max :: "'d \<Rightarrow> 'd \<Rightarrow> 'd"
  f_min :: "'d \<Rightarrow> 'd \<Rightarrow> 'd"
  f_atan2 :: "'d \<Rightarrow> 'd \<Rightarrow> 'd"
  f_cos :: "'d \<Rightarrow> 'd"
  f_sin :: "'d \<Rightarrow> 'd"
  lt :: "'d \<Rightarrow> 'd \<Rightarrow> bool"
  le :: "'d \<Rightarrow> 'd \<Rightarrow> bool"

definition SINEW_EPS :: real where
  "SINEW_EPS = 1 / 10 ^ 8"

text \<open>The sum of three products, left to right.\<close>

definition dot3 :: "'d arith \<Rightarrow> 'd \<Rightarrow> 'd \<Rightarrow> 'd \<Rightarrow> 'd \<Rightarrow> 'd \<Rightarrow> 'd \<Rightarrow> 'd" where
  "dot3 A x0 y0 x1 y1 x2 y2 = add A (add A (mul A x0 y0) (mul A x1 y1)) (mul A x2 y2)"

subsection \<open>Vectors and matrices\<close>

definition v3_dot :: "'d arith \<Rightarrow> 'd list \<Rightarrow> 'd list \<Rightarrow> 'd" where
  "v3_dot A a b = dot3 A (a ! 0) (b ! 0) (a ! 1) (b ! 1) (a ! 2) (b ! 2)"

definition v3_cross :: "'d arith \<Rightarrow> 'd list \<Rightarrow> 'd list \<Rightarrow> 'd list" where
  "v3_cross A a b =
     [sub A (mul A (a ! 1) (b ! 2)) (mul A (a ! 2) (b ! 1)),
      sub A (mul A (a ! 2) (b ! 0)) (mul A (a ! 0) (b ! 2)),
      sub A (mul A (a ! 0) (b ! 1)) (mul A (a ! 1) (b ! 0))]"

definition v3_norm :: "'d arith \<Rightarrow> 'd list \<Rightarrow> 'd" where
  "v3_norm A a = f_sqrt A (v3_dot A a a)"

definition v3_scale :: "'d arith \<Rightarrow> 'd list \<Rightarrow> 'd \<Rightarrow> 'd list" where
  "v3_scale A a s = [mul A (a ! 0) s, mul A (a ! 1) s, mul A (a ! 2) s]"

definition sinew_det9 :: "'d arith \<Rightarrow> 'd list \<Rightarrow> 'd" where
  "sinew_det9 A m =
     add A
       (sub A
         (mul A (m ! 0) (sub A (mul A (m ! 4) (m ! 8)) (mul A (m ! 5) (m ! 7))))
         (mul A (m ! 1) (sub A (mul A (m ! 3) (m ! 8)) (mul A (m ! 5) (m ! 6)))))
       (mul A (m ! 2) (sub A (mul A (m ! 3) (m ! 7)) (mul A (m ! 4) (m ! 6))))"

definition sinew_mul9 :: "'d arith \<Rightarrow> 'd list \<Rightarrow> 'd list \<Rightarrow> 'd list" where
  "sinew_mul9 A a b =
     [dot3 A (a ! (r * 3)) (b ! col) (a ! (r * 3 + 1)) (b ! (3 + col)) (a ! (r * 3 + 2)) (b ! (6 + col)).
       r \<leftarrow> [0..<3], col \<leftarrow> [0..<3]]"

definition sinew_transpose9 :: "'d list \<Rightarrow> 'd list" where
  "sinew_transpose9 m = [m ! (j * 3 + i). i \<leftarrow> [0..<3], j \<leftarrow> [0..<3]]"

text \<open>The products of the columns of a matrix, which three functions compute in line.\<close>

definition gram9 :: "'d arith \<Rightarrow> 'd list \<Rightarrow> 'd list" where
  "gram9 A r =
     [dot3 A (r ! i) (r ! j) (r ! (3 + i)) (r ! (3 + j)) (r ! (6 + i)) (r ! (6 + j)).
       i \<leftarrow> [0..<3], j \<leftarrow> [0..<3]]"

subsection \<open>Rotation of one pair\<close>

definition clamp1 :: "'d arith \<Rightarrow> 'd \<Rightarrow> 'd" where
  "clamp1 A d =
     (let d = (if lt A d (lit A (-1)) then lit A (-1) else d)
      in if lt A (lit A 1) d then lit A 1 else d)"

definition sinew_rodrigues :: "'d arith \<Rightarrow> 'd list \<Rightarrow> 'd list \<Rightarrow> 'd list" where
  "sinew_rodrigues A a b =
     (let an = v3_norm A a; bn = v3_norm A b;
          au = v3_scale A a (quot A (lit A 1) (f_max A an (lit A SINEW_EPS)));
          bu = v3_scale A b (quot A (lit A 1) (f_max A bn (lit A SINEW_EPS)));
          d = clamp1 A (v3_dot A au bu)
      in if lt A d (add A (lit A (-1)) (lit A (1 / 10 ^ 6)))
         then (let big = lt A (lit A (6 / 10)) (f_abs A (bu ! 0));
                   w = [if big then lit A 0 else lit A 1, if big then lit A 1 else lit A 0, lit A 0];
                   x0 = v3_cross A bu w;
                   x = v3_scale A x0 (quot A (lit A 1) (v3_norm A x0))
               in [sub A (mul A (mul A (lit A 2) (x ! r)) (x ! c)) (if r = c then lit A 1 else lit A 0).
                    r \<leftarrow> [0..<3], c \<leftarrow> [0..<3]])
         else (let v = v3_cross A bu au;
                   k = [lit A 0, neg A (v ! 2), v ! 1, v ! 2, lit A 0, neg A (v ! 0),
                        neg A (v ! 1), v ! 0, lit A 0];
                   kk = sinew_mul9 A k k;
                   f = quot A (lit A 1) (add A (lit A 1) d)
               in [add A (add A (if i mod 4 = 0 then lit A 1 else lit A 0) (k ! i)) (mul A f (kk ! i)).
                    i \<leftarrow> [0..<9]]))"

subsection \<open>Orthogonalisation\<close>

definition row_abs_sum :: "'d arith \<Rightarrow> 'd list \<Rightarrow> nat \<Rightarrow> 'd" where
  "row_abs_sum A h r =
     add A (add A (f_abs A (h ! (r * 3))) (f_abs A (h ! (r * 3 + 1)))) (f_abs A (h ! (r * 3 + 2)))"

definition max_row_sum :: "'d arith \<Rightarrow> 'd list \<Rightarrow> 'd" where
  "max_row_sum A h = foldl (\<lambda>m r. f_max A m (row_abs_sum A h r)) (lit A 0) [0..<3]"

definition ns_step :: "'d arith \<Rightarrow> 'd list \<Rightarrow> 'd list" where
  "ns_step A r =
     (let rtr = gram9 A r;
          trm = [sub A (if k mod 4 = 0 then lit A 3 else lit A 0) (rtr ! k). k \<leftarrow> [0..<9]];
          rn = sinew_mul9 A r trm
      in [mul A (rn ! k) (lit A (1 / 2)). k \<leftarrow> [0..<9]])"

definition sinew_ns30 :: "'d arith \<Rightarrow> 'd list \<Rightarrow> 'd list" where
  "sinew_ns30 A h =
     (let mrs = max_row_sum A h;
          r = [quot A (h ! i) (add A mrs (lit A SINEW_EPS)). i \<leftarrow> [0..<9]];
          r = (ns_step A ^^ 30) r
      in if lt A (sinew_det9 A r) (lit A 0)
         then r[2 := neg A (r ! 2), 5 := neg A (r ! 5), 8 := neg A (r ! 8)]
         else r)"

definition sinew_regularize :: "'d arith \<Rightarrow> 'd list \<Rightarrow> 'd list" where
  "sinew_regularize A h =
     (let scale = max_row_sum A h;
          scale = (if lt A scale (lit A SINEW_EPS) then lit A SINEW_EPS else scale);
          vol = quot A (f_abs A (sinew_det9 A h)) (mul A (mul A scale scale) scale);
          rw = f_max A (lit A 0) (f_min A (lit A 1)
                 (quot A (sub A (lit A (1 / 10 ^ 6)) vol) (lit A (1 / 10 ^ 6))));
          ad = mul A (mul A (lit A (5 / 100)) rw) scale
      in h[0 := add A (h ! 0) ad, 4 := add A (h ! 4) ad, 8 := add A (h ! 8) ad])"

definition sinew_valid9 :: "'d arith \<Rightarrow> 'd list \<Rightarrow> bool" where
  "sinew_valid9 A r =
     (let d = sinew_det9 A r
      in if \<not> (lt A (lit A 0) d \<and> le A (f_abs A (sub A d (lit A 1))) (lit A (1 / 100))) then False
         else (let e = foldl (\<lambda>e (i, j).
                     f_max A e (f_abs A (sub A
                       (dot3 A (r ! i) (r ! j) (r ! (3 + i)) (r ! (3 + j)) (r ! (6 + i)) (r ! (6 + j)))
                       (if i = j then lit A 1 else lit A 0))))
                   (lit A 0) [(i, j). i \<leftarrow> [0..<3], j \<leftarrow> [0..<3]]
               in le A e (lit A (1 / 100))))"

subsection \<open>Eigenvectors of a symmetric matrix\<close>

text \<open>The update of columns \<open>p\<close> and \<open>q\<close>, and of rows, in place.\<close>

definition rotate_columns :: "'d arith \<Rightarrow> 'd \<Rightarrow> 'd \<Rightarrow> nat \<Rightarrow> nat \<Rightarrow> 'd list \<Rightarrow> 'd list" where
  "rotate_columns A c s p q a =
     fold (\<lambda>i a. let aip = a ! (i * 3 + p); aiq = a ! (i * 3 + q)
       in a[i * 3 + p := sub A (mul A c aip) (mul A s aiq), i * 3 + q := add A (mul A s aip) (mul A c aiq)])
     [0..<3] a"

definition rotate_rows :: "'d arith \<Rightarrow> 'd \<Rightarrow> 'd \<Rightarrow> nat \<Rightarrow> nat \<Rightarrow> 'd list \<Rightarrow> 'd list" where
  "rotate_rows A c s p q a =
     fold (\<lambda>i a. let api = a ! (p * 3 + i); aqi = a ! (q * 3 + i)
       in a[p * 3 + i := sub A (mul A c api) (mul A s aqi), q * 3 + i := add A (mul A s api) (mul A c aqi)])
     [0..<3] a"

definition jacobi_pair :: "'d arith \<Rightarrow> nat \<times> nat \<Rightarrow> 'd list \<times> 'd list \<Rightarrow> 'd list \<times> 'd list" where
  "jacobi_pair A pq av =
     (case (pq, av) of ((p, q), (a, v)) \<Rightarrow>
        let apq = a ! (p * 3 + q)
        in if lt A (f_abs A apq) (lit A (1 / 10 ^ 20)) then (a, v)
           else let phi = mul A (lit A (1 / 2))
                       (f_atan2 A (mul A (lit A 2) apq) (sub A (a ! (q * 3 + q)) (a ! (p * 3 + p))));
                    c = f_cos A phi; s = f_sin A phi
                in (rotate_rows A c s p q (rotate_columns A c s p q a), rotate_columns A c s p q v))"

fun jacobi_loop :: "'d arith \<Rightarrow> nat \<Rightarrow> 'd list \<times> 'd list \<Rightarrow> 'd list \<times> 'd list" where
  "jacobi_loop A 0 av = av"
| "jacobi_loop A (Suc n) av =
     (let a = fst av
      in if lt A (add A (add A (f_abs A (a ! 1)) (f_abs A (a ! 2))) (f_abs A (a ! 5))) (lit A (1 / 10 ^ 20))
         then av
         else jacobi_loop A n (fold (jacobi_pair A) [(0, 1), (0, 2), (1, 2)] av))"

definition identity9 :: "'d arith \<Rightarrow> 'd list" where
  "identity9 A = [lit A 1, lit A 0, lit A 0, lit A 0, lit A 1, lit A 0, lit A 0, lit A 0, lit A 1]"

definition sinew_jacobi9 :: "'d arith \<Rightarrow> 'd list \<Rightarrow> 'd list \<times> 'd list" where
  "sinew_jacobi9 A a_in =
     (let (a, v) = jacobi_loop A 50 (a_in, identity9 A) in ([a ! 0, a ! 4, a ! 8], v))"

subsection \<open>The singular value fallback\<close>

text \<open>The selection sort of the eigenvalue indices, largest first.\<close>

definition sort_desc :: "'d arith \<Rightarrow> 'd list \<Rightarrow> nat list" where
  "sort_desc A w =
     fold (\<lambda>(a, b) ord. if lt A (w ! (ord ! a)) (w ! (ord ! b))
                        then ord[a := ord ! b, b := ord ! a] else ord)
       [(0, 1), (0, 2), (1, 2)] [0, 1, 2]"

definition kabsch_left :: "'d arith \<Rightarrow> 'd list \<Rightarrow> 'd list \<Rightarrow> 'd list \<Rightarrow> 'd list" where
  "kabsch_left A h v sig =
     [mul A (dot3 A (h ! (3 * r)) (v ! c) (h ! (3 * r + 1)) (v ! (3 + c)) (h ! (3 * r + 2)) (v ! (6 + c)))
        (if lt A (lit A (1 / 10 ^ 12)) (sig ! c) then quot A (lit A 1) (sig ! c) else lit A 0).
       r \<leftarrow> [0..<3], c \<leftarrow> [0..<3]]"

text \<open>A column without a singular value becomes the cross product of the two others; the loop
  runs in order, so a later column sees an earlier one already completed.\<close>

definition kabsch_complete :: "'d arith \<Rightarrow> 'd list \<Rightarrow> 'd list \<Rightarrow> 'd list" where
  "kabsch_complete A sig u =
     fold (\<lambda>c u. if le A (sig ! c) (lit A (1 / 10 ^ 12))
        then (let a = (c + 1) mod 3; b = (c + 2) mod 3;
                  uc = v3_cross A [u ! a, u ! (3 + a), u ! (6 + a)] [u ! b, u ! (3 + b), u ! (6 + b)]
              in u[c := uc ! 0, 3 + c := uc ! 1, 6 + c := uc ! 2])
        else u)
       [0..<3] u"

definition sinew_kabsch :: "'d arith \<Rightarrow> 'd list \<Rightarrow> 'd list" where
  "sinew_kabsch A h =
     (let s = gram9 A h;
          (w, vc) = sinew_jacobi9 A s;
          ord = sort_desc A w;
          sig = [f_sqrt A (f_max A (w ! (ord ! c)) (lit A 0)). c \<leftarrow> [0..<3]];
          v = [vc ! (r * 3 + ord ! c). r \<leftarrow> [0..<3], c \<leftarrow> [0..<3]];
          u = kabsch_complete A sig (kabsch_left A h v sig);
          vt = sinew_transpose9 v;
          uvt = sinew_mul9 A u vt;
          sgn = (if lt A (sinew_det9 A uvt) (lit A 0) then lit A (-1) else lit A 1);
          ud = u[2 := mul A (u ! 2) sgn, 5 := mul A (u ! 5) sgn, 8 := mul A (u ! 8) sgn]
      in sinew_mul9 A ud vt)"

subsection \<open>The dispatcher\<close>

definition add_outer :: "'d arith \<Rightarrow> 'd list \<Rightarrow> 'd list \<Rightarrow> 'd list \<Rightarrow> 'd list" where
  "add_outer A a b h =
     fold (\<lambda>(i, j) h. h[i * 3 + j := add A (h ! (i * 3 + j)) (mul A (a ! i) (b ! j))])
       [(i, j). i \<leftarrow> [0..<3], j \<leftarrow> [0..<3]] h"

definition sinew_finish_align :: "'d arith \<Rightarrow> 'd list \<Rightarrow> int \<Rightarrow> 'd list \<Rightarrow> 'd list \<Rightarrow> 'd list \<Rightarrow> 'd list
    \<Rightarrow> 'd list" where
  "sinew_finish_align A h_in n a0 a1 b0 b1 =
     (if n = 1 then sinew_rodrigues A a0 b0
      else let ns = v3_cross A a0 a1; nd = v3_cross A b0 b1;
               ln = v3_norm A ns; ld = v3_norm A nd;
               h = (if lt A (lit A (1 / 10 ^ 9)) ln \<and> lt A (lit A (1 / 10 ^ 9)) ld
                    then add_outer A
                           (v3_scale A ns (quot A (v3_norm A a0) (add A ln (lit A SINEW_EPS))))
                           (v3_scale A nd (quot A (v3_norm A b0) (add A ld (lit A SINEW_EPS)))) h_in
                    else h_in);
               h_reg = sinew_regularize A h;
               r = sinew_ns30 A h_reg
           in if \<not> sinew_valid9 A r then sinew_kabsch A h_reg else r)"

text \<open>Reading behind one of the two input arrays is undefined; the conversion of the count to
  int keeps the low 32 bits.\<close>

definition c_int :: "nat \<Rightarrow> int" where
  "c_int n = signed_take_bit 31 (int n)"

definition covariance :: "'d arith \<Rightarrow> 'd list \<Rightarrow> 'd list \<Rightarrow> nat \<Rightarrow> 'd list" where
  "covariance A ts ss count =
     fold (\<lambda>p. add_outer A (chunk (p * 3) 3 ts) (chunk (p * 3) 3 ss)) [0..<count] (replicate 9 (lit A 0))"

definition sinew_align :: "'d arith \<Rightarrow> 'd list \<Rightarrow> 'd list \<Rightarrow> nat \<Rightarrow> 'd list option" where
  "sinew_align A ts ss count =
     (if length ts < 3 * count \<or> length ss < 3 * count then None
      else let zero = replicate 3 (lit A 0);
               a0 = (if 0 < count then chunk 0 3 ts else zero);
               b0 = (if 0 < count then chunk 0 3 ss else zero);
               a1 = (if 1 < count then chunk 3 3 ts else zero);
               b1 = (if 1 < count then chunk 3 3 ss else zero)
           in Some (sinew_finish_align A (covariance A ts ss count) (c_int count) a0 a1 b0 b1))"

end
