(* ===== verification/Sinew_Exact.thy ===== *)
theory Sinew_Exact
  imports Sinew
begin

text \<open>
  The rotation fit in exact arithmetic: the algebra behind \<^verbatim>\<open>src/gen/sinew_align.c\<close> with
  real numbers in the place of doubles.
\<close>

subsection \<open>The arithmetic of the reals\<close>

definition exact :: "real arith" where
  "exact = \<lparr>lit = (\<lambda>x. x), add = (+), sub = (-), mul = (*), quot = (/), neg = uminus, f_abs = abs,
     f_sqrt = sqrt, f_max = max, f_min = min, f_atan2 = (\<lambda>y x. Arg (Complex x y)),
     f_cos = cos, f_sin = sin, lt = (<), le = (\<le>)\<rparr>"

lemma exact_simps [simp]:
  "lit exact = (\<lambda>x. x)" "add exact = (+)" "sub exact = (-)" "mul exact = (*)" "quot exact = (/)"
  "neg exact = uminus" "f_abs exact = abs" "f_sqrt exact = sqrt" "f_max exact = max"
  "f_min exact = min" "f_cos exact = cos" "f_sin exact = sin" "lt exact = (<)" "le exact = (\<le>)"
  "f_atan2 exact = (\<lambda>y x. Arg (Complex x y))"
  by (simp_all add: exact_def)

lemma list3E:
  assumes "length xs = 3"
  obtains x y z where "xs = [x, y, z]"
  using assms by (auto simp: numeral_3_eq_3 length_Suc_conv)

lemma list9E:
  assumes "length m = 9"
  obtains a b c d e f g h i where "m = [a, b, c, d, e, f, g, h, i]"
  using assms by (auto simp: numeral_eq_Suc length_Suc_conv)

lemma upt3 [simp]: "[0..<3] = [0, 1, 2 :: nat]"
  by (simp add: upt_rec)

lemma upt9 [simp]: "[0..<9] = [0, 1, 2, 3, 4, 5, 6, 7, 8 :: nat]"
  by (simp add: upt_rec)

lemmas mat_defs = dot3_def v3_dot_def v3_cross_def v3_scale_def sinew_det9_def sinew_mul9_def
  sinew_transpose9_def gram9_def

definition rotation :: "real list \<Rightarrow> bool" where
  "rotation r \<longleftrightarrow> length r = 9 \<and> gram9 exact r = identity9 exact \<and> sinew_det9 exact r = 1"

lemma det9_mul9:
  assumes "length a = 9" and "length b = 9"
  shows "sinew_det9 exact (sinew_mul9 exact a b) = sinew_det9 exact a * sinew_det9 exact b"
proof -
  obtain a0 a1 a2 a3 a4 a5 a6 a7 a8 where a: "a = [a0, a1, a2, a3, a4, a5, a6, a7, a8]"
    using assms(1) by (rule list9E)
  obtain b0 b1 b2 b3 b4 b5 b6 b7 b8 where b: "b = [b0, b1, b2, b3, b4, b5, b6, b7, b8]"
    using assms(2) by (rule list9E)
  show ?thesis unfolding a b by (simp add: mat_defs) algebra
qed

subsection \<open>The shortest-arc rotation\<close>

definition mat_vec :: "real list \<Rightarrow> real list \<Rightarrow> real list" where
  "mat_vec m v = [v3_dot exact (chunk (3 * r) 3 m) v. r \<leftarrow> [0..<3]]"

definition unit :: "real list \<Rightarrow> real list" where
  "unit a = v3_scale exact a (1 / max (v3_norm exact a) SINEW_EPS)"

lemma eps_pos: "0 < SINEW_EPS" by (simp add: SINEW_EPS_def)

lemma unit_dot:
  assumes "length a = 3" and "SINEW_EPS \<le> v3_norm exact a"
  shows "v3_dot exact (unit a) (unit a) = 1"
proof -
  obtain x y z where a: "a = [x, y, z]" using assms(1) by (rule list3E)
  let ?n = "v3_norm exact a"
  have n: "0 < ?n" "max ?n SINEW_EPS = ?n" using assms(2) eps_pos by auto
  have sq: "?n * ?n = x * x + y * y + z * z"
    by (simp add: a v3_norm_def mat_defs)
  have "v3_dot exact (unit a) (unit a) = (x * x + y * y + z * z) / (?n * ?n)"
    using n by (simp add: unit_def a mat_defs field_simps)
  also have "\<dots> = 1" unfolding sq[symmetric] using n by simp
  finally show ?thesis .
qed

lemma length_unit [simp]: "length (unit a) = 3"
  by (simp add: unit_def v3_scale_def)

lemma dot_bounds:
  assumes "length a = 3" "length b = 3" "v3_dot exact a a = 1" "v3_dot exact b b = 1"
  shows "v3_dot exact (v3_cross exact b a) (v3_cross exact b a) = 1 - (v3_dot exact a b)\<^sup>2"
    and "\<bar>v3_dot exact a b\<bar> \<le> 1"
proof -
  obtain a0 a1 a2 where a: "a = [a0, a1, a2]" using assms(1) by (rule list3E)
  obtain b0 b1 b2 where b: "b = [b0, b1, b2]" using assms(2) by (rule list3E)
  have one: "a0 * a0 + a1 * a1 + a2 * a2 = 1" "b0 * b0 + b1 * b1 + b2 * b2 = 1"
    using assms(3,4) by (simp_all add: a b mat_defs)
  show cr: "v3_dot exact (v3_cross exact b a) (v3_cross exact b a) = 1 - (v3_dot exact a b)\<^sup>2"
    using one by (simp add: a b mat_defs) algebra
  have "0 \<le> v3_dot exact (v3_cross exact b a) (v3_cross exact b a)"
    by (simp add: v3_dot_def dot3_def)
  then show "\<bar>v3_dot exact a b\<bar> \<le> 1" using cr by (simp add: abs_square_le_1)
qed

text \<open>The matrix of the main branch and of the antiparallel branch.\<close>

definition arc_matrix :: "real list \<Rightarrow> real \<Rightarrow> real list" where
  "arc_matrix v f =
     (let k = [0, - (v ! 2), v ! 1, v ! 2, 0, - (v ! 0), - (v ! 1), v ! 0, 0]; kk = sinew_mul9 exact k k
      in [(if i mod 4 = 0 then 1 else 0) + k ! i + f * kk ! i. i \<leftarrow> [0..<9]])"

definition half_turn :: "real list \<Rightarrow> real list" where
  "half_turn x = [2 * x ! r * x ! c - (if r = c then 1 else 0). r \<leftarrow> [0..<3], c \<leftarrow> [0..<3]]"

lemma arc_matrix_rotation:
  assumes "length v = 3" and "2 * f = 1 + f * f * v3_dot exact v v"
  shows "rotation (arc_matrix v f)"
proof -
  obtain x y z where v: "v = [x, y, z]" using assms(1) by (rule list3E)
  have f: "2 * f = 1 + f * f * (x * x + y * y + z * z)" using assms(2) by (simp add: v mat_defs)
  have "length (arc_matrix v f) = 9" by (simp add: arc_matrix_def Let_def)
  moreover have "gram9 exact (arc_matrix v f) = identity9 exact"
    using f by (simp add: v arc_matrix_def mat_defs identity9_def) algebra
  moreover have "sinew_det9 exact (arc_matrix v f) = 1"
    using f by (simp add: v arc_matrix_def mat_defs) algebra
  ultimately show ?thesis by (simp add: rotation_def)
qed

lemma half_turn_rotation:
  assumes "length x = 3" and "v3_dot exact x x = 1"
  shows "rotation (half_turn x)"
proof -
  obtain x0 x1 x2 where x: "x = [x0, x1, x2]" using assms(1) by (rule list3E)
  have one: "x0 * x0 + x1 * x1 + x2 * x2 = 1" using assms(2) by (simp add: x mat_defs)
  have "length (half_turn x) = 9" by (simp add: half_turn_def)
  moreover have "gram9 exact (half_turn x) = identity9 exact"
    using one by (simp add: x half_turn_def mat_defs identity9_def) algebra
  moreover have "sinew_det9 exact (half_turn x) = 1"
    using one by (simp add: x half_turn_def mat_defs) algebra
  ultimately show ?thesis by (simp add: rotation_def)
qed

lemma rodrigues_branches:
  assumes "length a = 3" "length b = 3" "SINEW_EPS \<le> v3_norm exact a" "SINEW_EPS \<le> v3_norm exact b"
  defines "au \<equiv> unit a" and "bu \<equiv> unit b"
  defines "d \<equiv> v3_dot exact au bu"
  defines "w \<equiv> (if 6 / 10 < \<bar>bu ! 0\<bar> then [0, 1, 0] else [1, 0, 0 :: real])"
  defines "x0 \<equiv> v3_cross exact bu w"
  shows "sinew_rodrigues exact a b =
    (if d < -1 + 1 / 10 ^ 6 then half_turn (v3_scale exact x0 (1 / v3_norm exact x0))
     else arc_matrix (v3_cross exact bu au) (1 / (1 + d)))"
proof -
  have "\<bar>d\<bar> \<le> 1"
    using dot_bounds(2)[of au bu] unit_dot[OF assms(1,3)] unit_dot[OF assms(2,4)]
    by (simp add: au_def bu_def d_def)
  then have clamp: "clamp1 exact d = d" by (auto simp: clamp1_def Let_def)
  have un: "v3_scale exact a (1 / max (v3_norm exact a) SINEW_EPS) = au"
    "v3_scale exact b (1 / max (v3_norm exact b) SINEW_EPS) = bu"
    by (simp_all add: au_def bu_def unit_def)
  show ?thesis
    unfolding sinew_rodrigues_def Let_def exact_simps un d_def[symmetric] clamp
    by (simp add: half_turn_def arc_matrix_def x0_def w_def Let_def)
qed

text \<open>The main branch applied to a vector, through two cross products.\<close>

lemma arc_apply:
  assumes "length v = 3" "length b = 3"
  shows "mat_vec (arc_matrix v f) b =
    (let k = v3_cross exact v b; kk = v3_cross exact v k
     in [b ! 0 + k ! 0 + f * kk ! 0, b ! 1 + k ! 1 + f * kk ! 1, b ! 2 + k ! 2 + f * kk ! 2])"
proof -
  obtain v0 v1 v2 where v: "v = [v0, v1, v2]" using assms(1) by (rule list3E)
  obtain b0 b1 b2 where b: "b = [b0, b1, b2]" using assms(2) by (rule list3E)
  show ?thesis
    by (simp add: v b mat_vec_def arc_matrix_def mat_defs chunk_def) algebra
qed

lemma cross_cross:
  assumes "length a = 3" "length b = 3"
  shows "v3_cross exact (v3_cross exact b a) c =
    (let u = v3_dot exact b c; w = v3_dot exact a c
     in [a ! 0 * u - b ! 0 * w, a ! 1 * u - b ! 1 * w, a ! 2 * u - b ! 2 * w])"
  by (simp add: mat_defs Let_def algebra_simps)

lemma dot_comm: "v3_dot exact a b = v3_dot exact b a"
  by (simp add: mat_defs)

lemma arc_maps:
  assumes "length a = 3" "length b = 3" "v3_dot exact a a = 1" "v3_dot exact b b = 1"
    and f: "f * (1 + v3_dot exact a b) = 1"
  shows "mat_vec (arc_matrix (v3_cross exact b a) f) b = a"
proof -
  obtain a0 a1 a2 where a: "a = [a0, a1, a2]" using assms(1) by (rule list3E)
  obtain b0 b1 b2 where b: "b = [b0, b1, b2]" using assms(2) by (rule list3E)
  let ?d = "v3_dot exact a b"
  have k: "v3_cross exact (v3_cross exact b a) b = [a0 - b0 * ?d, a1 - b1 * ?d, a2 - b2 * ?d]"
    using cross_cross[OF assms(1,2), of b] assms(4) by (simp add: a b Let_def)
  have dots: "v3_dot exact b [a0 - b0 * ?d, a1 - b1 * ?d, a2 - b2 * ?d] = 0"
    "v3_dot exact a [a0 - b0 * ?d, a1 - b1 * ?d, a2 - b2 * ?d] = 1 - ?d * ?d"
    using assms(3,4) by (simp_all add: a b mat_defs) algebra+
  have kk: "v3_cross exact (v3_cross exact b a) [a0 - b0 * ?d, a1 - b1 * ?d, a2 - b2 * ?d] =
      [- b0 * (1 - ?d * ?d), - b1 * (1 - ?d * ?d), - b2 * (1 - ?d * ?d)]"
    using cross_cross[OF assms(1,2)] dots by (simp add: a b Let_def)
  have fx: "f * (x * (1 - ?d * ?d)) = x * (1 - ?d)" for x
  proof -
    have "f * (x * (1 - ?d * ?d)) = (f * (1 + ?d)) * (x * (1 - ?d))" by (simp add: algebra_simps)
    then show ?thesis using f by simp
  qed
  have "x + (y - x * ?d) + f * (- x * (1 - ?d * ?d)) = y" for x y
  proof -
    have "f * (- x * (1 - ?d * ?d)) = - (x * (1 - ?d))" using fx[of x] by simp
    then show ?thesis by (simp add: algebra_simps)
  qed
  then show ?thesis
    using arc_apply[of "v3_cross exact b a" b f] k kk by (simp add: a b v3_cross_def Let_def)
qed

lemma half_turn_maps:
  assumes "length x = 3" "length b = 3" "v3_dot exact x b = 0"
  shows "mat_vec (half_turn x) b = map uminus b"
proof -
  obtain x0 x1 x2 where x: "x = [x0, x1, x2]" using assms(1) by (rule list3E)
  obtain b0 b1 b2 where b: "b = [b0, b1, b2]" using assms(2) by (rule list3E)
  have "x0 * b0 + x1 * b1 + x2 * b2 = 0" using assms(3) by (simp add: x b mat_defs)
  then show ?thesis by (simp add: x b mat_vec_def half_turn_def mat_defs chunk_def) algebra
qed

text \<open>The axis of the antiparallel branch is never the zero vector.\<close>

lemma turn_axis:
  assumes "length b = 3" and "v3_dot exact b b = 1"
  defines "w \<equiv> (if 6 / 10 < \<bar>b ! 0\<bar> then [0, 1, 0] else [1, 0, 0 :: real])"
  defines "x0 \<equiv> v3_cross exact b w"
  defines "x \<equiv> v3_scale exact x0 (1 / v3_norm exact x0)"
  shows "v3_dot exact x x = 1" and "v3_dot exact x b = 0"
proof -
  obtain b0 b1 b2 where b: "b = [b0, b1, b2]" using assms(1) by (rule list3E)
  have one: "b0 * b0 + b1 * b1 + b2 * b2 = 1" using assms(2) by (simp add: b mat_defs)
  have pos: "0 < v3_dot exact x0 x0"
  proof (cases "6 / 10 < \<bar>b0\<bar>")
    case True
    then have "b0 \<noteq> 0" by auto
    then have "0 < b0 * b0" by (auto simp: zero_less_mult_iff)
    moreover have "v3_dot exact x0 x0 = b2 * b2 + b0 * b0" using True by (simp add: x0_def w_def b mat_defs)
    ultimately show ?thesis by (simp add: add_nonneg_pos)
  next
    case False
    then have "\<bar>b0\<bar> * \<bar>b0\<bar> \<le> (6 / 10) * (6 / 10)" by (intro mult_mono) auto
    then have "b0 * b0 \<le> 36 / 100" by (simp add: abs_mult[symmetric])
    moreover have "v3_dot exact x0 x0 = b1 * b1 + b2 * b2" using False by (simp add: x0_def w_def b mat_defs)
    ultimately show ?thesis using one by linarith
  qed
  obtain y0 y1 y2 where y: "x0 = [y0, y1, y2]" using list3E[of x0] by (auto simp: x0_def v3_cross_def)
  let ?n = "v3_norm exact x0"
  have n: "?n * ?n = v3_dot exact x0 x0" "?n \<noteq> 0" using pos by (simp_all add: v3_norm_def)
  have "v3_dot exact x x = v3_dot exact x0 x0 / (?n * ?n)"
    by (simp add: x_def y mat_defs add_divide_distrib)
  then show "v3_dot exact x x = 1" using n pos by simp
  have "v3_dot exact x0 b = 0"
    by (simp add: x0_def w_def b mat_defs)
  moreover have "v3_dot exact x b = v3_dot exact x0 b / ?n"
    by (simp add: x_def y b mat_defs add_divide_distrib)
  ultimately show "v3_dot exact x b = 0" by simp
qed

lemma arc_factor:
  fixes d f :: real
  assumes "f * (1 + d) = 1" and "s = 1 - d\<^sup>2"
  shows "2 * f = 1 + f * f * s"
proof -
  have "f * f * s = (f * (1 + d)) * (f * (1 - d))" by (simp add: assms(2) power2_eq_square algebra_simps)
  also have "\<dots> = f * (1 + 1 - (1 + d))" using assms(1) by (simp add: algebra_simps)
  also have "\<dots> = 2 * f - 1" using assms(1) by (simp add: algebra_simps)
  finally show ?thesis by simp
qed

lemma rodrigues_turns:
  assumes "length a = 3" and "length b = 3"
    and "SINEW_EPS \<le> v3_norm exact a" and "SINEW_EPS \<le> v3_norm exact b"
  shows "rotation (sinew_rodrigues exact a b) \<and>
    mat_vec (sinew_rodrigues exact a b) (unit b) =
      (if v3_dot exact (unit a) (unit b) < -1 + 1 / 10 ^ 6 then map uminus (unit b) else unit a)"
proof -
  let ?a = "unit a" and ?b = "unit b"
  let ?d = "v3_dot exact ?a ?b"
  have ua: "v3_dot exact ?a ?a = 1" and ub: "v3_dot exact ?b ?b = 1"
    using unit_dot assms by blast+
  note br = rodrigues_branches[OF assms]
  show ?thesis
  proof (cases "?d < -1 + 1 / 10 ^ 6")
    case True
    note ax = turn_axis[OF length_unit ub]
    show ?thesis
      using True br half_turn_rotation[OF _ ax(1)] half_turn_maps[OF _ length_unit ax(2)]
      by (simp add: v3_scale_def)
  next
    case False
    then have f: "1 / (1 + ?d) * (1 + ?d) = 1" by simp
    have v: "v3_dot exact (v3_cross exact ?b ?a) (v3_cross exact ?b ?a) = 1 - ?d\<^sup>2"
      using dot_bounds(1)[OF length_unit length_unit ua ub] .
    have "rotation (arc_matrix (v3_cross exact ?b ?a) (1 / (1 + ?d)))"
      using arc_factor[OF f v] by (intro arc_matrix_rotation) (simp_all add: v3_cross_def)
    moreover have "mat_vec (arc_matrix (v3_cross exact ?b ?a) (1 / (1 + ?d))) ?b = ?a"
      using arc_maps[OF length_unit length_unit ua ub f] .
    ultimately show ?thesis using False br by simp
  qed
qed

text \<open>C12: in exact arithmetic the single-pair fit is the shortest-arc rotation. For vectors that
  are not shorter than the guard, the result is a rotation matrix (orthonormal columns and
  determinant 1); it takes the direction of the source onto the direction of the target, and
  when the two are opposite to within one part in a million it is a half turn that reverses
  the source.\<close>

theorem rodrigues_rotates:
  assumes "length a = 3" and "length b = 3"
    and "SINEW_EPS \<le> v3_norm exact a" and "SINEW_EPS \<le> v3_norm exact b"
  shows "rotation (sinew_rodrigues exact a b) \<and>
    mat_vec (sinew_rodrigues exact a b) (unit b) =
      (if v3_dot exact (unit a) (unit b) < -1 + 1 / 10 ^ 6 then map uminus (unit b) else unit a)"
  using rodrigues_turns[OF assms] .

theorem rodrigues_rotates_witness:
  "SINEW_EPS \<le> v3_norm exact [0, 3, 0] \<and> SINEW_EPS \<le> v3_norm exact [2, 0, 0] \<and>
   rotation (sinew_rodrigues exact [0, 3, 0] [2, 0, 0]) \<and>
   mat_vec (sinew_rodrigues exact [0, 3, 0] [2, 0, 0]) [1, 0, 0] = [0, 1, 0]"
proof -
  have n: "v3_norm exact [0, 3, 0] = 3" "v3_norm exact [2, 0, 0] = 2"
    by (simp_all add: v3_norm_def mat_defs)
  have u: "unit [0, 3, 0] = [0, 1, 0]" "unit [2, 0, 0] = [1, 0, 0]"
    by (simp_all add: unit_def n SINEW_EPS_def v3_scale_def)
  have g: "SINEW_EPS \<le> v3_norm exact [0, 3, 0]" "SINEW_EPS \<le> v3_norm exact [2, 0, 0]"
    by (simp_all add: n SINEW_EPS_def)
  show ?thesis
    using rodrigues_rotates[OF _ _ g] g by (simp add: u v3_dot_def dot3_def)
qed

subsection \<open>Matrix algebra\<close>

lemma length9 [simp]: "length (sinew_mul9 A a b) = 9" "length (sinew_transpose9 a) = 9"
  "length (gram9 A a) = 9" "length (identity9 A) = 9"
  by (simp_all add: sinew_mul9_def sinew_transpose9_def gram9_def identity9_def)

lemma mul9_assoc:
  assumes "length a = 9" "length b = 9" "length c = 9"
  shows "sinew_mul9 exact (sinew_mul9 exact a b) c = sinew_mul9 exact a (sinew_mul9 exact b c)"
  by (simp add: sinew_mul9_def dot3_def algebra_simps numeral_2_eq_2)

lemma transpose9_mul9:
  "sinew_transpose9 (sinew_mul9 exact a b) =
     sinew_mul9 exact (sinew_transpose9 b) (sinew_transpose9 a)"
  by (simp add: sinew_mul9_def sinew_transpose9_def dot3_def algebra_simps numeral_2_eq_2)

lemma transpose9_transpose9: "length m = 9 \<Longrightarrow> sinew_transpose9 (sinew_transpose9 m) = m"
  by (rule list9E) (auto simp: sinew_transpose9_def)

lemma gram9_eq: "gram9 exact m = sinew_mul9 exact (sinew_transpose9 m) m"
  by (simp add: sinew_mul9_def sinew_transpose9_def gram9_def)

lemma mul9_identity:
  assumes "length m = 9"
  shows "sinew_mul9 exact m (identity9 exact) = m" "sinew_mul9 exact (identity9 exact) m = m"
  by (rule list9E[OF assms]; simp add: sinew_mul9_def identity9_def dot3_def)+

lemma det9_transpose9: "sinew_det9 exact (sinew_transpose9 m) = sinew_det9 exact m"
  by (simp add: sinew_det9_def sinew_transpose9_def algebra_simps)

subsection \<open>The Jacobi rotations\<close>

definition plane :: "nat \<Rightarrow> nat \<Rightarrow> real \<Rightarrow> real \<Rightarrow> real list" where
  "plane p q c s = (identity9 exact)[p * 3 + p := c, p * 3 + q := s, q * 3 + p := - s, q * 3 + q := c]"

definition pairs :: "(nat \<times> nat) set" where
  "pairs = {(0, 1), (0, 2), (1, 2)}"

lemma length_plane [simp]: "length (plane p q c s) = 9"
  by (simp add: plane_def)

lemma plane_orthogonal:
  assumes "(p, q) \<in> pairs" and "c * c + s * s = 1"
  shows "gram9 exact (plane p q c s) = identity9 exact" and "sinew_det9 exact (plane p q c s) = 1"
  using assms
  by (auto simp: pairs_def plane_def identity9_def gram9_def dot3_def sinew_det9_def algebra_simps)

lemma rotate_columns_plane:
  assumes "(p, q) \<in> pairs" and "length a = 9"
  shows "rotate_columns exact c s p q a = sinew_mul9 exact a (plane p q c s)"
proof -
  obtain a0 a1 a2 a3 a4 a5 a6 a7 a8 where a: "a = [a0, a1, a2, a3, a4, a5, a6, a7, a8]"
    using assms(2) by (rule list9E)
  show ?thesis using assms(1)
    by (auto simp: pairs_def a rotate_columns_def plane_def identity9_def sinew_mul9_def dot3_def
        Let_def algebra_simps)
qed

lemma rotate_rows_plane:
  assumes "(p, q) \<in> pairs" and "length a = 9"
  shows "rotate_rows exact c s p q a = sinew_mul9 exact (sinew_transpose9 (plane p q c s)) a"
proof -
  obtain a0 a1 a2 a3 a4 a5 a6 a7 a8 where a: "a = [a0, a1, a2, a3, a4, a5, a6, a7, a8]"
    using assms(2) by (rule list9E)
  show ?thesis using assms(1)
    by (auto simp: pairs_def a rotate_rows_def plane_def identity9_def sinew_mul9_def sinew_transpose9_def
        dot3_def Let_def algebra_simps)
qed

text \<open>What the sweeps keep: the vectors are orthonormal and the working matrix is the input seen
  in their basis.\<close>

definition jacobi_inv :: "real list \<Rightarrow> real list \<times> real list \<Rightarrow> bool" where
  "jacobi_inv m av \<longleftrightarrow> (case av of (a, v) \<Rightarrow>
     length v = 9 \<and> gram9 exact v = identity9 exact \<and> sinew_det9 exact v = 1 \<and>
     a = sinew_mul9 exact (sinew_transpose9 v) (sinew_mul9 exact m v))"

lemma jacobi_inv_rotate:
  assumes "length m = 9" and "(p, q) \<in> pairs" and "c * c + s * s = 1" and inv: "jacobi_inv m (a, v)"
  shows "jacobi_inv m (rotate_rows exact c s p q (rotate_columns exact c s p q a), rotate_columns exact c s p q v)"
proof -
  let ?j = "plane p q c s" and ?t = sinew_transpose9
  note pl = plane_orthogonal[OF assms(2,3)]
  have v: "length v = 9" "gram9 exact v = identity9 exact" "sinew_det9 exact v = 1"
    and a: "a = sinew_mul9 exact (?t v) (sinew_mul9 exact m v)"
    using inv by (simp_all add: jacobi_inv_def)
  have la: "length a = 9" by (simp add: a)
  let ?v = "sinew_mul9 exact v ?j"
  have cols: "rotate_columns exact c s p q a = sinew_mul9 exact a ?j" "rotate_columns exact c s p q v = ?v"
    using rotate_columns_plane[OF assms(2)] la v(1) by simp_all
  have "gram9 exact ?v = sinew_mul9 exact (?t ?j) (sinew_mul9 exact (sinew_mul9 exact (?t v) v) ?j)"
    using v(1) by (simp add: gram9_eq transpose9_mul9 mul9_assoc)
  also have "\<dots> = identity9 exact"
    using v(2) pl(1) by (simp add: gram9_eq mul9_identity)
  finally have "gram9 exact ?v = identity9 exact" .
  moreover have "sinew_det9 exact ?v = 1" using det9_mul9[of v ?j] v pl(2) by simp
  moreover have "rotate_rows exact c s p q (sinew_mul9 exact a ?j) =
      sinew_mul9 exact (?t ?v) (sinew_mul9 exact m ?v)"
    using rotate_rows_plane[OF assms(2)] assms(1) v(1)
    by (simp add: a transpose9_mul9 mul9_assoc)
  ultimately show ?thesis by (simp add: jacobi_inv_def cols)
qed

lemma jacobi_inv_pair:
  assumes "length m = 9" and "pq \<in> pairs" and "jacobi_inv m av"
  shows "jacobi_inv m (jacobi_pair exact pq av)"
proof -
  obtain p q a v where pq: "pq = (p, q)" "av = (a, v)" by (metis surj_pair)
  show ?thesis
    using jacobi_inv_rotate[OF assms(1), of p q] assms(2,3)
    by (auto simp: jacobi_pair_def pq Let_def sin_squared_eq power2_eq_square[symmetric])
qed

lemma jacobi_inv_loop:
  assumes "length m = 9" and "jacobi_inv m av"
  shows "jacobi_inv m (jacobi_loop exact n av)"
  using assms(2)
proof (induction n arbitrary: av)
  case (Suc n)
  have "jacobi_inv m (fold (jacobi_pair exact) [(0, 1), (0, 2), (1, 2)] av)"
    using Suc.prems jacobi_inv_pair[OF assms(1)] by (simp add: pairs_def)
  then show ?case using Suc by (simp add: Let_def)
qed simp

text \<open>One rotation clears the entry it is for.\<close>

lemma half_angle:
  fixes x y :: real
  defines "phi \<equiv> Arg (Complex x y) / 2"
  shows "(cos phi * cos phi - sin phi * sin phi) * y = 2 * sin phi * cos phi * x"
proof -
  have two: "cos phi * cos phi - sin phi * sin phi = cos (Arg (Complex x y))"
    "2 * sin phi * cos phi = sin (Arg (Complex x y))"
    using cos_double[of phi] sin_double[of phi] by (simp_all add: phi_def power2_eq_square)
  show ?thesis
  proof (cases "Complex x y = 0")
    case True
    then show ?thesis by (simp add: complex_eq_iff)
  next
    case False
    have "sgn (Complex x y) = cis (Arg (Complex x y))" using cis_Arg[OF False] by simp
    then have "cos (Arg (Complex x y)) = x / cmod (Complex x y)" "sin (Arg (Complex x y)) = y / cmod (Complex x y)"
      by (simp_all add: complex_eq_iff)
    then show ?thesis using two by simp
  qed
qed

lemma rotate_entry:
  assumes "length a = 9" and "sinew_transpose9 a = a" and "(p, q) \<in> pairs"
    and h: "(c * c - s * s) * (2 * a ! (p * 3 + q)) = 2 * s * c * (a ! (q * 3 + q) - a ! (p * 3 + p))"
  shows "rotate_rows exact c s p q (rotate_columns exact c s p q a) ! (p * 3 + q) = 0"
proof -
  obtain a0 a1 a2 a3 a4 a5 a6 a7 a8 where a: "a = [a0, a1, a2, a3, a4, a5, a6, a7, a8]"
    using assms(1) by (rule list9E)
  have "sinew_transpose9 a = [a0, a3, a6, a1, a4, a7, a2, a5, a8]" by (simp add: a sinew_transpose9_def)
  then have "[a0, a3, a6, a1, a4, a7, a2, a5, a8] = [a0, a1, a2, a3, a4, a5, a6, a7, a8]"
    using assms(2) unfolding a by (rule subst)
  then have sym: "a3 = a1" "a6 = a2" "a7 = a5" unfolding list.inject by blast+
  consider "p = 0" "q = 1" | "p = 0" "q = 2" | "p = 1" "q = 2" using assms(3) by (auto simp: pairs_def)
  then show ?thesis
  proof cases
    case 1
    then have "(c * c - s * s) * (2 * a1) = 2 * s * c * (a4 - a0)" using h by (simp add: a)
    then have "c * (s * a0 + c * a1) - s * (s * a1 + c * a4) = 0" by algebra
    then show ?thesis by (simp add: 1 a sym rotate_rows_def rotate_columns_def Let_def)
  next
    case 2
    then have "(c * c - s * s) * (2 * a2) = 2 * s * c * (a8 - a0)" using h by (simp add: a)
    then have "c * (s * a0 + c * a2) - s * (s * a2 + c * a8) = 0" by algebra
    then show ?thesis by (simp add: 2 a sym rotate_rows_def rotate_columns_def Let_def)
  next
    case 3
    then have "(c * c - s * s) * (2 * a5) = 2 * s * c * (a8 - a4)" using h by (simp add: a)
    then have "c * (s * a4 + c * a5) - s * (s * a5 + c * a8) = 0" by algebra
    then show ?thesis by (simp add: 3 a sym rotate_rows_def rotate_columns_def Let_def)
  qed
qed

lemma pair_clears:
  assumes "length a = 9" and "sinew_transpose9 a = a" and "(p, q) \<in> pairs"
    and "\<not> \<bar>a ! (p * 3 + q)\<bar> < 1 / 10 ^ 20"
  shows "fst (jacobi_pair exact (p, q) (a, v)) ! (p * 3 + q) = 0"
proof -
  let ?phi = "1 / 2 * Arg (Complex (a ! (q * 3 + q) - a ! (p * 3 + p)) (2 * a ! (p * 3 + q)))"
  have "(cos ?phi * cos ?phi - sin ?phi * sin ?phi) * (2 * a ! (p * 3 + q)) =
      2 * sin ?phi * cos ?phi * (a ! (q * 3 + q) - a ! (p * 3 + p))"
    using half_angle[where y = "2 * a ! (p * 3 + q)" and x = "a ! (q * 3 + q) - a ! (p * 3 + p)"]
    by simp
  then show ?thesis
    using rotate_entry[OF assms(1-3)] assms(4) by (simp add: jacobi_pair_def Let_def)
qed

lemma jacobi9_inv:
  assumes "length m = 9" and "sinew_jacobi9 exact m = (w, v)"
  shows "rotation v"
    and "d = sinew_mul9 exact (sinew_transpose9 v) (sinew_mul9 exact m v) \<Longrightarrow> w = [d ! 0, d ! 4, d ! 8]"
proof -
  obtain a v' where loop: "jacobi_loop exact 50 (m, identity9 exact) = (a, v')" by fastforce
  have "jacobi_inv m (m, identity9 exact)"
    using assms(1) mul9_identity[of m]
    by (simp add: jacobi_inv_def identity9_def sinew_transpose9_def gram9_def dot3_def sinew_det9_def)
  from jacobi_inv_loop[OF assms(1) this, of 50] loop
  have inv: "jacobi_inv m (a, v')" by simp
  have "w = [a ! 0, a ! 4, a ! 8]" "v = v'" using assms(2) loop by (simp_all add: sinew_jacobi9_def)
  then show "rotation v"
    and "d = sinew_mul9 exact (sinew_transpose9 v) (sinew_mul9 exact m v) \<Longrightarrow> w = [d ! 0, d ! 4, d ! 8]"
    using inv by (simp_all add: jacobi_inv_def rotation_def)
qed

text \<open>C37: in exact arithmetic the Jacobi routine is a change of basis. For every 3x3 matrix the
  returned vectors are the columns of a rotation matrix V, and the returned values are the
  diagonal of the input seen in that basis, V transposed times the input times V; for a
  symmetric working matrix every single rotation clears the entry it is for exactly.\<close>

theorem jacobi_change_of_basis:
  assumes "length m = 9" and "sinew_jacobi9 exact m = (w, v)"
  shows "rotation v \<and>
    (let d = sinew_mul9 exact (sinew_transpose9 v) (sinew_mul9 exact m v) in w = [d ! 0, d ! 4, d ! 8]) \<and>
    (\<forall>a p q. length a = 9 \<and> sinew_transpose9 a = a \<and> (p, q) \<in> pairs \<and> 1 / 10 ^ 20 \<le> \<bar>a ! (p * 3 + q)\<bar> \<longrightarrow>
       fst (jacobi_pair exact (p, q) (a, v)) ! (p * 3 + q) = 0)"
  using jacobi9_inv[OF assms] pair_clears by (auto simp: Let_def not_less)

theorem jacobi_change_of_basis_witness:
  "\<exists>w v. sinew_jacobi9 exact [2, 1, 0, 1, 2, 0, 0, 0, 3] = (w, v) \<and> rotation v"
proof -
  obtain w v where j: "sinew_jacobi9 exact [2, 1, 0, 1, 2, 0, 0, 0, 3] = (w, v)" by fastforce
  have "length [2, 1, 0, 1, 2, 0, 0, 0, 3 :: real] = 9" by simp
  from jacobi_change_of_basis[OF this j] j show ?thesis by blast
qed

subsection \<open>The validity test and the dispatcher\<close>

lemma foldl_max_le: "foldl max a xs \<le> c \<longleftrightarrow> a \<le> c \<and> (\<forall>x \<in> set xs. x \<le> (c :: real))"
  by (induction xs arbitrary: a) auto

lemma foldl_max_split:
  "foldl (\<lambda>e (i, j). max e (f i j)) a ps = foldl max a (map (\<lambda>(i, j). f i j :: real) ps)"
  by (induction ps arbitrary: a) auto

lemma valid9_eq:
  "sinew_valid9 exact r \<longleftrightarrow> \<bar>sinew_det9 exact r - 1\<bar> \<le> 1 / 100 \<and>
     (\<forall>k < 9. \<bar>gram9 exact r ! k - identity9 exact ! k\<bar> \<le> 1 / 100)"
proof -
  let ?g = "\<lambda>k. \<bar>gram9 exact r ! k - identity9 exact ! k\<bar>"
  let ?f = "\<lambda>i j. \<bar>dot3 exact (r ! i) (r ! j) (r ! (3 + i)) (r ! (3 + j)) (r ! (6 + i))
      (r ! (6 + j)) - (if i = j then 1 else 0)\<bar>"
  have e: "map (\<lambda>(i, j). ?f i j) [(i, j). i \<leftarrow> [0..<3], j \<leftarrow> [0..<3]] = map ?g [0..<9]"
    unfolding gram9_def identity9_def by simp
  have "0 < d" if "\<bar>d - 1\<bar> \<le> 1 / 100" for d :: real using that by (simp add: abs_if split: if_splits)
  moreover have "(\<forall>x \<in> set (map ?g [0..<9]). x \<le> 1 / 100) \<longleftrightarrow> (\<forall>k < 9. ?g k \<le> 1 / 100)"
    unfolding set_map set_upt by auto
  ultimately show ?thesis
    unfolding sinew_valid9_def Let_def exact_simps foldl_max_split e foldl_max_le by auto
qed

text \<open>What a fit returns. For any arithmetic of the doubles: reading behind an input array is
  the only failure; one pair is fitted by the shortest-arc rotation; for any other count the
  result is either a matrix the validity test accepts or the singular value fit of the
  regularised covariance. In exact arithmetic the validity test accepts exactly the matrices
  whose determinant and whose column products are those of a rotation to within 0.01.\<close>

lemma align_result:
  "(sinew_align A ts ss n = None \<longleftrightarrow> length ts < 3 * n \<or> length ss < 3 * n) \<and>
   (sinew_align A ts ss 1 = Some r \<longrightarrow> r = sinew_rodrigues A (take 3 ts) (take 3 ss)) \<and>
   (sinew_align A ts ss n = Some r \<and> c_int n \<noteq> 1 \<longrightarrow> sinew_valid9 A r \<or>
      (\<exists>h. r = sinew_kabsch A (sinew_regularize A h) \<and>
         \<not> sinew_valid9 A (sinew_ns30 A (sinew_regularize A h)))) \<and>
   (sinew_valid9 exact m \<longleftrightarrow> \<bar>sinew_det9 exact m - 1\<bar> \<le> 1 / 100 \<and>
      (\<forall>k < 9. \<bar>gram9 exact m ! k - identity9 exact ! k\<bar> \<le> 1 / 100))"
proof (intro conjI)
  show "sinew_align A ts ss n = None \<longleftrightarrow> length ts < 3 * n \<or> length ss < 3 * n"
    by (simp add: sinew_align_def Let_def)
  show "sinew_align A ts ss 1 = Some r \<longrightarrow> r = sinew_rodrigues A (take 3 ts) (take 3 ss)"
    by (auto simp: sinew_align_def Let_def sinew_finish_align_def c_int_def chunk_def split: if_splits)
  show "sinew_align A ts ss n = Some r \<and> c_int n \<noteq> 1 \<longrightarrow> sinew_valid9 A r \<or>
      (\<exists>h. r = sinew_kabsch A (sinew_regularize A h) \<and>
         \<not> sinew_valid9 A (sinew_ns30 A (sinew_regularize A h)))"
    by (auto simp: sinew_align_def sinew_finish_align_def Let_def split: if_splits)
  show "sinew_valid9 exact m \<longleftrightarrow> \<bar>sinew_det9 exact m - 1\<bar> \<le> 1 / 100 \<and>
      (\<forall>k < 9. \<bar>gram9 exact m ! k - identity9 exact ! k\<bar> \<le> 1 / 100)"
    by (rule valid9_eq)
qed

subsection \<open>Orthogonalisation\<close>

lemma length_ns_step [simp]: "length (ns_step A r) = 9"
  by (simp add: ns_step_def Let_def)

lemma ns_step_fixed:
  assumes "length r = 9" and "gram9 exact r = identity9 exact"
  shows "ns_step exact r = r"
proof -
  have "ns_step exact r = map (\<lambda>x. x / 2) (sinew_mul9 exact r [2, 0, 0, 0, 2, 0, 0, 0, 2])"
    unfolding ns_step_def Let_def assms(2)
    by (simp add: identity9_def sinew_mul9_def)
  moreover have "map (\<lambda>x. x / 2) (sinew_mul9 exact r [2, 0, 0, 0, 2, 0, 0, 0, 2]) = r"
    by (rule list9E[OF assms(1)]) (simp add: sinew_mul9_def dot3_def)
  ultimately show ?thesis by simp
qed

lemma ns_iterate_length: "length r = 9 \<Longrightarrow> length ((ns_step A ^^ n) r) = 9"
  by (cases n) simp_all

lemma flip_column_det:
  assumes "length r = 9"
  shows "sinew_det9 exact (r[2 := - r ! 2, 5 := - r ! 5, 8 := - r ! 8]) = - sinew_det9 exact r"
  by (rule list9E[OF assms]) (simp add: sinew_det9_def algebra_simps)

text \<open>In exact arithmetic the fast path never returns a reflection, and a rotation is a
  fixed point of its iteration: the determinant of its result is never negative, and a
  Newton-Schulz step maps every matrix with orthonormal columns to itself.\<close>

lemma ns30_proper:
  assumes "length h = 9"
  shows "0 \<le> sinew_det9 exact (sinew_ns30 exact h) \<and>
    (gram9 exact h = identity9 exact \<longrightarrow> (ns_step exact ^^ 30) h = h)"
proof (intro conjI impI)
  let ?r = "(ns_step exact ^^ 30) [h ! i / (max_row_sum exact h + SINEW_EPS). i \<leftarrow> [0..<9]]"
  have "length ?r = 9" by (rule ns_iterate_length) simp
  then show "0 \<le> sinew_det9 exact (sinew_ns30 exact h)"
    unfolding sinew_ns30_def Let_def exact_simps using flip_column_det[of ?r] by simp
  assume "gram9 exact h = identity9 exact"
  then have "(ns_step exact ^^ n) h = h" for n
    using ns_step_fixed[OF assms] by (induction n) simp_all
  then show "(ns_step exact ^^ 30) h = h" .
qed

end
