(* ===== verification/Sinew_Kabsch.thy ===== *)
theory Sinew_Kabsch
  imports Sinew_Exact
begin

text \<open>
  The singular value fallback in exact arithmetic: when the Jacobi sweeps have converged and
  the covariance has full rank, \<open>sinew_kabsch\<close> returns the rotation that fits best.
\<close>

subsection \<open>Orthogonal matrices\<close>

definition orth :: "real list \<Rightarrow> bool" where
  "orth m \<longleftrightarrow> length m = 9 \<and> gram9 exact m = identity9 exact \<and>
     sinew_mul9 exact m (sinew_transpose9 m) = identity9 exact"

definition diag :: "real \<Rightarrow> real \<Rightarrow> real \<Rightarrow> real list" where
  "diag x y z = [x, 0, 0, 0, y, 0, 0, 0, z]"

lemma length_diag [simp]: "length (diag x y z) = 9"
  by (simp add: diag_def)

lemma diag_mul: "sinew_mul9 exact (diag a b c) (diag x y z) = diag (a * x) (b * y) (c * z)"
  by (simp add: diag_def sinew_mul9_def dot3_def)

lemma diag_transpose [simp]: "sinew_transpose9 (diag x y z) = diag x y z"
  by (simp add: diag_def sinew_transpose9_def)

lemma identity_diag: "identity9 exact = diag 1 1 1"
  by (simp add: identity9_def diag_def)

lemma diag_det: "sinew_det9 exact (diag x y z) = x * y * z"
  by (simp add: diag_def sinew_det9_def)

text \<open>A right inverse from a left inverse, through the adjugate.\<close>

definition adj9 :: "real list \<Rightarrow> real list" where
  "adj9 m =
     [m ! 4 * m ! 8 - m ! 5 * m ! 7, m ! 2 * m ! 7 - m ! 1 * m ! 8, m ! 1 * m ! 5 - m ! 2 * m ! 4,
      m ! 5 * m ! 6 - m ! 3 * m ! 8, m ! 0 * m ! 8 - m ! 2 * m ! 6, m ! 2 * m ! 3 - m ! 0 * m ! 5,
      m ! 3 * m ! 7 - m ! 4 * m ! 6, m ! 1 * m ! 6 - m ! 0 * m ! 7, m ! 0 * m ! 4 - m ! 1 * m ! 3]"

lemma mul9_adj9: "length m = 9 \<Longrightarrow> sinew_mul9 exact m (adj9 m) =
    diag (sinew_det9 exact m) (sinew_det9 exact m) (sinew_det9 exact m)"
  by (rule list9E) (auto simp: adj9_def sinew_mul9_def dot3_def diag_def sinew_det9_def algebra_simps)

lemma gram_orth:
  assumes l: "length m = 9" and g: "gram9 exact m = identity9 exact"
  shows "orth m" and "sinew_det9 exact m * sinew_det9 exact m = 1"
proof -
  let ?t = "sinew_transpose9 m" and ?d = "sinew_det9 exact m"
  let ?D = "diag ?d ?d ?d"
  have la: "length (adj9 m) = 9" by (simp add: adj9_def)
  have tm: "sinew_mul9 exact ?t m = identity9 exact" using g by (simp add: gram9_eq)
  then have "sinew_det9 exact (sinew_mul9 exact ?t m) = 1" by (simp add: identity_diag diag_det)
  then show dd: "?d * ?d = 1" using det9_mul9[of ?t m] l by (simp add: det9_transpose9)
  have "adj9 m = sinew_mul9 exact (sinew_mul9 exact ?t m) (adj9 m)"
    using tm mul9_identity(2)[OF la] by simp
  also have "\<dots> = sinew_mul9 exact ?t ?D"
    using mul9_assoc[of ?t m "adj9 m"] mul9_adj9[OF l] l la by simp
  finally have "sinew_mul9 exact (sinew_mul9 exact m ?t) ?D = ?D"
    using mul9_adj9[OF l] mul9_assoc[of m ?t ?D] l by simp
  then have "sinew_mul9 exact (sinew_mul9 exact m ?t) (sinew_mul9 exact ?D ?D) = sinew_mul9 exact ?D ?D"
    using mul9_assoc[of "sinew_mul9 exact m ?t" ?D ?D] by simp
  then have "sinew_mul9 exact m ?t = identity9 exact"
    using dd mul9_identity(1)[of "sinew_mul9 exact m ?t"] by (simp add: diag_mul identity_diag)
  then show "orth m" using l g by (simp add: orth_def)
qed

lemma rotation_orth: "rotation m \<Longrightarrow> orth m"
  by (simp add: rotation_def gram_orth)

lemma orth_mul:
  assumes "orth a" and "orth b"
  shows "orth (sinew_mul9 exact a b)"
proof -
  let ?t = sinew_transpose9
  have l: "length a = 9" "length b = 9" using assms by (simp_all add: orth_def)
  have "gram9 exact (sinew_mul9 exact a b) =
      sinew_mul9 exact (?t b) (sinew_mul9 exact (sinew_mul9 exact (?t a) a) b)"
    using l by (simp add: gram9_eq transpose9_mul9 mul9_assoc)
  moreover have "sinew_mul9 exact (sinew_mul9 exact a b) (?t (sinew_mul9 exact a b)) =
      sinew_mul9 exact a (sinew_mul9 exact (sinew_mul9 exact b (?t b)) (?t a))"
    using l by (simp add: transpose9_mul9 mul9_assoc)
  ultimately show ?thesis
    using assms by (simp add: orth_def gram9_eq mul9_identity)
qed

lemma orth_transpose: "orth m \<Longrightarrow> orth (sinew_transpose9 m)"
  by (simp add: orth_def gram9_eq transpose9_transpose9)

lemma orth_length: "orth m \<Longrightarrow> length m = 9"
  by (simp add: orth_def)

lemma orth_det: "orth m \<Longrightarrow> sinew_det9 exact m * sinew_det9 exact m = 1"
  by (simp add: orth_def gram_orth)

subsection \<open>The order of the singular values\<close>

definition perms3 :: "nat list set" where
  "perms3 = {[0, 1, 2], [0, 2, 1], [1, 0, 2], [1, 2, 0], [2, 0, 1], [2, 1, 0]}"

lemma sort_desc_perm: "sort_desc A w \<in> perms3"
  by (simp add: sort_desc_def perms3_def)

definition perm_matrix :: "nat list \<Rightarrow> real list" where
  "perm_matrix ord = [if ord ! c = r then 1 else 0. r \<leftarrow> [0..<3], c \<leftarrow> [0..<3]]"

lemma perm_orth: "ord \<in> perms3 \<Longrightarrow> orth (perm_matrix ord)"
  by (auto simp: perms3_def perm_matrix_def orth_def gram9_def sinew_mul9_def sinew_transpose9_def
      dot3_def identity9_def)

lemma permute_columns:
  assumes "ord \<in> perms3" and "length v = 9"
  shows "[v ! (r * 3 + ord ! c). r \<leftarrow> [0..<3], c \<leftarrow> [0..<3]] = sinew_mul9 exact v (perm_matrix ord)"
proof -
  obtain a b c d e f g h i where v: "v = [a, b, c, d, e, f, g, h, i]" using assms(2) by (rule list9E)
  show ?thesis
    using assms(1) unfolding perms3_def
    by (elim insertE emptyE; simp add: v perm_matrix_def sinew_mul9_def dot3_def)
qed

lemma permute_diag:
  assumes "ord \<in> perms3"
  shows "sinew_mul9 exact (sinew_transpose9 (perm_matrix ord))
      (sinew_mul9 exact (diag (w ! 0) (w ! 1) (w ! 2)) (perm_matrix ord)) =
    diag (w ! (ord ! 0)) (w ! (ord ! 1)) (w ! (ord ! 2))"
  using assms unfolding perms3_def
  by (elim insertE emptyE; simp add: perm_matrix_def sinew_mul9_def sinew_transpose9_def diag_def dot3_def)

lemma sort_desc_sorted:
  assumes "ord = sort_desc exact w"
  shows "w ! (ord ! 1) \<le> w ! (ord ! 0)" and "w ! (ord ! 2) \<le> w ! (ord ! 1)"
  using assms by (auto simp: sort_desc_def)

subsection \<open>The factors\<close>

definition converged :: "real list \<Rightarrow> real list \<Rightarrow> real list \<Rightarrow> bool" where
  "converged m w v \<longleftrightarrow>
     sinew_mul9 exact (sinew_transpose9 v) (sinew_mul9 exact m v) = diag (w ! 0) (w ! 1) (w ! 2)"

lemma kabsch_left_eq:
  assumes "length h = 9" "length v = 9" and "\<forall>c < 3. 1 / 10 ^ 12 < sig ! c"
  shows "kabsch_left exact h v sig =
    sinew_mul9 exact (sinew_mul9 exact h v) (diag (1 / sig ! 0) (1 / sig ! 1) (1 / sig ! 2))"
proof -
  have "1 / 10 ^ 12 < sig ! 0" "1 / 10 ^ 12 < sig ! 1" "1 / 10 ^ 12 < sig ! 2" using assms(3) by simp_all
  then show ?thesis
    unfolding kabsch_left_def sinew_mul9_def diag_def exact_simps upt3 by (simp add: numeral_2_eq_2 dot3_def)
qed

lemma kabsch_complete_eq:
  assumes "\<forall>c < 3. 1 / 10 ^ 12 < sig ! c"
  shows "kabsch_complete exact sig u = u"
proof -
  have "1 / 10 ^ 12 < sig ! 0" "1 / 10 ^ 12 < sig ! 1" "1 / 10 ^ 12 < sig ! 2" using assms by simp_all
  then show ?thesis unfolding kabsch_complete_def exact_simps upt3 by (simp add: not_le)
qed

lemma flip_column:
  assumes "length u = 9"
  shows "u[2 := u ! 2 * s, 5 := u ! 5 * s, 8 := u ! 8 * s] = sinew_mul9 exact u (diag 1 1 s)"
proof -
  obtain a b c d e f g h i where u: "u = [a, b, c, d, e, f, g, h, i]" using assms by (rule list9E)
  show ?thesis by (simp add: u sinew_mul9_def diag_def dot3_def)
qed

lemma singular_pos:
  assumes "1 / 10 ^ 12 < sqrt x"
  shows "0 < x" and "sqrt (max x 0) = sqrt x" and "sqrt x * sqrt x = x"
proof -
  have "0 < sqrt x" using assms less_trans[of 0 "1 / 10 ^ 12" "sqrt x"] by simp
  then show "0 < x" by simp
  then show "sqrt (max x 0) = sqrt x" "sqrt x * sqrt x = x" by simp_all
qed

lemma svd_left:
  assumes h: "length h = 9" and v: "orth v"
    and vgv: "sinew_mul9 exact (sinew_transpose9 v) (sinew_mul9 exact (gram9 exact h) v) = diag (x * x) (y * y) (z * z)"
    and pos: "0 < x" "0 < y" "0 < z"
  defines "u \<equiv> sinew_mul9 exact (sinew_mul9 exact h v) (diag (1 / x) (1 / y) (1 / z))"
  shows "orth u" and "h = sinew_mul9 exact u (sinew_mul9 exact (diag x y z) (sinew_transpose9 v))"
proof -
  let ?t = sinew_transpose9 and ?M = "sinew_mul9 exact" and ?I = "diag (1 / x) (1 / y) (1 / z)"
  note lv = orth_length[OF v]
  have "gram9 exact u = ?M ?I (?M (?M (?t v) (?M (gram9 exact h) v)) ?I)"
    using h lv by (simp add: u_def gram9_eq transpose9_mul9 mul9_assoc)
  also have "\<dots> = identity9 exact"
    unfolding vgv using pos by (simp add: diag_mul identity_diag)
  finally show "orth u" by (rule gram_orth(1)[rotated]) (simp add: u_def)
  have "?M u (?M (diag x y z) (?t v)) = ?M h (?M v (?M (?M ?I (diag x y z)) (?t v)))"
    using h lv by (simp add: u_def mul9_assoc)
  also have "\<dots> = h"
    using pos v mul9_identity[OF h] mul9_identity(2)[of "?t v"] by (simp add: diag_mul orth_def identity_diag)
  finally show "h = ?M u (?M (diag x y z) (?t v))" ..
qed

text \<open>What the routine computes from the result of the sweeps, converged or not: the singular
  values in descending order, the permuted vectors and the normalised images of these.\<close>

definition sing :: "real list \<Rightarrow> nat \<Rightarrow> real" where
  "sing w c = sqrt (w ! (sort_desc exact w ! c))"

definition right9 :: "real list \<Rightarrow> real list \<Rightarrow> real list" where
  "right9 w vc = sinew_mul9 exact vc (perm_matrix (sort_desc exact w))"

definition left9 :: "real list \<Rightarrow> real list \<Rightarrow> real list \<Rightarrow> real list" where
  "left9 h w vc = sinew_mul9 exact (sinew_mul9 exact h (right9 w vc)) (diag (1 / sing w 0) (1 / sing w 1) (1 / sing w 2))"

lemma perms3_less: "ord \<in> perms3 \<Longrightarrow> c < 3 \<Longrightarrow> ord ! c < 3"
  by (auto simp: perms3_def less_Suc_eq numeral_3_eq_3)

lemma sing_order: "sing w 1 \<le> sing w 0" "sing w 2 \<le> sing w 1"
  using sort_desc_sorted[of "sort_desc exact w" w] by (simp_all add: sing_def)

lemma sing_facts:
  assumes "\<forall>c < 3. 1 / 10 ^ 12 < sqrt (w ! c)" "c < 3"
  shows "1 / 10 ^ 12 < sing w c" "sing w c * sing w c = w ! (sort_desc exact w ! c)"
    "sqrt (max (w ! (sort_desc exact w ! c)) 0) = sing w c" "0 < sing w c"
  using assms perms3_less[OF sort_desc_perm assms(2), of exact w] singular_pos[of "w ! (sort_desc exact w ! c)"]
  by (simp_all add: sing_def)

lemma right9_orth:
  assumes "length m = 9" "sinew_jacobi9 exact m = (w, vc)"
  shows "orth (right9 w vc)"
  unfolding right9_def
  using orth_mul[OF _ perm_orth[OF sort_desc_perm]] jacobi9_inv(1)[OF assms] rotation_orth by blast

lemma length_left9 [simp]: "length (left9 h w vc) = 9"
  by (simp add: left9_def)

lemma kabsch_form:
  assumes h: "length h = 9" and j: "sinew_jacobi9 exact (gram9 exact h) = (w, vc)"
    and pos: "\<forall>c < 3. 1 / 10 ^ 12 < sqrt (w ! c)"
  defines "u \<equiv> left9 h w vc" and "v \<equiv> right9 w vc"
  shows "sinew_kabsch exact h = sinew_mul9 exact (sinew_mul9 exact u
      (diag 1 1 (if sinew_det9 exact (sinew_mul9 exact u (sinew_transpose9 v)) < 0 then - 1 else 1)))
      (sinew_transpose9 v)"
proof -
  define ord where "ord = sort_desc exact w"
  let ?s = "[sing w 0, sing w 1, sing w 2]"
  have ord: "ord \<in> perms3" by (simp add: ord_def sort_desc_perm)
  have vc: "length vc = 9" using jacobi9_inv(1)[OF _ j] by (simp add: rotation_def)
  have lv: "length v = 9" using right9_orth[OF _ j] orth_length by (simp add: v_def)
  note s = sing_facts[OF pos, folded ord_def]
  have sig: "[sqrt (max (w ! (ord ! c)) 0). c \<leftarrow> [0..<3]] = ?s" using s(3) by simp
  have all: "\<forall>c < 3. 1 / 10 ^ 12 < ?s ! c"
    using s(1)[of 0] s(1)[of 1] s(1)[of 2] by (auto simp: less_Suc_eq numeral_3_eq_3)
  have ku: "kabsch_complete exact ?s (kabsch_left exact h v ?s) = u"
    using kabsch_complete_eq[OF all] kabsch_left_eq[OF h lv all]
    by (simp add: u_def left9_def v_def numeral_2_eq_2)
  have lu: "length u = 9" by (simp add: u_def)
  have v: "sinew_mul9 exact vc (perm_matrix ord) = v" by (simp add: v_def right9_def ord_def)
  show ?thesis
    unfolding sinew_kabsch_def j Let_def prod.case exact_simps ord_def[symmetric] sig
      permute_columns[OF ord vc] v ku flip_column[OF lu] ..
qed

lemma right9_gram:
  assumes "length m = 9" "length vc = 9"
  shows "sinew_mul9 exact (sinew_transpose9 (right9 w vc)) (sinew_mul9 exact m (right9 w vc)) =
    sinew_mul9 exact (sinew_transpose9 (perm_matrix (sort_desc exact w)))
      (sinew_mul9 exact (sinew_mul9 exact (sinew_transpose9 vc) (sinew_mul9 exact m vc))
        (perm_matrix (sort_desc exact w)))"
  using assms orth_length[OF perm_orth[OF sort_desc_perm, of exact w]]
  by (simp add: right9_def transpose9_mul9 mul9_assoc)

lemma kabsch_factors:
  assumes h: "length h = 9" and j: "sinew_jacobi9 exact (gram9 exact h) = (w, vc)"
    and cv: "converged (gram9 exact h) w vc" and pos: "\<forall>c < 3. 1 / 10 ^ 12 < sqrt (w ! c)"
  defines "u \<equiv> left9 h w vc" and "v \<equiv> right9 w vc"
  shows "orth u" and "h = sinew_mul9 exact u (sinew_mul9 exact (diag (sing w 0) (sing w 1) (sing w 2)) (sinew_transpose9 v))"
proof -
  have vc: "length vc = 9" using jacobi9_inv(1)[OF _ j] by (simp add: rotation_def)
  note s = sing_facts[OF pos]
  have "sinew_mul9 exact (sinew_transpose9 v) (sinew_mul9 exact (gram9 exact h) v) =
      diag (sing w 0 * sing w 0) (sing w 1 * sing w 1) (sing w 2 * sing w 2)"
    using cv permute_diag[OF sort_desc_perm, of exact w w] s(2)
    by (simp add: v_def right9_gram vc converged_def)
  from svd_left[OF h _ this s(4) s(4) s(4)] right9_orth[OF _ j]
  show "orth u" "h = sinew_mul9 exact u (sinew_mul9 exact (diag (sing w 0) (sing w 1) (sing w 2)) (sinew_transpose9 v))"
    by (simp_all add: u_def v_def left9_def)
qed

subsection \<open>The best rotation\<close>

text \<open>How well a matrix carries the sources to the targets: the sum of the products of each target
  with its rotated source. For rotations, maximising it is minimising the squared distances.\<close>

definition fit_score :: "real list \<Rightarrow> real list \<Rightarrow> nat \<Rightarrow> real list \<Rightarrow> real" where
  "fit_score ts ss n q =
     (\<Sum>p < n. v3_dot exact (chunk (p * 3) 3 ts) (mat_vec q (chunk (p * 3) 3 ss)))"

definition frob :: "real list \<Rightarrow> real list \<Rightarrow> real" where
  "frob a b = (\<Sum>k < 9. a ! k * b ! k)"

definition tr9 :: "real list \<Rightarrow> real" where
  "tr9 m = m ! 0 + m ! 4 + m ! 8"

lemma sum9: "(\<Sum>k < 9. f k) = f 0 + f 1 + f 2 + f 3 + f 4 + f 5 + f 6 + f 7 + (f (8 :: nat) :: real)"
  by (simp add: numeral_eq_Suc)

lemma frob_trace: "frob a b = tr9 (sinew_mul9 exact (sinew_transpose9 a) b)"
  by (simp add: frob_def tr9_def sum9 mat_defs numeral_2_eq_2)

lemma trace_mul: "tr9 (sinew_mul9 exact a b) = tr9 (sinew_mul9 exact b a)"
  by (simp add: tr9_def mat_defs numeral_2_eq_2)

lemma trace_diag: "tr9 (sinew_mul9 exact m (diag x y z)) = m ! 0 * x + m ! 4 * y + m ! 8 * z"
  by (simp add: tr9_def diag_def mat_defs)

lemma add_outer_frob:
  assumes "length q = 9" "length h = 9" "length a = 3" "length b = 3"
  shows "frob q (add_outer exact a b h) = frob q h + v3_dot exact a (mat_vec q b)"
proof -
  obtain q0 q1 q2 q3 q4 q5 q6 q7 q8 where q: "q = [q0, q1, q2, q3, q4, q5, q6, q7, q8]"
    using assms(1) by (rule list9E)
  obtain h0 h1 h2 h3 h4 h5 h6 h7 h8 where h: "h = [h0, h1, h2, h3, h4, h5, h6, h7, h8]"
    using assms(2) by (rule list9E)
  obtain a0 a1 a2 where a: "a = [a0, a1, a2]" using assms(3) by (rule list3E)
  obtain b0 b1 b2 where b: "b = [b0, b1, b2]" using assms(4) by (rule list3E)
  show ?thesis
    by (simp add: q h a b frob_def sum9 add_outer_def mat_vec_def chunk_def v3_dot_def dot3_def algebra_simps)
qed

lemma length_add_outer [simp]: "length (add_outer A a b h) = length h"
  by (simp add: add_outer_def)

lemma covariance_Suc:
  "covariance A ts ss (Suc n) = add_outer A (chunk (n * 3) 3 ts) (chunk (n * 3) 3 ss) (covariance A ts ss n)"
  by (simp add: covariance_def)

lemma length_covariance [simp]: "length (covariance A ts ss n) = 9"
  by (induction n) (simp_all add: covariance_Suc, simp add: covariance_def)

lemma covariance_score:
  assumes "length q = 9" "3 * n \<le> length ts" "3 * n \<le> length ss"
  shows "frob q (covariance exact ts ss n) = fit_score ts ss n q"
  using assms(2,3)
proof (induction n)
  case 0
  then show ?case by (simp add: covariance_def frob_def sum9 fit_score_def)
next
  case (Suc n)
  have "length (chunk (n * 3) 3 ts) = 3" "length (chunk (n * 3) 3 ss) = 3"
    using Suc.prems by (simp_all add: chunk_def)
  then show ?case
    using Suc assms(1) by (simp add: covariance_Suc add_outer_frob fit_score_def)
qed

text \<open>The diagonal of an orthogonal matrix, and its trace when the matrix is a reflection.\<close>

lemma orth_diag_le:
  assumes "orth m"
  shows "m ! 0 \<le> 1" "m ! 4 \<le> 1" "m ! 8 \<le> 1"
proof -
  obtain a b c d e f g h i where m: "m = [a, b, c, d, e, f, g, h, i]"
    using orth_length[OF assms] by (rule list9E)
  have "a\<^sup>2 + d\<^sup>2 + g\<^sup>2 = 1" "b\<^sup>2 + e\<^sup>2 + h\<^sup>2 = 1" "c\<^sup>2 + f\<^sup>2 + i\<^sup>2 = 1"
    using assms by (simp_all add: orth_def m gram9_def dot3_def identity9_def power2_eq_square)
  then have "a\<^sup>2 \<le> 1" "e\<^sup>2 \<le> 1" "i\<^sup>2 \<le> 1"
    using zero_le_power2[of d] zero_le_power2[of g] zero_le_power2[of b] zero_le_power2[of h]
      zero_le_power2[of c] zero_le_power2[of f] by linarith+
  then show "m ! 0 \<le> 1" "m ! 4 \<le> 1" "m ! 8 \<le> 1" by (auto simp: m abs_square_le_1 abs_le_iff)
qed

lemma reflection_trace:
  assumes "orth m" and "sinew_det9 exact m = - 1"
  shows "tr9 m \<le> 1"
proof -
  obtain a b c d e f g h i where m: "m = [a, b, c, d, e, f, g, h, i]"
    using orth_length[OF assms(1)] by (rule list9E)
  note l = orth_length[OF assms(1)]
  have "adj9 m = sinew_mul9 exact (sinew_transpose9 m) (sinew_mul9 exact m (adj9 m))"
    using assms(1) mul9_assoc[of "sinew_transpose9 m" m "adj9 m"] l mul9_identity(2)[of "adj9 m"]
    by (simp add: orth_def gram9_eq adj9_def)
  then have adj: "adj9 m = sinew_mul9 exact (sinew_transpose9 m) (diag (- 1) (- 1) (- 1))"
    using mul9_adj9[OF l] assms(2) by simp
  then have "tr9 (adj9 m) = - tr9 m" by (simp add: trace_diag) (simp add: tr9_def sinew_transpose9_def)
  then have minors: "(e * i - f * h) + (a * i - c * g) + (a * e - b * d) = - (a + e + i)"
    by (simp add: tr9_def adj9_def m)
  have cols: "a\<^sup>2 + d\<^sup>2 + g\<^sup>2 = 1" "b\<^sup>2 + e\<^sup>2 + h\<^sup>2 = 1" "c\<^sup>2 + f\<^sup>2 + i\<^sup>2 = 1"
    using assms by (simp_all add: orth_def m gram9_def dot3_def identity9_def power2_eq_square)
  have "(3 + (a + e + i)) * (1 - (a + e + i)) = (b - d)\<^sup>2 + (c - g)\<^sup>2 + (f - h)\<^sup>2"
    using minors cols by algebra
  then have "0 \<le> (3 + (a + e + i)) * (1 - (a + e + i))" by simp
  then have "a + e + i \<le> 1" by (auto simp: zero_le_mult_iff)
  then show ?thesis by (simp add: tr9_def m)
qed

text \<open>A weighted diagonal of an orthogonal matrix is largest for the identity, and, among the
  reflections, for the one that flips the smallest weight.\<close>

lemma weighted_diag_le:
  assumes "orth m" "0 < x2" "x2 \<le> x1" "x1 \<le> x0" and "sinew_det9 exact m = sg" "sg = 1 \<or> sg = - 1"
  shows "m ! 0 * x0 + m ! 4 * x1 + m ! 8 * x2 \<le> x0 + x1 + sg * x2"
proof -
  note le = orth_diag_le[OF assms(1)]
  have w: "m ! 0 * (x0 - x2) \<le> 1 * (x0 - x2)" "m ! 4 * (x1 - x2) \<le> 1 * (x1 - x2)"
    using mult_right_mono[OF le(1), of "x0 - x2"] mult_right_mono[OF le(2), of "x1 - x2"] assms(3,4)
    by simp_all
  have "tr9 m \<le> 2 + sg"
    using assms(6) reflection_trace[OF assms(1)] assms(5) le by (auto simp: tr9_def)
  then have "tr9 m * x2 \<le> (2 + sg) * x2" using assms(2) by (intro mult_right_mono) auto
  then show ?thesis using w by (simp add: tr9_def algebra_simps)
qed

lemma frob_factors:
  assumes "length u = 9" "length v = 9" "length q = 9"
  shows "frob q (sinew_mul9 exact u (sinew_mul9 exact (diag x y z) (sinew_transpose9 v))) =
    (let m = sinew_mul9 exact (sinew_transpose9 v) (sinew_mul9 exact (sinew_transpose9 q) u)
     in m ! 0 * x + m ! 4 * y + m ! 8 * z)"
proof -
  let ?t = sinew_transpose9 and ?M = "sinew_mul9 exact"
  have "frob q (?M u (?M (diag x y z) (?t v))) = tr9 (?M (?M (?M (?t q) u) (diag x y z)) (?t v))"
    using assms by (simp add: frob_trace mul9_assoc)
  also have "\<dots> = tr9 (?M (?M (?t v) (?M (?t q) u)) (diag x y z))"
    using assms trace_mul[of "?M (?M (?t q) u) (diag x y z)" "?t v"] by (simp add: mul9_assoc)
  finally show ?thesis by (simp add: trace_diag Let_def)
qed

lemma kabsch_best:
  assumes "length h = 9" and "sinew_jacobi9 exact (gram9 exact h) = (w, vc)"
    and "converged (gram9 exact h) w vc" and "\<forall>c < 3. 1 / 10 ^ 12 < sqrt (w ! c)"
  shows "rotation (sinew_kabsch exact h)" and "rotation q \<Longrightarrow> frob q h \<le> frob (sinew_kabsch exact h) h"
proof -
  let ?t = sinew_transpose9 and ?M = "sinew_mul9 exact"
  define u v s where "u = left9 h w vc" and "v = right9 w vc" and "s = sing w"
  note folds = u_def[symmetric] v_def[symmetric] s_def[symmetric]
  note u = kabsch_factors(1)[OF assms, unfolded folds] and h = kabsch_factors(2)[OF assms, unfolded folds]
    and v = right9_orth[OF _ assms(2), unfolded folds, simplified] and k = kabsch_form[OF assms(1,2,4), unfolded folds]
  have s: "0 < s 2" "s 2 \<le> s 1" "s 1 \<le> s 0" using sing_facts(4)[OF assms(4)] sing_order by (simp_all add: s_def)
  define sg where "sg = sinew_det9 exact (?M u (?t v))"
  note l = orth_length[OF u] orth_length[OF v]
  have "sg * sg = 1" using orth_det orth_mul[OF u orth_transpose[OF v]] by (simp add: sg_def)
  then have sg: "sg = 1 \<or> sg = - 1" by (metis mult_1_left square_eq_iff)
  then have k: "sinew_kabsch exact h = ?M (?M u (diag 1 1 sg)) (?t v)" using k by (auto simp: sg_def[symmetric])
  have "orth (diag 1 1 sg)"
    using sg by (intro gram_orth) (auto simp: gram9_eq diag_mul identity_diag)
  then have ok: "orth (sinew_kabsch exact h)" unfolding k by (intro orth_mul orth_transpose u v)
  have sgd: "sinew_det9 exact u * sinew_det9 exact v = sg"
    using det9_mul9[of u "?t v"] l by (simp add: sg_def det9_transpose9)
  then have "sinew_det9 exact (sinew_kabsch exact h) = sg * sg"
    using l by (simp add: k det9_mul9 det9_transpose9 diag_det)
  then show rot: "rotation (sinew_kabsch exact h)"
    using ok \<open>sg * sg = 1\<close> by (simp add: rotation_def orth_def)
  note weigh = frob_factors[OF l, of _ "s 0" "s 1" "s 2", folded h]
  have "?t (sinew_kabsch exact h) = ?M v (?M (diag 1 1 sg) (?t u))"
    using l by (simp add: k transpose9_mul9 transpose9_transpose9 mul9_assoc)
  then have "?M (?t v) (?M (?t (sinew_kabsch exact h)) u) = ?M (?M (?t v) v) (?M (diag 1 1 sg) (?M (?t u) u))"
    using l by (simp add: mul9_assoc)
  also have "\<dots> = diag 1 1 sg" using u v by (simp add: orth_def gram9_eq[symmetric] mul9_identity)
  finally have best: "frob (sinew_kabsch exact h) h = s 0 + s 1 + sg * s 2"
    using weigh[OF orth_length[OF ok]] by (simp add: diag_def Let_def)
  assume q: "rotation q"
  have "sinew_det9 exact (?M (?t v) (?M (?t q) u)) = sg"
    using q l sgd by (simp add: det9_mul9 det9_transpose9 rotation_def mult.commute)
  moreover have "orth (?M (?t v) (?M (?t q) u))"
    using u v rotation_orth[OF q] by (intro orth_mul orth_transpose)
  ultimately show "frob q h \<le> frob (sinew_kabsch exact h) h"
    using weighted_diag_le[of "?M (?t v) (?M (?t q) u)" "s 2" "s 1" "s 0" sg] s sg weigh[of q] best q
    by (simp add: rotation_def Let_def)
qed

text \<open>On exact data no rotation scores higher than one that carries every source to its target,
  and every rotation with that score does so too.\<close>

lemma rotation_norm:
  assumes "rotation m" and "length v = 3"
  shows "v3_dot exact (mat_vec m v) (mat_vec m v) = v3_dot exact v v"
proof -
  obtain a b c d e f g h i where m: "m = [a, b, c, d, e, f, g, h, i]"
    using assms(1) list9E unfolding rotation_def by metis
  obtain x y z where v: "v = [x, y, z]" using assms(2) by (rule list3E)
  have "a * a + d * d + g * g = 1" "b * b + e * e + h * h = 1" "c * c + f * f + i * i = 1"
    "a * b + d * e + g * h = 0" "a * c + d * f + g * i = 0" "b * c + e * f + h * i = 0"
    using assms(1) by (simp_all add: rotation_def m gram9_def dot3_def identity9_def)
  then show ?thesis
    by (simp add: m v mat_vec_def chunk_def v3_dot_def dot3_def) algebra
qed

lemma dot_le_equal:
  assumes "length a = 3" "length b = 3" "v3_dot exact a a = v3_dot exact b b"
  shows "v3_dot exact a b \<le> v3_dot exact a a" and "v3_dot exact a b = v3_dot exact a a \<Longrightarrow> a = b"
proof -
  obtain x y z where a: "a = [x, y, z]" using assms(1) by (rule list3E)
  obtain x' y' z' where b: "b = [x', y', z']" using assms(2) by (rule list3E)
  have sq: "(x - x')\<^sup>2 + (y - y')\<^sup>2 + (z - z')\<^sup>2 = 2 * v3_dot exact a a - 2 * v3_dot exact a b"
    using assms(3) by (simp add: a b v3_dot_def dot3_def power2_eq_square algebra_simps)
  have "0 \<le> (x - x')\<^sup>2 + (y - y')\<^sup>2 + (z - z')\<^sup>2" by simp
  then show "v3_dot exact a b \<le> v3_dot exact a a" using sq by linarith
  assume "v3_dot exact a b = v3_dot exact a a"
  then have "(x - x')\<^sup>2 + (y - y')\<^sup>2 + (z - z')\<^sup>2 = 0" using sq by simp
  then have "x - x' = 0 \<and> y - y' = 0 \<and> z - z' = 0"
    by (simp add: add_nonneg_eq_0_iff)
  then show "a = b" by (simp add: a b)
qed

lemma length_mat_vec [simp]: "length (mat_vec m v) = 3"
  by (simp add: mat_vec_def)

lemma best_recovers:
  assumes q: "rotation q" "\<forall>p < n. chunk (p * 3) 3 ts = mat_vec q (chunk (p * 3) 3 ss)"
    and k: "rotation k" "fit_score ts ss n q \<le> fit_score ts ss n k" and len: "3 * n \<le> length ss"
  shows "\<forall>p < n. mat_vec k (chunk (p * 3) 3 ss) = chunk (p * 3) 3 ts"
proof -
  let ?t = "\<lambda>p. chunk (p * 3) 3 ts" and ?s = "\<lambda>p. chunk (p * 3) 3 ss"
  have ls: "length (?s p) = 3" if "p < n" for p using that len by (simp add: chunk_def)
  have eq: "v3_dot exact (?t p) (?t p) = v3_dot exact (mat_vec k (?s p)) (mat_vec k (?s p))" "length (?t p) = 3"
    if "p < n" for p
    using q(2) that rotation_norm[OF q(1) ls[OF that]] rotation_norm[OF k(1) ls[OF that]] by simp_all
  note le = dot_le_equal[OF eq(2) length_mat_vec eq(1)]
  have "(\<Sum>p < n. v3_dot exact (?t p) (?t p) - v3_dot exact (?t p) (mat_vec k (?s p))) \<le> 0"
    using k(2) q(2) by (simp add: fit_score_def sum_subtractf)
  moreover have "0 \<le> v3_dot exact (?t p) (?t p) - v3_dot exact (?t p) (mat_vec k (?s p))" if "p < n" for p
    using le(1)[OF that that] by simp
  ultimately have "\<forall>p < n. v3_dot exact (?t p) (?t p) - v3_dot exact (?t p) (mat_vec k (?s p)) = 0"
    using sum_nonneg_eq_0_iff[of "{..<n}" "\<lambda>p. v3_dot exact (?t p) (?t p) - v3_dot exact (?t p) (mat_vec k (?s p))"]
      sum_nonneg[of "{..<n}" "\<lambda>p. v3_dot exact (?t p) (?t p) - v3_dot exact (?t p) (mat_vec k (?s p))"]
    by fastforce
  then show ?thesis using le(2) by fastforce
qed

text \<open>C9: in exact arithmetic the singular value fit solves the alignment problem. When the Jacobi
  sweeps have brought the Gram matrix of the covariance of n target and source vectors to
  diagonal form and its three singular values are above the rank threshold 1e-12, then
  \<open>sinew_kabsch\<close> returns a rotation matrix, also when the best orthogonal matrix would be a
  reflection, and no rotation carries the sources closer to the targets; if some rotation
  carries every source exactly to its target, so does the result.\<close>

theorem kabsch_optimal:
  assumes "h = covariance exact ts ss n" "3 * n \<le> length ts" "3 * n \<le> length ss"
    and "sinew_jacobi9 exact (gram9 exact h) = (w, v)" and "converged (gram9 exact h) w v"
    and "\<forall>c < 3. 1 / 10 ^ 12 < sqrt (w ! c)"
  shows "rotation (sinew_kabsch exact h) \<and>
    (\<forall>q. rotation q \<longrightarrow> fit_score ts ss n q \<le> fit_score ts ss n (sinew_kabsch exact h) \<and>
       ((\<forall>p < n. chunk (p * 3) 3 ts = mat_vec q (chunk (p * 3) 3 ss)) \<longrightarrow>
        (\<forall>p < n. mat_vec (sinew_kabsch exact h) (chunk (p * 3) 3 ss) = chunk (p * 3) 3 ts)))"
proof -
  have l: "length h = 9" by (simp add: assms(1))
  note best = kabsch_best[OF l assms(4-6)]
  have "frob q h = fit_score ts ss n q" if "rotation q" for q
    using that covariance_score[OF _ assms(2,3)] by (simp add: assms(1) rotation_def)
  then have le: "fit_score ts ss n q \<le> fit_score ts ss n (sinew_kabsch exact h)" if "rotation q" for q
    using best that by (metis (no_types))
  then show ?thesis using best_recovers[OF _ _ best(1) _ assms(3)] best(1) by blast
qed

text \<open>Three pairs along the axes, of which the third target is mirrored: the best orthogonal
  matrix is a reflection, the fit returns the rotation.\<close>

theorem kabsch_optimal_witness:
  "rotation (sinew_kabsch exact [3, 0, 0, 0, 2, 0, 0, 0, - 1]) \<and>
   fit_score [3, 0, 0, 0, 2, 0, 0, 0, - 1] [1, 0, 0, 0, 1, 0, 0, 0, 1] 3 (diag 1 1 1) \<le>
   fit_score [3, 0, 0, 0, 2, 0, 0, 0, - 1] [1, 0, 0, 0, 1, 0, 0, 0, 1] 3
     (sinew_kabsch exact [3, 0, 0, 0, 2, 0, 0, 0, - 1])"
proof -
  let ?h = "[3, 0, 0, 0, 2, 0, 0, 0, - 1] :: real list"
  let ?i = "[1, 0, 0, 0, 1, 0, 0, 0, 1] :: real list"
  have "replicate 9 (0 :: real) = [0, 0, 0, 0, 0, 0, 0, 0, 0]" by (simp add: numeral_eq_Suc)
  then have c: "?h = covariance exact ?h ?i 3"
    by (simp add: covariance_def add_outer_def chunk_def)
  have g: "gram9 exact ?h = [9, 0, 0, 0, 4, 0, 0, 0, 1]" by (simp add: gram9_def dot3_def)
  have j: "sinew_jacobi9 exact (gram9 exact ?h) = ([9, 4, 1], ?i)"
    unfolding g using jacobi_loop.simps(2)[of exact 49 "([9, 0, 0, 0, 4, 0, 0, 0, 1], ?i)"]
    by (simp add: sinew_jacobi9_def identity9_def)
  have d: "converged (gram9 exact ?h) [9, 4, 1] ?i"
    unfolding g by (simp add: converged_def diag_def mat_defs)
  have p: "\<forall>c < 3. 1 / 10 ^ 12 < sqrt ([9, 4, 1] ! c)"
    by (auto simp: less_Suc_eq numeral_3_eq_3 real_less_rsqrt power2_eq_square)
  have r: "rotation (diag 1 1 1)"
    by (simp add: rotation_def diag_def gram9_def dot3_def identity9_def sinew_det9_def)
  show ?thesis using kabsch_optimal[OF c _ _ j d p] r by simp
qed

end
