(* ===== verification/Sinew_Fit.thy ===== *)
theory Sinew_Fit
  imports Sinew_Kabsch
begin

text \<open>
  The whole fit in exact arithmetic. The Newton-Schulz iteration works on the singular values
  alone and drives them to 1; for targets that are the rotated sources, the matrix the
  dispatcher builds is the rotation times a symmetric matrix, so that \<open>sinew_align\<close> recovers
  the rotation.
\<close>

subsection \<open>Matrices in terms of their singular values\<close>

definition svd :: "real list \<Rightarrow> real \<Rightarrow> real \<Rightarrow> real \<Rightarrow> real list \<Rightarrow> real list" where
  "svd u x y z v = sinew_mul9 exact u (sinew_mul9 exact (diag x y z) (sinew_transpose9 v))"

lemma length_svd [simp]: "length (svd u x y z v) = 9"
  by (simp add: svd_def)

lemma svd_entries:
  assumes "length u = 9" "length v = 9"
  shows "svd u x y z v =
    [u ! (3 * i) * x * v ! (3 * j) + u ! (3 * i + 1) * y * v ! (3 * j + 1) + u ! (3 * i + 2) * z * v ! (3 * j + 2).
      i \<leftarrow> [0..<3], j \<leftarrow> [0..<3]]"
proof -
  obtain a0 a1 a2 a3 a4 a5 a6 a7 a8 where u: "u = [a0, a1, a2, a3, a4, a5, a6, a7, a8]"
    using assms(1) by (rule list9E)
  obtain b0 b1 b2 b3 b4 b5 b6 b7 b8 where v: "v = [b0, b1, b2, b3, b4, b5, b6, b7, b8]"
    using assms(2) by (rule list9E)
  show ?thesis by (simp add: u v svd_def mat_defs diag_def)
qed

lemma svd_map:
  assumes "length u = 9" "length v = 9"
  shows "map (\<lambda>e. c * e) (svd u x y z v) = svd u (c * x) (c * y) (c * z) v"
  using assms by (simp add: svd_entries algebra_simps)

lemma svd_product:
  assumes "length u = 9" "orth v"
  shows "sinew_mul9 exact (svd u x y z v) (svd v a b c v) = svd u (x * a) (y * b) (z * c) v"
proof -
  let ?M = "sinew_mul9 exact" and ?t = sinew_transpose9
  have "?M (svd u x y z v) (svd v a b c v) = ?M u (?M (diag x y z) (?M (?M (?t v) v) (?M (diag a b c) (?t v))))"
    using assms orth_length[OF assms(2)] by (simp add: svd_def mul9_assoc)
  also have "\<dots> = ?M u (?M (?M (diag x y z) (diag a b c)) (?t v))"
    using assms orth_length[OF assms(2)]
    by (simp add: orth_def gram9_eq[symmetric] mul9_identity mul9_assoc)
  finally show ?thesis by (simp add: svd_def diag_mul)
qed

lemma svd_transpose:
  assumes "length u = 9" "length v = 9"
  shows "sinew_transpose9 (svd u x y z v) = svd v x y z u"
  using assms by (simp add: svd_def transpose9_mul9 transpose9_transpose9 mul9_assoc)

lemma svd_gram:
  assumes "orth u" "orth v"
  shows "gram9 exact (svd u x y z v) = svd v (x * x) (y * y) (z * z) v"
proof -
  let ?M = "sinew_mul9 exact" and ?t = sinew_transpose9
  note l = orth_length[OF assms(1)] orth_length[OF assms(2)]
  have "gram9 exact (svd u x y z v) =
      ?M v (?M (diag x y z) (?M (?M (?t u) u) (?M (diag x y z) (?t v))))"
    using l by (simp add: gram9_eq svd_transpose) (simp add: svd_def mul9_assoc)
  also have "\<dots> = ?M v (?M (?M (diag x y z) (diag x y z)) (?t v))"
    using assms(1) l by (simp add: orth_def gram9_eq[symmetric] mul9_identity mul9_assoc)
  finally show ?thesis by (simp add: svd_def diag_mul)
qed

lemma svd_det:
  assumes "length u = 9" "length v = 9"
  shows "sinew_det9 exact (svd u x y z v) = sinew_det9 exact u * sinew_det9 exact v * (x * y * z)"
  using assms by (simp add: svd_def det9_mul9 diag_det det9_transpose9)

lemma svd_identity: "orth v \<Longrightarrow> svd v 1 1 1 v = identity9 exact"
  using mul9_identity(2)[of "sinew_transpose9 v"] by (simp add: svd_def orth_def identity_diag[symmetric])

lemma svd_diff:
  assumes "length u = 9" "length v = 9" "k < 9"
  shows "svd u x y z v ! k - svd u a b c v ! k = svd u (x - a) (y - b) (z - c) v ! k"
proof -
  have "k \<in> {0, 1, 2, 3, 4, 5, 6, 7, 8}" using assms(3) by auto
  then show ?thesis using assms(1,2) by (auto simp: svd_entries algebra_simps)
qed

lemma orth_rows:
  assumes "orth u" and "i < 3"
  shows "(u ! (3 * i))\<^sup>2 + (u ! (3 * i + 1))\<^sup>2 + (u ! (3 * i + 2))\<^sup>2 = 1"
proof -
  obtain a b c d e f g h j where u: "u = [a, b, c, d, e, f, g, h, j]"
    using orth_length[OF assms(1)] by (rule list9E)
  have "a\<^sup>2 + b\<^sup>2 + c\<^sup>2 = 1" "d\<^sup>2 + e\<^sup>2 + f\<^sup>2 = 1" "g\<^sup>2 + h\<^sup>2 + j\<^sup>2 = 1"
    using assms(1) by (simp_all add: orth_def u mat_defs identity9_def power2_eq_square)
  moreover have "i \<in> {0, 1, 2}" using assms(2) by auto
  ultimately show ?thesis by (auto simp: u)
qed

lemma weighted_row_bound:
  fixes a b c a' b' c' :: real
  assumes "a\<^sup>2 + b\<^sup>2 + c\<^sup>2 = 1" "a'\<^sup>2 + b'\<^sup>2 + c'\<^sup>2 = 1"
    and "\<bar>x\<bar> \<le> e" "\<bar>y\<bar> \<le> e" "\<bar>z\<bar> \<le> e"
  shows "\<bar>a * x * a' + b * y * b' + c * z * c'\<bar> \<le> e"
proof -
  have part: "\<bar>p * w * q\<bar> \<le> e * ((p\<^sup>2 + q\<^sup>2) / 2)" if "\<bar>w\<bar> \<le> e" for p q w :: real
  proof -
    have "0 \<le> (\<bar>p\<bar> - \<bar>q\<bar>)\<^sup>2" by simp
    then have "\<bar>p\<bar> * \<bar>q\<bar> \<le> (p\<^sup>2 + q\<^sup>2) / 2" by (simp add: power2_diff)
    then have "\<bar>w\<bar> * (\<bar>p\<bar> * \<bar>q\<bar>) \<le> e * ((p\<^sup>2 + q\<^sup>2) / 2)"
      using that by (intro mult_mono) auto
    then show ?thesis by (simp add: abs_mult ac_simps)
  qed
  have "\<bar>a * x * a' + b * y * b' + c * z * c'\<bar> \<le>
      e * ((a\<^sup>2 + a'\<^sup>2) / 2) + e * ((b\<^sup>2 + b'\<^sup>2) / 2) + e * ((c\<^sup>2 + c'\<^sup>2) / 2)"
    using part[OF assms(3), of a a'] part[OF assms(4), of b b'] part[OF assms(5), of c c'] by linarith
  also have "\<dots> = e * (((a\<^sup>2 + b\<^sup>2 + c\<^sup>2) + (a'\<^sup>2 + b'\<^sup>2 + c'\<^sup>2)) / 2)" by (simp add: field_simps)
  also have "\<dots> = e" using assms(1,2) by simp
  finally show ?thesis .
qed

lemma svd_bound:
  assumes "orth u" "orth v" "\<bar>x\<bar> \<le> e" "\<bar>y\<bar> \<le> e" "\<bar>z\<bar> \<le> e" "k < 9"
  shows "\<bar>svd u x y z v ! k\<bar> \<le> e"
proof -
  have "\<exists>i j. i < 3 \<and> j < 3 \<and> k = i * 3 + j" using assms(6) by presburger
  then obtain i j where ij: "i < 3" "j < 3" "k = i * 3 + j" by blast
  then have "i \<in> {0, 1, 2}" "j \<in> {0, 1, 2}" by auto
  then have "svd u x y z v ! k =
      u ! (3 * i) * x * v ! (3 * j) + u ! (3 * i + 1) * y * v ! (3 * j + 1) + u ! (3 * i + 2) * z * v ! (3 * j + 2)"
    using ij(3) by (auto simp: svd_entries[OF orth_length[OF assms(1)] orth_length[OF assms(2)]])
  then show ?thesis
    using weighted_row_bound[OF orth_rows[OF assms(1) ij(1)] orth_rows[OF assms(2) ij(2)] assms(3-5)] by simp
qed

subsection \<open>The Newton-Schulz step on singular values\<close>

definition ns_scalar :: "real \<Rightarrow> real" where
  "ns_scalar x = x * (3 - x * x) / 2"

lemma ns_step_mul:
  "ns_step exact r = map (\<lambda>e. 1 / 2 * e) (sinew_mul9 exact r
     [(if k mod 4 = 0 then 3 else 0) - gram9 exact r ! k. k \<leftarrow> [0..<9]])"
  by (simp add: ns_step_def Let_def sinew_mul9_def)

lemma ns_step_svd:
  assumes "orth u" "orth v"
  shows "ns_step exact (svd u x y z v) = svd u (ns_scalar x) (ns_scalar y) (ns_scalar z) v"
proof -
  note l = orth_length[OF assms(1)] orth_length[OF assms(2)]
  have i3: "svd v 3 3 3 v ! k = (if k mod 4 = 0 then 3 else 0)" if "k < 9" for k
  proof -
    have "svd v 3 3 3 v = map (\<lambda>e. 3 * e) (identity9 exact)"
      using svd_map[OF l(2) l(2), of 3 1 1 1] svd_identity[OF assms(2)] by simp
    moreover have "k \<in> {0, 1, 2, 3, 4, 5, 6, 7, 8}" using that by auto
    ultimately show ?thesis by (auto simp: identity9_def)
  qed
  have "[(if k mod 4 = 0 then 3 else 0) - gram9 exact (svd u x y z v) ! k. k \<leftarrow> [0..<9]] =
      svd v (3 - x * x) (3 - y * y) (3 - z * z) v"
    using i3 svd_diff[OF l(2) l(2), of _ 3 3 3]
    by (intro nth_equalityI) (simp_all add: svd_gram[OF assms] del: upt9)
  then have "ns_step exact (svd u x y z v) =
      map (\<lambda>e. 1 / 2 * e) (svd u (x * (3 - x * x)) (y * (3 - y * y)) (z * (3 - z * z)) v)"
    by (simp only: ns_step_mul svd_product[OF l(1) assms(2)])
  then show ?thesis unfolding svd_map[OF l] by (simp add: ns_scalar_def)
qed

lemma ns_iterate_svd:
  assumes "orth u" "orth v"
  shows "(ns_step exact ^^ n) (svd u x y z v) =
    svd u ((ns_scalar ^^ n) x) ((ns_scalar ^^ n) y) ((ns_scalar ^^ n) z) v"
  by (induction n) (simp_all add: ns_step_svd[OF assms])

subsection \<open>Convergence of the singular values\<close>

lemma ns_scalar_le_1: "0 \<le> x \<Longrightarrow> ns_scalar x \<le> 1"
proof -
  assume "0 \<le> x"
  then have "0 \<le> (x - 1)\<^sup>2 * (x + 2) / 2" by simp
  also have "\<dots> = 1 - ns_scalar x" by (simp add: ns_scalar_def power2_eq_square field_simps)
  finally show ?thesis by simp
qed

lemma ns_scalar_grows: "0 \<le> x \<Longrightarrow> x \<le> 1 \<Longrightarrow> x \<le> ns_scalar x"
proof -
  assume x: "0 \<le> x" "x \<le> 1"
  then have "x * x \<le> 1 * 1" by (intro mult_mono) auto
  then have "0 \<le> x * (1 - x * x) / 2" using x by simp
  also have "\<dots> = ns_scalar x - x" by (simp add: ns_scalar_def field_simps)
  finally show ?thesis by simp
qed

lemma ns_scalar_mono: "0 \<le> x \<Longrightarrow> x \<le> y \<Longrightarrow> y \<le> 1 \<Longrightarrow> ns_scalar x \<le> ns_scalar y"
proof -
  assume x: "0 \<le> x" "x \<le> y" "y \<le> 1"
  then have "x * x \<le> 1 * 1" "x * y \<le> 1 * 1" "y * y \<le> 1 * 1" by (intro mult_mono; simp)+
  then have "0 \<le> (y - x) * (3 - (x * x + x * y + y * y)) / 2" using x by (intro divide_nonneg_pos mult_nonneg_nonneg) auto
  also have "\<dots> = ns_scalar y - ns_scalar x" by (simp add: ns_scalar_def field_simps)
  finally show ?thesis by simp
qed

lemma ns_scalar_rate: "0 \<le> x \<Longrightarrow> x \<le> 1 / 2 \<Longrightarrow> 11 / 8 * x \<le> ns_scalar x"
proof -
  assume x: "0 \<le> x" "x \<le> 1 / 2"
  then have "x * x \<le> 1 / 2 * (1 / 2)" by (intro mult_mono) auto
  then have "0 \<le> x * (1 / 4 - x * x) / 2" using x by simp
  also have "\<dots> = ns_scalar x - 11 / 8 * x" by (simp add: ns_scalar_def field_simps)
  finally show ?thesis by simp
qed

lemma ns_iterate_unit:
  assumes "0 \<le> x" "x \<le> 1"
  shows "x \<le> (ns_scalar ^^ n) x \<and> (ns_scalar ^^ n) x \<le> 1"
proof (induction n)
  case (Suc n)
  then have "0 \<le> (ns_scalar ^^ n) x" using assms(1) by linarith
  then show ?case using Suc ns_scalar_grows ns_scalar_le_1 by fastforce
qed (use assms in simp)

lemma ns_iterate_rate:
  assumes "0 \<le> x" "x \<le> 1"
  shows "min (1 / 2) ((11 / 8) ^ n * x) \<le> (ns_scalar ^^ n) x"
proof (induction n)
  case (Suc n)
  let ?y = "(ns_scalar ^^ n) x"
  have y: "0 \<le> ?y" "?y \<le> 1" using ns_iterate_unit[OF assms, of n] assms(1) by linarith+
  show ?case
  proof (cases "?y \<le> 1 / 2")
    case True
    have "min (1 / 2) ((11 / 8) ^ Suc n * x) \<le> 11 / 8 * min (1 / 2) ((11 / 8) ^ n * x)"
      using assms(1) by (simp add: min_def)
    also have "\<dots> \<le> ns_scalar ?y" using ns_scalar_rate[OF y(1) True] Suc by linarith
    finally show ?thesis by simp
  next
    case False
    then show ?thesis using ns_scalar_grows[OF y] by simp
  qed
qed (simp add: min_def)

lemma ns_last_four:
  assumes "1 / 2 \<le> x" "x \<le> 1"
  shows "999 / 1000 \<le> (ns_scalar ^^ 4) x"
proof -
  have step: "c \<le> ns_scalar y \<and> ns_scalar y \<le> 1" if "b \<le> y" "y \<le> 1" "0 \<le> b" "c \<le> ns_scalar b" for b c y
    using that ns_scalar_mono[of b y] ns_scalar_le_1[of y] by linarith
  have 1: "11 / 16 \<le> ns_scalar x \<and> ns_scalar x \<le> 1"
    using assms by (intro step[of "1 / 2"]) (simp_all add: ns_scalar_def)
  have 2: "868 / 1000 \<le> ns_scalar (ns_scalar x) \<and> ns_scalar (ns_scalar x) \<le> 1"
    using 1 by (intro step[of "11 / 16"]) (simp_all add: ns_scalar_def)
  have 3: "975 / 1000 \<le> ns_scalar (ns_scalar (ns_scalar x)) \<and> ns_scalar (ns_scalar (ns_scalar x)) \<le> 1"
    using 2 by (intro step[of "868 / 1000"]) (simp_all add: ns_scalar_def)
  have 4: "999 / 1000 \<le> ns_scalar (ns_scalar (ns_scalar (ns_scalar x))) \<and>
      ns_scalar (ns_scalar (ns_scalar (ns_scalar x))) \<le> 1"
    using 3 by (intro step[of "975 / 1000"]) (simp_all add: ns_scalar_def)
  then show ?thesis by (simp add: numeral_eq_Suc)
qed

text \<open>Thirty steps: the first brings every value into the unit interval, twenty-five bring it above
  one half, four more to within a thousandth of 1.\<close>

lemma ns_thirty:
  assumes "1 / 50 \<le> x" "x * x \<le> 3 - 2 * (1 / 50 * (1 / 50))"
  shows "999 / 1000 \<le> (ns_scalar ^^ 30) x" "(ns_scalar ^^ 30) x \<le> 1"
proof -
  let ?y = "ns_scalar x"
  have y: "1 / 2500 \<le> ?y" "?y \<le> 1"
  proof -
    show "?y \<le> 1" using assms(1) by (intro ns_scalar_le_1) simp
    show "1 / 2500 \<le> ?y"
    proof (cases "x \<le> 1")
      case True
      then show ?thesis using ns_scalar_grows[of x] assms(1) by simp
    next
      case False
      then have "1 * (1 / 1250) \<le> x * (3 - x * x)" using assms(2) by (intro mult_mono) auto
      then show ?thesis by (simp add: ns_scalar_def)
    qed
  qed
  let ?z = "(ns_scalar ^^ 25) ?y"
  have "(1250 :: real) \<le> (11 / 8) ^ 25" by (simp add: power_divide)
  then have "1250 * (1 / 2500) \<le> (11 / 8) ^ 25 * ?y" using y(1) by (intro mult_mono) auto
  then have z: "1 / 2 \<le> ?z" "?z \<le> 1"
    using ns_iterate_rate[of ?y 25] ns_iterate_unit[of ?y 25] y by simp_all
  have "(ns_scalar ^^ 30) x = (ns_scalar ^^ 4) ?z"
    using funpow_add[of 4 26 ns_scalar] funpow_add[of 25 1 ns_scalar] by (simp add: comp_def)
  then show "999 / 1000 \<le> (ns_scalar ^^ 30) x" "(ns_scalar ^^ 30) x \<le> 1"
    using ns_last_four[OF z] ns_iterate_unit[of ?z 4] z by simp_all
qed

subsection \<open>The scaled matrix\<close>

lemma row_abs_sum_eq: "row_abs_sum exact h r = \<bar>h ! (r * 3)\<bar> + \<bar>h ! (r * 3 + 1)\<bar> + \<bar>h ! (r * 3 + 2)\<bar>"
  by (simp add: row_abs_sum_def)

lemma max_row_sum_ge: "r < 3 \<Longrightarrow> row_abs_sum exact h r \<le> max_row_sum exact h" "0 \<le> max_row_sum exact h"
proof -
  show "0 \<le> max_row_sum exact h" by (simp add: max_row_sum_def le_max_iff_disj)
  assume "r < 3"
  then have "r \<in> {0, 1, 2}" by auto
  then show "row_abs_sum exact h r \<le> max_row_sum exact h"
    by (auto simp: max_row_sum_def le_max_iff_disj)
qed

lemma row_squares:
  fixes a b c :: real
  assumes "\<bar>a\<bar> + \<bar>b\<bar> + \<bar>c\<bar> \<le> m"
  shows "a\<^sup>2 + b\<^sup>2 + c\<^sup>2 \<le> m\<^sup>2"
proof -
  have "a\<^sup>2 + b\<^sup>2 + c\<^sup>2 \<le> (\<bar>a\<bar> + \<bar>b\<bar> + \<bar>c\<bar>)\<^sup>2"
    by (simp add: power2_sum algebra_simps abs_mult[symmetric])
  also have "\<dots> \<le> m\<^sup>2" using assms by (intro power_mono) auto
  finally show ?thesis .
qed

lemma frob_max_row_sum:
  assumes "length h = 9"
  shows "frob h h \<le> 3 * (max_row_sum exact h)\<^sup>2"
proof -
  obtain a b c d e f g i j where h: "h = [a, b, c, d, e, f, g, i, j]" using assms by (rule list9E)
  note m = max_row_sum_ge(1)[of _ h, unfolded row_abs_sum_eq]
  have "a\<^sup>2 + b\<^sup>2 + c\<^sup>2 \<le> (max_row_sum exact h)\<^sup>2" "d\<^sup>2 + e\<^sup>2 + f\<^sup>2 \<le> (max_row_sum exact h)\<^sup>2"
    "g\<^sup>2 + i\<^sup>2 + j\<^sup>2 \<le> (max_row_sum exact h)\<^sup>2"
    using m[of 0] m[of 1] m[of 2] by (intro row_squares; simp add: h)+
  then show ?thesis by (simp add: frob_def sum9 h power2_eq_square)
qed

lemma svd_frob:
  assumes "orth u" "orth v"
  shows "frob (svd u x y z v) (svd u x y z v) = x * x + y * y + z * z"
proof -
  have "frob (svd u x y z v) (svd u x y z v) = tr9 (svd v (x * x) (y * y) (z * z) v)"
    using svd_gram[OF assms, of x y z] by (simp add: frob_trace gram9_eq)
  also have "\<dots> = tr9 (sinew_mul9 exact (gram9 exact v) (diag (x * x) (y * y) (z * z)))"
    using trace_mul[of "sinew_mul9 exact v (diag (x * x) (y * y) (z * z))" "sinew_transpose9 v"] orth_length[OF assms(2)]
    by (simp add: svd_def mul9_assoc gram9_eq)
  also have "\<dots> = x * x + y * y + z * z"
    using assms(2) by (simp add: orth_def trace_diag identity9_def)
  finally show ?thesis .
qed

text \<open>A matrix whose singular values are at least a fiftieth of its largest row sum.\<close>

definition well_conditioned :: "real list \<Rightarrow> real \<Rightarrow> real \<Rightarrow> real \<Rightarrow> bool" where
  "well_conditioned h x y z \<longleftrightarrow>
     (max_row_sum exact h + SINEW_EPS) / 50 \<le> x \<and> (max_row_sum exact h + SINEW_EPS) / 50 \<le> y \<and>
     (max_row_sum exact h + SINEW_EPS) / 50 \<le> z"

lemma scaled_values:
  assumes "orth u" "orth v" "h = svd u x y z v" "well_conditioned h x y z"
  defines "m \<equiv> max_row_sum exact h + SINEW_EPS"
  shows "\<forall>w \<in> {x, y, z}. 1 / 50 \<le> w / m \<and> (w / m) * (w / m) \<le> 3 - 2 * (1 / 50 * (1 / 50))"
proof -
  have m: "0 < m" using max_row_sum_ge(2)[of h] eps_pos by (simp add: m_def)
  have "max_row_sum exact h \<le> m" using eps_pos by (simp add: m_def)
  then have "(max_row_sum exact h)\<^sup>2 \<le> m\<^sup>2" using max_row_sum_ge(2) by (intro power_mono) auto
  then have sq: "x * x + y * y + z * z \<le> 3 * (m * m)"
    using frob_max_row_sum[of h] svd_frob[OF assms(1,2), of x y z] assms(3) by (simp add: power2_eq_square)
  have low: "1 / 50 \<le> w / m" if "w \<in> {x, y, z}" for w
    using that assms(4) m unfolding well_conditioned_def m_def[symmetric] by (auto simp: le_divide_eq)
  have lsq: "1 / 50 * (1 / 50) \<le> (w / m) * (w / m)" if "w \<in> {x, y, z}" for w
    using low[OF that] by (intro mult_mono; linarith)
  have "(x / m) * (x / m) + (y / m) * (y / m) + (z / m) * (z / m) = (x * x + y * y + z * z) / (m * m)"
    by (simp add: add_divide_distrib)
  also have "\<dots> \<le> 3" using sq m by (simp add: divide_le_eq)
  finally have tot: "(x / m) * (x / m) + (y / m) * (y / m) + (z / m) * (z / m) \<le> 3" .
  have l3: "1 / 50 * (1 / 50) \<le> (x / m) * (x / m)" "1 / 50 * (1 / 50) \<le> (y / m) * (y / m)"
    "1 / 50 * (1 / 50) \<le> (z / m) * (z / m)"
    by (rule lsq; simp)+
  have "(x / m) * (x / m) \<le> 3 - 2 * (1 / 50 * (1 / 50))" "(y / m) * (y / m) \<le> 3 - 2 * (1 / 50 * (1 / 50))"
    "(z / m) * (z / m) \<le> 3 - 2 * (1 / 50 * (1 / 50))"
    using tot l3 by linarith+
  then show ?thesis using low by blast
qed

text \<open>The fast path on a well-conditioned matrix of positive orientation: the result is valid and
  within a thousandth of the rotation part of the matrix.\<close>

lemma ns30_rotation_part:
  assumes "orth u" "orth v" "h = svd u x y z v" "well_conditioned h x y z"
    and det: "sinew_det9 exact u * sinew_det9 exact v = 1"
  shows "\<exists>x' y' z'. sinew_ns30 exact h = svd u x' y' z' v \<and>
    (\<forall>w \<in> {x', y', z'}. 999 / 1000 \<le> w \<and> w \<le> 1)"
proof -
  let ?m = "max_row_sum exact h + SINEW_EPS"
  let ?f = "\<lambda>w. (ns_scalar ^^ 30) (w / ?m)"
  note l = orth_length[OF assms(1)] orth_length[OF assms(2)]
  have "[h ! i / ?m. i \<leftarrow> [0..<9]] = map (\<lambda>e. 1 / ?m * e) h"
    using l by (intro nth_equalityI) (simp_all add: assms(3) del: upt9)
  also have "\<dots> = svd u (x / ?m) (y / ?m) (z / ?m) v"
    unfolding assms(3) svd_map[OF l] by simp
  finally have it: "(ns_step exact ^^ 30) [h ! i / ?m. i \<leftarrow> [0..<9]] = svd u (?f x) (?f y) (?f z) v"
    by (simp only: ns_iterate_svd[OF assms(1,2)])
  have b: "999 / 1000 \<le> ?f w \<and> ?f w \<le> 1" if "w \<in> {x, y, z}" for w
    using scaled_values[OF assms(1-4)] that ns_thirty[of "w / ?m"] by blast
  then have "0 \<le> ?f x * ?f y * ?f z" by (intro mult_nonneg_nonneg) fastforce+
  then have "\<not> sinew_det9 exact (svd u (?f x) (?f y) (?f z) v) < 0" using det by (simp add: svd_det[OF l])
  then have "sinew_ns30 exact h = svd u (?f x) (?f y) (?f z) v"
    unfolding sinew_ns30_def Let_def exact_simps it by simp
  then show ?thesis using b by blast
qed

subsection \<open>The matrix of the dispatcher\<close>

text \<open>The covariance with the product of the two normals added, as \<open>sinew_finish_align\<close> has it when
  it comes to the regularisation.\<close>

definition pair_at :: "'d arith \<Rightarrow> nat \<Rightarrow> nat \<Rightarrow> 'd list \<Rightarrow> 'd list" where
  "pair_at A p n xs = (if p < n then chunk (p * 3) 3 xs else replicate 3 (lit A 0))"

definition add_normals :: "'d arith \<Rightarrow> 'd list \<Rightarrow> 'd list \<Rightarrow> 'd list \<Rightarrow> 'd list \<Rightarrow> 'd list \<Rightarrow> 'd list" where
  "add_normals A a0 a1 b0 b1 h =
     (let ns = v3_cross A a0 a1; nd = v3_cross A b0 b1; ln = v3_norm A ns; ld = v3_norm A nd
      in if lt A (lit A (1 / 10 ^ 9)) ln \<and> lt A (lit A (1 / 10 ^ 9)) ld
         then add_outer A (v3_scale A ns (quot A (v3_norm A a0) (add A ln (lit A SINEW_EPS))))
                (v3_scale A nd (quot A (v3_norm A b0) (add A ld (lit A SINEW_EPS)))) h
         else h)"

definition fit_matrix :: "'d arith \<Rightarrow> 'd list \<Rightarrow> 'd list \<Rightarrow> nat \<Rightarrow> 'd list" where
  "fit_matrix A ts ss n =
     add_normals A (pair_at A 0 n ts) (pair_at A 1 n ts) (pair_at A 0 n ss) (pair_at A 1 n ss)
       (covariance A ts ss n)"

lemma align_fit_matrix:
  assumes "3 * n \<le> length ts" "3 * n \<le> length ss" "c_int n \<noteq> 1"
  shows "sinew_align A ts ss n =
    (let h = sinew_regularize A (fit_matrix A ts ss n); r = sinew_ns30 A h
     in Some (if \<not> sinew_valid9 A r then sinew_kabsch A h else r))"
  using assms
  by (simp add: sinew_align_def sinew_finish_align_def fit_matrix_def add_normals_def pair_at_def Let_def)

lemma length_add_normals [simp]: "length (add_normals A a0 a1 b0 b1 h) = length h"
  by (simp add: add_normals_def Let_def)

lemma length_fit_matrix [simp]: "length (fit_matrix A ts ss n) = 9"
  by (simp add: fit_matrix_def)

text \<open>A rotation of the targets rotates the matrix.\<close>

lemma add_outer_rotate:
  assumes "length r = 9" "length h = 9" "length a = 3" "length b = 3"
  shows "add_outer exact (mat_vec r a) b (sinew_mul9 exact r h) = sinew_mul9 exact r (add_outer exact a b h)"
proof -
  obtain r0 r1 r2 r3 r4 r5 r6 r7 r8 where r: "r = [r0, r1, r2, r3, r4, r5, r6, r7, r8]"
    using assms(1) by (rule list9E)
  obtain h0 h1 h2 h3 h4 h5 h6 h7 h8 where h: "h = [h0, h1, h2, h3, h4, h5, h6, h7, h8]"
    using assms(2) by (rule list9E)
  obtain a0 a1 a2 where a: "a = [a0, a1, a2]" using assms(3) by (rule list3E)
  obtain b0 b1 b2 where b: "b = [b0, b1, b2]" using assms(4) by (rule list3E)
  show ?thesis
    by (simp add: r h a b add_outer_def mat_vec_def chunk_def v3_dot_def sinew_mul9_def dot3_def algebra_simps)
qed

lemma covariance_rotate:
  assumes "length r = 9" "3 * n \<le> length ss" "\<forall>p < n. chunk (p * 3) 3 ts = mat_vec r (chunk (p * 3) 3 ss)"
  shows "covariance exact ts ss n = sinew_mul9 exact r (covariance exact ss ss n)"
  using assms(2,3)
proof (induction n)
  case 0
  have "replicate 9 (0 :: real) = [0, 0, 0, 0, 0, 0, 0, 0, 0]" by (simp add: numeral_eq_Suc)
  then show ?case by (simp add: covariance_def sinew_mul9_def dot3_def)
next
  case (Suc n)
  then show ?case using add_outer_rotate[OF assms(1), of "covariance exact ss ss n"] by (simp add: covariance_Suc)
qed

lemma rotation_adj:
  assumes "rotation m"
  shows "adj9 m = sinew_transpose9 m"
proof -
  have m: "orth m" "sinew_det9 exact m = 1" "length m = 9"
    using assms rotation_orth by (simp_all add: rotation_def)
  have "adj9 m = sinew_mul9 exact (sinew_transpose9 m) (sinew_mul9 exact m (adj9 m))"
    using m mul9_assoc[of "sinew_transpose9 m" m "adj9 m"] mul9_identity(2)[of "adj9 m"]
    by (simp add: orth_def gram9_eq adj9_def)
  also have "sinew_mul9 exact m (adj9 m) = identity9 exact"
    using mul9_adj9[OF m(3)] m(2) by (simp add: identity_diag)
  finally show ?thesis using mul9_identity(1)[of "sinew_transpose9 m"] by simp
qed

lemma cross_rotate:
  assumes "rotation r" "length a = 3" "length b = 3"
  shows "v3_cross exact (mat_vec r a) (mat_vec r b) = mat_vec r (v3_cross exact a b)"
proof -
  obtain r0 r1 r2 r3 r4 r5 r6 r7 r8 where r: "r = [r0, r1, r2, r3, r4, r5, r6, r7, r8]"
    using assms(1) list9E unfolding rotation_def by metis
  obtain a0 a1 a2 where a: "a = [a0, a1, a2]" using assms(2) by (rule list3E)
  obtain b0 b1 b2 where b: "b = [b0, b1, b2]" using assms(3) by (rule list3E)
  have "r4 * r8 - r5 * r7 = r0" "r5 * r6 - r3 * r8 = r1" "r3 * r7 - r4 * r6 = r2"
    "r2 * r7 - r1 * r8 = r3" "r0 * r8 - r2 * r6 = r4" "r1 * r6 - r0 * r7 = r5"
    "r1 * r5 - r2 * r4 = r6" "r2 * r3 - r0 * r5 = r7" "r0 * r4 - r1 * r3 = r8"
    using rotation_adj[OF assms(1)] unfolding r adj9_def sinew_transpose9_def by simp_all
  note cof = this[symmetric]
  have "mat_vec r (v3_cross exact a b) =
      [(r4 * r8 - r5 * r7) * (a1 * b2 - a2 * b1) + (r5 * r6 - r3 * r8) * (a2 * b0 - a0 * b2) +
         (r3 * r7 - r4 * r6) * (a0 * b1 - a1 * b0),
       (r2 * r7 - r1 * r8) * (a1 * b2 - a2 * b1) + (r0 * r8 - r2 * r6) * (a2 * b0 - a0 * b2) +
         (r1 * r6 - r0 * r7) * (a0 * b1 - a1 * b0),
       (r1 * r5 - r2 * r4) * (a1 * b2 - a2 * b1) + (r2 * r3 - r0 * r5) * (a2 * b0 - a0 * b2) +
         (r0 * r4 - r1 * r3) * (a0 * b1 - a1 * b0)]"
    by (simp only: cof[symmetric]) (simp add: r a b mat_vec_def chunk_def v3_cross_def v3_dot_def dot3_def)
  then show ?thesis
    by (simp add: r a b mat_vec_def chunk_def v3_cross_def v3_dot_def dot3_def algebra_simps)
qed

lemma norm_rotate: "rotation r \<Longrightarrow> length v = 3 \<Longrightarrow> v3_norm exact (mat_vec r v) = v3_norm exact v"
  by (simp add: v3_norm_def rotation_norm)

lemma scale_rotate:
  assumes "length r = 9" "length v = 3"
  shows "v3_scale exact (mat_vec r v) c = mat_vec r (v3_scale exact v c)"
proof -
  obtain x y z where v: "v = [x, y, z]" using assms(2) by (rule list3E)
  show ?thesis
    by (rule list9E[OF assms(1)]) (simp add: v mat_vec_def chunk_def v3_scale_def v3_dot_def dot3_def algebra_simps)
qed

lemma length_v3 [simp]: "length (v3_cross A a b) = 3" "length (v3_scale A a c) = 3"
  by (simp_all add: v3_cross_def v3_scale_def)

lemma add_normals_rotate:
  assumes "rotation r" "length h = 9" "length b0 = 3" "length b1 = 3"
  shows "add_normals exact (mat_vec r b0) (mat_vec r b1) b0 b1 (sinew_mul9 exact r h) =
    sinew_mul9 exact r (add_normals exact b0 b1 b0 b1 h)"
proof -
  have l: "length r = 9" using assms(1) by (simp add: rotation_def)
  show ?thesis
    by (simp add: add_normals_def Let_def cross_rotate[OF assms(1,3,4)] norm_rotate[OF assms(1)] assms(3)
        scale_rotate[OF l] add_outer_rotate[OF l assms(2)])
qed

lemma fit_matrix_rotate:
  assumes "rotation r" "3 * n \<le> length ss" "\<forall>p < n. chunk (p * 3) 3 ts = mat_vec r (chunk (p * 3) 3 ss)"
  shows "fit_matrix exact ts ss n = sinew_mul9 exact r (fit_matrix exact ss ss n)"
proof -
  have "mat_vec r [0, 0, 0] = [0, 0, 0]" by (simp add: mat_vec_def v3_dot_def dot3_def)
  then have "pair_at exact p n ts = mat_vec r (pair_at exact p n ss)" "length (pair_at exact p n ss) = 3" for p
    using assms(2,3) by (simp_all add: pair_at_def numeral_3_eq_3)
  then show ?thesis
    using covariance_rotate[OF _ assms(2,3)] add_normals_rotate[OF assms(1)] assms(1)
    by (simp add: fit_matrix_def rotation_def)
qed

subsection \<open>The fit of rotated sources\<close>

text \<open>The regularisation leaves a well-conditioned matrix alone.\<close>

lemma regularize_keeps:
  assumes "length h = 9" "well_conditioned h x y z" "\<bar>sinew_det9 exact h\<bar> = x * y * z"
  shows "sinew_regularize exact h = h"
proof -
  let ?m = "max_row_sum exact h + SINEW_EPS"
  define s where "s = (if max_row_sum exact h < SINEW_EPS then SINEW_EPS else max_row_sum exact h)"
  have s: "0 < s" "s \<le> ?m" using max_row_sum_ge(2)[of h] eps_pos by (auto simp: s_def)
  have "s * s * s \<le> ?m * ?m * ?m" using s by (intro mult_mono) auto
  moreover have "?m / 50 * (?m / 50) * (?m / 50) \<le> x * y * z"
    using s assms(2) unfolding well_conditioned_def by (intro mult_mono) auto
  moreover have "0 < s * s * s" using s by simp
  ultimately have "1 / 10 ^ 6 * (s * s * s) \<le> x * y * z" by simp
  then have "1 / 10 ^ 6 \<le> \<bar>sinew_det9 exact h\<bar> / (s * s * s)"
    using s by (subst pos_le_divide_eq) (simp_all add: assms(3))
  then have "max 0 (min 1 ((1 / 10 ^ 6 - \<bar>sinew_det9 exact h\<bar> / (s * s * s)) / (1 / 10 ^ 6))) = 0"
    by (simp add: max_def min_def)
  then show ?thesis
    unfolding sinew_regularize_def Let_def exact_simps s_def[symmetric] by simp
qed

text \<open>A matrix whose singular values are near 1 passes the validity test and is near its rotation.\<close>

lemma near_rotation:
  assumes "orth u" "orth v" and det: "sinew_det9 exact u * sinew_det9 exact v = 1"
    and "\<forall>w \<in> {x, y, z}. 999 / 1000 \<le> w \<and> w \<le> 1"
  shows "sinew_valid9 exact (svd u x y z v)"
    and "\<forall>k < 9. \<bar>svd u x y z v ! k - svd u 1 1 1 v ! k\<bar> \<le> 1 / 1000"
proof -
  note l = orth_length[OF assms(1)] orth_length[OF assms(2)]
  have b: "999 / 1000 \<le> x" "x \<le> 1" "999 / 1000 \<le> y" "y \<le> 1" "999 / 1000 \<le> z" "z \<le> 1"
    using assms(4) by simp_all
  have sq: "\<bar>w * w - 1\<bar> \<le> 1 / 100" if "999 / 1000 \<le> w" "w \<le> 1" for w :: real
  proof -
    have "999 / 1000 * (999 / 1000) \<le> w * w" "w * w \<le> 1 * 1" using that by (intro mult_mono; simp)+
    then show ?thesis by simp
  qed
  have "999 / 1000 * (999 / 1000) * (999 / 1000) \<le> x * y * z" "x * y * z \<le> 1 * 1 * 1"
    using b by (intro mult_mono; simp)+
  then have "\<bar>sinew_det9 exact (svd u x y z v) - 1\<bar> \<le> 1 / 100" by (simp add: svd_det[OF l] det)
  moreover have "\<bar>gram9 exact (svd u x y z v) ! k - identity9 exact ! k\<bar> \<le> 1 / 100" if "k < 9" for k
    using svd_bound[OF assms(2,2) sq sq sq that] svd_diff[OF l(2,2) that] b
    by (simp add: svd_gram[OF assms(1,2)] svd_identity[OF assms(2), symmetric])
  ultimately show "sinew_valid9 exact (svd u x y z v)" by (simp add: valid9_eq)
  show "\<forall>k < 9. \<bar>svd u x y z v ! k - svd u 1 1 1 v ! k\<bar> \<le> 1 / 1000"
    using b by (intro allI impI, simp only: svd_diff[OF l]) (intro svd_bound[OF assms(1,2)]; linarith)
qed

text \<open>C10: in exact arithmetic the whole dispatcher recovers a rotation from exact data. When the
  targets are the sources turned by a rotation matrix R, for any number of pairs other than one,
  and the sources span the space well enough (the eigenvalues of the matrix \<open>sinew_align\<close> builds
  from the sources alone are at least a fiftieth of the largest row sum of the matrix it builds
  from the pairs, plus the guard 1e-8), then the regularisation leaves the matrix alone, the
  thirty Newton-Schulz steps converge, the validity test accepts their result, and
  \<open>sinew_align\<close> returns R to within a thousandth in every entry.\<close>

theorem align_recovers:
  assumes "rotation R" "3 * n \<le> length ts" "3 * n \<le> length ss" "c_int n \<noteq> 1"
    and "\<forall>p < n. chunk (p * 3) 3 ts = mat_vec R (chunk (p * 3) 3 ss)"
    and "orth V" "fit_matrix exact ss ss n = svd V d0 d1 d2 V"
    and "well_conditioned (fit_matrix exact ts ss n) d0 d1 d2"
  shows "\<exists>r. sinew_align exact ts ss n = Some r \<and> sinew_valid9 exact r \<and> (\<forall>k < 9. \<bar>r ! k - R ! k\<bar> \<le> 1 / 1000)"
proof -
  let ?h = "fit_matrix exact ts ss n" and ?u = "sinew_mul9 exact R V"
  note l = orth_length[OF assms(6)] orth_length[OF rotation_orth[OF assms(1)]]
  have u: "orth ?u" using rotation_orth[OF assms(1)] assms(6) by (rule orth_mul)
  have h: "?h = svd ?u d0 d1 d2 V"
    using fit_matrix_rotate[OF assms(1,3,5)] l by (simp add: assms(7)) (simp add: svd_def mul9_assoc)
  have det: "sinew_det9 exact ?u * sinew_det9 exact V = 1"
    using assms(1) orth_det[OF assms(6)] l by (simp add: det9_mul9 rotation_def)
  have "0 \<le> d0" "0 \<le> d1" "0 \<le> d2"
    using assms(8) max_row_sum_ge(2)[of ?h] eps_pos by (auto simp: well_conditioned_def)
  then have "\<bar>sinew_det9 exact ?h\<bar> = d0 * d1 * d2" using det l by (simp add: h svd_det)
  then have reg: "sinew_regularize exact ?h = ?h" by (intro regularize_keeps[OF _ assms(8)]) simp_all
  obtain x y z where r: "sinew_ns30 exact ?h = svd ?u x y z V"
    and b: "\<forall>w \<in> {x, y, z}. 999 / 1000 \<le> w \<and> w \<le> 1"
    using ns30_rotation_part[OF u assms(6) h assms(8) det] by blast
  note near = near_rotation[OF u assms(6) det b]
  have "svd ?u 1 1 1 V = sinew_mul9 exact R (svd V 1 1 1 V)" using l by (simp add: svd_def mul9_assoc)
  then have "svd ?u 1 1 1 V = R" using svd_identity[OF assms(6)] mul9_identity(1)[OF l(2)] by simp
  then show ?thesis using near by (simp add: align_fit_matrix[OF assms(2-4)] reg r)
qed

text \<open>The three axes.\<close>

abbreviation axes :: "real list" where
  "axes \<equiv> [1, 0, 0, 0, 1, 0, 0, 0, 1]"

definition axes_weight :: real where
  "axes_weight = 1 + 1 / (1 + SINEW_EPS) * (1 / (1 + SINEW_EPS))"

lemma axes_weight_bounds: "1 \<le> axes_weight" "axes_weight \<le> 2"
proof -
  have "0 \<le> 1 / (1 + SINEW_EPS)" "1 / (1 + SINEW_EPS) \<le> 1" using eps_pos by simp_all
  then show "1 \<le> axes_weight" "axes_weight \<le> 2"
    using mult_mono[of "1 / (1 + SINEW_EPS)" 1 "1 / (1 + SINEW_EPS)" 1] by (simp_all add: axes_weight_def)
qed

lemma axes_fit: "fit_matrix exact axes axes 3 = diag 1 1 axes_weight" "orth axes"
  "diag 1 1 axes_weight = svd axes 1 1 axes_weight axes"
proof -
  have z: "replicate 9 (0 :: real) = [0, 0, 0, 0, 0, 0, 0, 0, 0]" by (simp add: numeral_eq_Suc)
  show "fit_matrix exact axes axes 3 = diag 1 1 axes_weight"
    by (simp add: fit_matrix_def add_normals_def pair_at_def chunk_def covariance_def z add_outer_def
        v3_cross_def v3_norm_def v3_scale_def v3_dot_def dot3_def diag_def axes_weight_def)
qed (simp_all add: orth_def mat_defs identity9_def svd_def diag_def)

text \<open>The three axes turned by a quarter about the third.\<close>

theorem align_recovers_witness:
  "\<exists>r. sinew_align exact [0, 1, 0, - 1, 0, 0, 0, 0, 1] [1, 0, 0, 0, 1, 0, 0, 0, 1] 3 = Some r \<and>
     sinew_valid9 exact r \<and> \<bar>r ! 1 + 1\<bar> \<le> 1 / 1000 \<and> \<bar>r ! 8 - 1\<bar> \<le> 1 / 1000"
proof -
  let ?R = "[0, - 1, 0, 1, 0, 0, 0, 0, 1] :: real list" and ?t = "[0, 1, 0, - 1, 0, 0, 0, 0, 1] :: real list"
  have R: "rotation ?R" by (simp add: rotation_def mat_defs identity9_def)
  have c: "c_int 3 \<noteq> 1" by (simp add: c_int_def)
  have t: "\<forall>p < 3. chunk (p * 3) 3 ?t = mat_vec ?R (chunk (p * 3) 3 axes)"
    by (auto simp: less_Suc_eq numeral_3_eq_3 chunk_def mat_vec_def v3_dot_def dot3_def)
  have f: "fit_matrix exact axes axes 3 = svd axes 1 1 axes_weight axes" using axes_fit(1,3) by simp
  have "sinew_mul9 exact ?R (diag 1 1 axes_weight) = [0, - 1, 0, 1, 0, 0, 0, 0, axes_weight]"
    by (simp add: mat_defs diag_def)
  then have h: "fit_matrix exact ?t axes 3 = [0, - 1, 0, 1, 0, 0, 0, 0, axes_weight]"
    using fit_matrix_rotate[OF R _ t] axes_fit(1) by simp
  have w: "well_conditioned (fit_matrix exact ?t axes 3) 1 1 axes_weight"
    using axes_weight_bounds unfolding well_conditioned_def h max_row_sum_def row_abs_sum_def
    by (simp add: SINEW_EPS_def)
  obtain r where r: "sinew_align exact ?t axes 3 = Some r" "sinew_valid9 exact r"
    and k: "\<forall>k < 9. \<bar>r ! k - ?R ! k\<bar> \<le> 1 / 1000"
    using align_recovers[OF R _ _ c t axes_fit(2) f w] by auto
  show ?thesis using r k[rule_format, of 1] k[rule_format, of 8] by simp
qed

end
