(* ===== verification/Sinew_Valid.thy ===== *)
theory Sinew_Valid
  imports Sinew_Fit
begin

text \<open>
  The fallback when the Jacobi sweeps end by their own threshold, not exactly: the matrix it
  returns passes the validity test, so that every result of the dispatcher does.
\<close>

subsection \<open>The left factor\<close>

lemma permute_entries:
  assumes "ord \<in> perms3" "length d = 9" "i < 3" "j < 3"
  shows "sinew_mul9 exact (sinew_transpose9 (perm_matrix ord)) (sinew_mul9 exact d (perm_matrix ord)) ! (3 * i + j) =
    d ! (3 * (ord ! i) + ord ! j)"
proof -
  obtain a b c d' e f g h k where d: "d = [a, b, c, d', e, f, g, h, k]" using assms(2) by (rule list9E)
  have "i \<in> {0, 1, 2}" "j \<in> {0, 1, 2}" using assms(3,4) by auto
  then show ?thesis
    using assms(1) unfolding perms3_def
    by (elim insertE emptyE; simp add: d perm_matrix_def sinew_mul9_def sinew_transpose9_def dot3_def)
qed

lemma gram_symmetric:
  assumes "length m = 9" "g = gram9 exact m"
  shows "g = [g ! 0, g ! 1, g ! 2, g ! 1, g ! 4, g ! 5, g ! 2, g ! 5, g ! 8]"
  unfolding assms(2) by (rule list9E[OF assms(1)]) (simp add: gram9_def dot3_def mult.commute)

lemma diag_sandwich:
  assumes "length g = 9"
  shows "sinew_mul9 exact (diag x y z) (sinew_mul9 exact g (diag x y z)) =
    [x * x * g ! 0, x * y * g ! 1, x * z * g ! 2, y * x * g ! 3, y * y * g ! 4, y * z * g ! 5,
     z * x * g ! 6, z * y * g ! 7, z * z * g ! 8]"
  by (rule list9E[OF assms]) (simp add: diag_def sinew_mul9_def dot3_def)

text \<open>The sweeps ended below the threshold, and the squares of the singular values are well above it.\<close>

definition swept :: "real list \<Rightarrow> real list \<Rightarrow> real list \<Rightarrow> bool" where
  "swept m w v \<longleftrightarrow>
     (let d = sinew_mul9 exact (sinew_transpose9 v) (sinew_mul9 exact m v)
      in \<bar>d ! 1\<bar> + \<bar>d ! 2\<bar> + \<bar>d ! 5\<bar> < 1 / 10 ^ 20) \<and> (\<forall>c < 3. 1 / 10 ^ 17 \<le> w ! c)"

lemma swept_pos:
  assumes "swept m w v"
  shows "\<forall>c < 3. 1 / 10 ^ 12 < sqrt (w ! c)"
proof (intro allI impI)
  fix c :: nat assume "c < 3"
  then have "1 / 10 ^ 17 \<le> w ! c" using assms by (simp add: swept_def)
  then show "1 / 10 ^ 12 < sqrt (w ! c)" by (intro real_less_rsqrt) (simp add: power_divide)
qed

lemma sing_large:
  assumes "swept m w v" "i < 3" "k < 3"
  shows "1 / 10 ^ 17 \<le> sing w i * sing w k"
proof -
  have "sqrt (1 / 10 ^ 17) \<le> sing w c" if "c < 3" for c
    using assms(1) perms3_less[OF sort_desc_perm that, of exact w]
    unfolding sing_def swept_def by (intro real_sqrt_le_mono) simp
  then have "sqrt (1 / 10 ^ 17) * sqrt (1 / 10 ^ 17) \<le> sing w i * sing w k"
    using assms(2,3) sing_facts(4)[OF swept_pos[OF assms(1)]] by (intro mult_mono) (auto intro: less_imp_le)
  then show ?thesis by simp
qed

lemma left9_gram_entry:
  assumes h: "length h = 9" and j: "sinew_jacobi9 exact (gram9 exact h) = (w, vc)" and "i < 3" "k < 3"
  shows "gram9 exact (left9 h w vc) ! (3 * i + k) = 1 / sing w i * (1 / sing w k) *
    sinew_mul9 exact (sinew_transpose9 vc) (sinew_mul9 exact (gram9 exact h) vc) !
      (3 * (sort_desc exact w ! i) + sort_desc exact w ! k)"
proof -
  let ?M = "sinew_mul9 exact" and ?t = sinew_transpose9 and ?v = "right9 w vc"
  let ?I = "diag (1 / sing w 0) (1 / sing w 1) (1 / sing w 2)"
  let ?g = "?M (?t ?v) (?M (gram9 exact h) ?v)"
  have vc: "length vc = 9" using jacobi9_inv(1)[OF _ j] by (simp add: rotation_def)
  have lv: "length ?v = 9" using right9_orth[OF _ j] orth_length by simp
  have eq: "gram9 exact (left9 h w vc) = ?M ?I (?M ?g ?I)"
    using h lv by (simp add: left9_def gram9_eq transpose9_mul9 mul9_assoc)
  have "i \<in> {0, 1, 2}" "k \<in> {0, 1, 2}" using assms(3,4) by auto
  then have "gram9 exact (left9 h w vc) ! (3 * i + k) = 1 / sing w i * (1 / sing w k) * ?g ! (3 * i + k)"
    unfolding eq diag_sandwich[OF length9(1)] by (elim insertE emptyE; simp add: numeral_2_eq_2)
  then show ?thesis
    using permute_entries[OF sort_desc_perm _ assms(3,4), of "?M (?t vc) (?M (gram9 exact h) vc)" exact w]
    by (simp add: right9_gram vc)
qed

lemma left9_gram:
  assumes h: "length h = 9" and j: "sinew_jacobi9 exact (gram9 exact h) = (w, vc)" and sw: "swept (gram9 exact h) w vc"
  obtains a b c where "gram9 exact (left9 h w vc) = [1, a, b, a, 1, c, b, c, 1]"
    "\<bar>a\<bar> \<le> 1 / 1000" "\<bar>b\<bar> \<le> 1 / 1000" "\<bar>c\<bar> \<le> 1 / 1000"
proof -
  let ?u = "left9 h w vc" and ?ord = "sort_desc exact w"
  define d where "d = sinew_mul9 exact (sinew_transpose9 vc) (sinew_mul9 exact (gram9 exact h) vc)"
  have vc: "length vc = 9" using jacobi9_inv(1)[OF _ j] by (simp add: rotation_def)
  have "d = gram9 exact (sinew_mul9 exact h vc)"
    using h vc by (simp add: d_def gram9_eq transpose9_mul9 mul9_assoc)
  from gram_symmetric[OF _ this] have dl: "d = [d ! 0, d ! 1, d ! 2, d ! 1, d ! 4, d ! 5, d ! 2, d ! 5, d ! 8]" by simp
  have sym: "d ! 3 = d ! 1" "d ! 6 = d ! 2" "d ! 7 = d ! 5" by (subst dl, simp)+
  have off: "\<bar>d ! 1\<bar> \<le> 1 / 10 ^ 20" "\<bar>d ! 2\<bar> \<le> 1 / 10 ^ 20" "\<bar>d ! 5\<bar> \<le> 1 / 10 ^ 20"
    using sw unfolding swept_def d_def[symmetric] Let_def by linarith+
  note s = sing_facts[OF swept_pos[OF sw]]
  note entry = left9_gram_entry[OF h j, folded d_def]
  have wd: "w = [d ! 0, d ! 4, d ! 8]" using jacobi9_inv(2)[OF _ j d_def] by simp
  have one: "gram9 exact ?u ! (3 * i + i) = 1" if "i < 3" for i
  proof -
    have "?ord ! i \<in> {0, 1, 2}" using perms3_less[OF sort_desc_perm that, of exact w] by auto
    then have "d ! (3 * (?ord ! i) + ?ord ! i) = w ! (?ord ! i)" using wd by auto
    then show ?thesis using entry[OF that that] s(2,4)[OF that] by auto
  qed
  have small: "\<bar>gram9 exact ?u ! (3 * i + k)\<bar> \<le> 1 / 1000" if "i < 3" "k < 3" "i \<noteq> k" for i k
  proof -
    have "?ord ! i < 3" "?ord ! k < 3" "?ord ! i \<noteq> ?ord ! k"
      using that sort_desc_perm[of exact w] by (auto simp: perms3_def less_Suc_eq numeral_3_eq_3)
    then have "?ord ! i \<in> {0, 1, 2}" "?ord ! k \<in> {0, 1, 2}" "?ord ! i \<noteq> ?ord ! k" by auto
    then have "\<bar>d ! (3 * (?ord ! i) + ?ord ! k)\<bar> \<le> 1 / 10 ^ 20"
      using off sym by (elim insertE emptyE; simp add: numeral_2_eq_2)
    moreover have "1 / 10 ^ 17 \<le> sing w i * sing w k" using sing_large[OF sw] that by blast
    ultimately have "\<bar>d ! (3 * (?ord ! i) + ?ord ! k)\<bar> \<le> 1 / 1000 * (sing w i * sing w k)" by simp
    moreover have "0 < sing w i * sing w k" using s(4) that by simp
    ultimately have "\<bar>d ! (3 * (?ord ! i) + ?ord ! k)\<bar> / (sing w i * sing w k) \<le> 1 / 1000"
      by (subst pos_divide_le_eq) simp_all
    then show ?thesis
      using entry[OF that(1,2)] s(4)[OF that(1)] s(4)[OF that(2)] by (simp add: abs_mult)
  qed
  show ?thesis
    by (rule that[of "gram9 exact ?u ! 1" "gram9 exact ?u ! 2" "gram9 exact ?u ! 5"])
      (use gram_symmetric[of ?u] one[of 0] one[of 1] one[of 2] small[of 0 1] small[of 0 2] small[of 1 2]
        in \<open>simp_all add: numeral_2_eq_2\<close>)
qed

subsection \<open>The returned matrix\<close>

lemma mixed_terms:
  fixes a b c a' b' c' :: real
  assumes "a\<^sup>2 + b\<^sup>2 + c\<^sup>2 = 1" "a'\<^sup>2 + b'\<^sup>2 + c'\<^sup>2 = 1"
  shows "\<bar>y * (a * b' + b * a')\<bar> \<le> \<bar>y\<bar>"
proof -
  have "0 \<le> (a - b')\<^sup>2 + (b - a')\<^sup>2 + c\<^sup>2 + c'\<^sup>2" "0 \<le> (a + b')\<^sup>2 + (b + a')\<^sup>2 + c\<^sup>2 + c'\<^sup>2" by simp_all
  then have "\<bar>a * b' + b * a'\<bar> \<le> 1" using assms by (simp add: power2_diff power2_sum)
  then show ?thesis using mult_left_mono[of "\<bar>a * b' + b * a'\<bar>" 1 "\<bar>y\<bar>"] by (simp add: abs_mult)
qed

lemma abs_sum3: "\<bar>x\<bar> \<le> a \<Longrightarrow> \<bar>y\<bar> \<le> b \<Longrightarrow> \<bar>z\<bar> \<le> c \<Longrightarrow> a + b + c \<le> e \<Longrightarrow> \<bar>x + y + z\<bar> \<le> (e :: real)"
  by linarith

lemma near_gram:
  assumes "orth v" "\<bar>a\<bar> + \<bar>b\<bar> + \<bar>c\<bar> \<le> e" "k < 9"
  shows "\<bar>sinew_mul9 exact v (sinew_mul9 exact [1, a, b, a, 1, c, b, c, 1] (sinew_transpose9 v)) ! k -
    identity9 exact ! k\<bar> \<le> e"
proof -
  have "\<exists>i j. i < 3 \<and> j < 3 \<and> k = 3 * i + j" using assms(3) by presburger
  then obtain i j where ij: "i < 3" "j < 3" "k = 3 * i + j" by blast
  define p q where "p n = v ! (3 * i + n)" and "q n = v ! (3 * j + n)" for n
  have u: "(p 0)\<^sup>2 + (p 1)\<^sup>2 + (p 2)\<^sup>2 = 1" "(q 0)\<^sup>2 + (q 1)\<^sup>2 + (q 2)\<^sup>2 = 1"
    using orth_rows[OF assms(1) ij(1)] orth_rows[OF assms(1) ij(2)] by (simp_all add: p_def q_def)
  have m: "\<bar>a * (p 0 * q 1 + p 1 * q 0)\<bar> \<le> \<bar>a\<bar>" "\<bar>b * (p 0 * q 2 + p 2 * q 0)\<bar> \<le> \<bar>b\<bar>"
    "\<bar>c * (p 1 * q 2 + p 2 * q 1)\<bar> \<le> \<bar>c\<bar>"
    by (rule mixed_terms[where c = "p 2" and c' = "q 2"], use u in simp_all)
      (rule mixed_terms[where c = "p 1" and c' = "q 1"] mixed_terms[where c = "p 0" and c' = "q 0"]; use u in simp)+
  obtain v0 v1 v2 v3 v4 v5 v6 v7 v8 where v: "v = [v0, v1, v2, v3, v4, v5, v6, v7, v8]"
    using orth_length[OF assms(1)] by (rule list9E)
  have "i \<in> {0, 1, 2}" "j \<in> {0, 1, 2}" using ij by auto
  then have "sinew_mul9 exact v (sinew_mul9 exact [1, a, b, a, 1, c, b, c, 1] (sinew_transpose9 v)) ! k -
      sinew_mul9 exact v (sinew_transpose9 v) ! k =
      a * (p 0 * q 1 + p 1 * q 0) + b * (p 0 * q 2 + p 2 * q 0) + c * (p 1 * q 2 + p 2 * q 1)"
    unfolding ij(3) p_def q_def
    by (elim insertE emptyE; simp add: v sinew_mul9_def sinew_transpose9_def dot3_def; simp add: algebra_simps)
  moreover have "sinew_mul9 exact v (sinew_transpose9 v) = identity9 exact" using assms(1) by (simp add: orth_def)
  ultimately show ?thesis using abs_sum3[OF m assms(2)] by simp
qed

lemma near_one:
  fixes x :: real
  assumes "0 \<le> x"
  shows "\<bar>x - 1\<bar> \<le> \<bar>x * x - 1\<bar>"
proof -
  have "\<bar>x - 1\<bar> * 1 \<le> \<bar>x - 1\<bar> * (x + 1)" using assms by (intro mult_left_mono) auto
  also have "\<dots> = \<bar>(x - 1) * (x + 1)\<bar>" using assms by (simp add: abs_mult)
  finally show ?thesis by (simp add: algebra_simps)
qed

lemma near_det:
  fixes a b c :: real
  assumes "\<bar>a\<bar> \<le> 1 / 1000" "\<bar>b\<bar> \<le> 1 / 1000" "\<bar>c\<bar> \<le> 1 / 1000"
  shows "\<bar>sinew_det9 exact [1, a, b, a, 1, c, b, c, 1] - 1\<bar> \<le> 1 / 100"
proof -
  have p: "\<bar>x * y\<bar> \<le> 1 / 1000 * (1 / 1000)" if "\<bar>x\<bar> \<le> 1 / 1000" "\<bar>y\<bar> \<le> 1 / 1000" for x y :: real
    using that by (simp only: abs_mult) (intro mult_mono; simp)
  have "\<bar>a * b * c\<bar> \<le> 1 / 1000 * (1 / 1000)" using p[of "a * b" c] p[of a b] assms by simp
  moreover have "sinew_det9 exact [1, a, b, a, 1, c, b, c, 1] = 1 - c * c - a * a - b * b + 2 * (a * b * c)"
    by (simp add: sinew_det9_def algebra_simps)
  ultimately show ?thesis using p[OF assms(1,1)] p[OF assms(2,2)] p[OF assms(3,3)] unfolding abs_le_iff by linarith
qed

lemma kabsch_valid:
  assumes h: "length h = 9" and j: "sinew_jacobi9 exact (gram9 exact h) = (w, vc)" and sw: "swept (gram9 exact h) w vc"
  shows "sinew_valid9 exact (sinew_kabsch exact h)"
proof -
  let ?M = "sinew_mul9 exact" and ?t = sinew_transpose9
  define u v where "u = left9 h w vc" and "v = right9 w vc"
  define sg :: real where "sg = (if sinew_det9 exact (?M u (?t v)) < 0 then - 1 else 1)"
  obtain a b c where g: "gram9 exact u = [1, a, b, a, 1, c, b, c, 1]"
    and s: "\<bar>a\<bar> \<le> 1 / 1000" "\<bar>b\<bar> \<le> 1 / 1000" "\<bar>c\<bar> \<le> 1 / 1000"
    using left9_gram[OF assms] by (auto simp: u_def)
  have v: "orth v" using right9_orth[OF _ j] by (simp add: v_def)
  have l: "length u = 9" "length v = 9" using orth_length[OF v] by (simp_all add: u_def)
  have k: "sinew_kabsch exact h = ?M (?M u (diag 1 1 sg)) (?t v)"
    using kabsch_form[OF h j swept_pos[OF sw]] by (simp add: u_def v_def sg_def)
  have sq: "sg * sg = 1" "\<bar>sg\<bar> = 1" by (simp_all add: sg_def)
  have "gram9 exact (sinew_kabsch exact h) = ?M v (?M (?M (diag 1 1 sg) (?M (gram9 exact u) (diag 1 1 sg))) (?t v))"
    using l by (simp add: k gram9_eq transpose9_mul9 transpose9_transpose9 mul9_assoc)
  also have "?M (diag 1 1 sg) (?M (gram9 exact u) (diag 1 1 sg)) = [1, a, b * sg, a, 1, c * sg, b * sg, c * sg, 1]"
    by (simp add: diag_sandwich g sq mult.commute)
  finally have gk: "gram9 exact (sinew_kabsch exact h) =
      ?M v (?M [1, a, b * sg, a, 1, c * sg, b * sg, c * sg, 1] (?t v))" .
  have "\<bar>a\<bar> + \<bar>b * sg\<bar> + \<bar>c * sg\<bar> \<le> 1 / 100" using s sq(2) by (simp add: abs_mult)
  note gram = near_gram[OF v this, folded gk]
  let ?d = "sinew_det9 exact (sinew_kabsch exact h)"
  have "sinew_det9 exact (?M u (?t v)) = sinew_det9 exact u * sinew_det9 exact v"
    using l by (simp add: det9_mul9 det9_transpose9)
  moreover have dk: "?d = sinew_det9 exact u * sg * sinew_det9 exact v"
    using l by (simp add: k det9_mul9 det9_transpose9 diag_det)
  ultimately have pos: "0 \<le> ?d" by (auto simp: sg_def not_less)
  have "?d * ?d = sinew_det9 exact u * sinew_det9 exact u * (sg * sg) * (sinew_det9 exact v * sinew_det9 exact v)"
    by (simp add: dk)
  also have "\<dots> = sinew_det9 exact (gram9 exact u)"
    using l sq orth_det[OF v] by (simp add: gram9_eq det9_mul9 det9_transpose9)
  finally have "\<bar>?d * ?d - 1\<bar> \<le> 1 / 100" using near_det[OF s] by (simp add: g)
  then have "\<bar>?d - 1\<bar> \<le> 1 / 100" using near_one[OF pos] by linarith
  then show ?thesis using gram by (simp add: valid9_eq)
qed

subsection \<open>Every result of the dispatcher\<close>

lemma rotation_valid: "rotation r \<Longrightarrow> sinew_valid9 exact r"
  by (simp add: valid9_eq rotation_def)

lemma length_regularize [simp]: "length (sinew_regularize A h) = length h"
  by (simp add: sinew_regularize_def Let_def)

text \<open>C11: what the dispatcher hands out, in exact arithmetic. It returns a matrix for every count.
  For one pair whose vectors are not shorter than SINEW_EPS that is a rotation, which also
  passes the validity test. For any other count it is the result of the fast path when that
  passes the test, and the singular value fit when it does not; and the result passes the test
  in both cases if the Jacobi routine on the Gram matrix of the regularised covariance ended by
  its threshold 1e-20 (not necessarily at an exact diagonal) with all three eigenvalues at
  least 1e-17.\<close>

theorem align_valid:
  assumes "3 * n \<le> length ts" "3 * n \<le> length ss" "h = sinew_regularize exact (fit_matrix exact ts ss n)"
    and "sinew_jacobi9 exact (gram9 exact h) = (w, v)"
  shows "\<exists>r. sinew_align exact ts ss n = Some r \<and>
    (c_int n = 1 \<and> SINEW_EPS \<le> v3_norm exact (take 3 ts) \<and> SINEW_EPS \<le> v3_norm exact (take 3 ss) \<longrightarrow>
       rotation r \<and> sinew_valid9 exact r) \<and>
    (c_int n \<noteq> 1 \<longrightarrow>
       r = (if sinew_valid9 exact (sinew_ns30 exact h) then sinew_ns30 exact h else sinew_kabsch exact h)) \<and>
    (c_int n \<noteq> 1 \<and> swept (gram9 exact h) w v \<longrightarrow> sinew_valid9 exact r)"
proof (cases "c_int n = 1")
  case True
  then have n: "0 < n" by (cases n) (simp_all add: c_int_def)
  then have l: "length (take 3 ts) = 3" "length (take 3 ss) = 3" using assms(1,2) by simp_all
  have "sinew_align exact ts ss n = Some (sinew_rodrigues exact (take 3 ts) (take 3 ss))"
    using assms(1,2) True n by (simp add: sinew_align_def sinew_finish_align_def Let_def chunk_def)
  then show ?thesis using rodrigues_turns[OF l] True rotation_valid by simp
next
  case False
  then show ?thesis
    using align_fit_matrix[OF assms(1,2) False, of exact] assms(3,4) kabsch_valid[of h w v] by (auto simp: Let_def)
qed

text \<open>The axes onto themselves.\<close>

theorem align_valid_witness:
  "\<exists>r. sinew_align exact axes axes 3 = Some r \<and> sinew_valid9 exact r \<and>
     (let h = sinew_regularize exact (fit_matrix exact axes axes 3)
      in r = (if sinew_valid9 exact (sinew_ns30 exact h) then sinew_ns30 exact h else sinew_kabsch exact h))"
proof -
  let ?h = "diag 1 1 axes_weight"
  have d: "well_conditioned ?h 1 1 axes_weight" "\<bar>sinew_det9 exact ?h\<bar> = 1 * 1 * axes_weight"
    using axes_weight_bounds unfolding well_conditioned_def diag_def max_row_sum_def row_abs_sum_def sinew_det9_def
    by (simp_all add: SINEW_EPS_def)
  have h: "?h = sinew_regularize exact (fit_matrix exact axes axes 3)"
    using regularize_keeps[OF _ d] by (simp add: axes_fit(1))
  have g: "gram9 exact ?h = diag 1 1 (axes_weight * axes_weight)" by (simp add: gram9_eq diag_mul)
  have j: "sinew_jacobi9 exact (gram9 exact ?h) = ([1, 1, axes_weight * axes_weight], axes)"
    unfolding g using jacobi_loop.simps(2)[of exact 49 "(diag 1 1 (axes_weight * axes_weight), axes)"]
    by (simp add: sinew_jacobi9_def identity9_def diag_def)
  have "1 * 1 \<le> axes_weight * axes_weight" using axes_weight_bounds(1) by (intro mult_mono) auto
  then have "swept (gram9 exact ?h) [1, 1, axes_weight * axes_weight] axes"
    unfolding g swept_def by (auto simp: diag_def mat_defs less_Suc_eq numeral_3_eq_3)
  then show ?thesis
    using align_valid[OF _ _ h j] by (simp add: c_int_def Let_def flip: h)
qed

end
