(* ===== verification/Throughput.thy ===== *)
theory Throughput
  imports Boot Zonetick_Events Sinew
begin

text \<open>
  The throughput tool: \<^verbatim>\<open>tools/zonetick_throughput.c\<close>, a second client of the zone tick,
  which seeds a zone, runs tick after tick against a deadline and reports the count; or
  probes one entity.

  The tool talks to the database client directly when it seeds and probes: a call that
  returns a future is followed by a blocking wait (\<open>await\<close>). The contents of its
  uninitialised stack arrays are arguments. Its numbers of seconds are the doubles of the
  rotation fit's arithmetic parameter. The clock, the answers of the client and the order in
  which futures become ready are arguments: a \<open>turn\<close> of the measuring loop has the answers
  of the run it may start and what arrives while the event loop runs, deliveries of futures and
  changes of the database. The callbacks run on the network thread; the model takes each delivery as one step between two
  steps of the loop, which is the interleaving the polling of \<open>in_flight\<close> is written for.
  The call of \<open>fdb_thread_init\<close> passes an argument more than the function declares; the
  model is of the call with the declared arguments. The text of the messages is not modelled.
\<close>

subsection \<open>The clock\<close>

text \<open>A reading of the monotonic clock, as the seconds and nanoseconds of a
  \<^verbatim>\<open>struct timespec\<close>; the reading itself is an argument.\<close>

type_synonym timespec = "int \<times> int"

definition now_sec :: "'d arith \<Rightarrow> timespec \<Rightarrow> 'd" where
  "now_sec A ts =
     (case ts of (tv_sec, tv_nsec) \<Rightarrow>
        add A (lit A (real_of_int tv_sec)) (quot A (lit A (real_of_int tv_nsec)) (lit A (10 ^ 9))))"

subsection \<open>Seeding\<close>

text \<open>\<^verbatim>\<open>sizeof(zf_entity_val_t)\<close>: 100 bytes of fields, rounded up to the alignment of
  \<^verbatim>\<open>int64_t\<close>.\<close>

definition SIZEOF_ENTITY_VAL :: nat where
  "SIZEOF_ENTITY_VAL = 104"

record direct_env =
  direct_create_error :: fdb_error_t
  direct_env :: fdb_env
  direct_out :: fdb_outcome
  stack_key :: "nat \<Rightarrow> bytes"
  stack_value :: "nat \<Rightarrow> bytes"

text \<open>A future of a direct client call is not checked for NULL.\<close>

definition await :: "fdb_client \<Rightarrow> direct_env \<Rightarrow> handle \<Rightarrow> fdb_request \<Rightarrow> zt_world
    \<Rightarrow> (handle \<times> zt_world) option" where
  "await client env t req w = do {
     (f, w) \<leftarrow> new_future (direct_env env) t req w;
     f \<leftarrow> f;
     Some (f, become_ready client (direct_out env) f w)
   }"

definition seed_val :: "u32 \<Rightarrow> zf_entity_val_t option" where
  "seed_val e_id = do {
     x \<leftarrow> c_i64 (uint e_id * 1000);
     Some (packet_zero\<lparr>global_id := e_id, pos_um_x := x, pos_um_y := 0, pos_um_z := 0,
       vel_x := 100, vel_y := 0, vel_z := 0\<rparr>)
   }"

text \<open>The loop body; \<^verbatim>\<open>fdb_transaction_set\<close> is the call \<open>fdb_sync_set\<close> wraps.\<close>

definition seed_entity :: "bytes \<Rightarrow> bytes \<Rightarrow> handle \<Rightarrow> u32 \<Rightarrow> u32 \<Rightarrow> zt_world \<Rightarrow> zt_world option" where
  "seed_entity key value t z e_id w = do {
     (key, key_len) \<leftarrow> zf_kv_entity_key key z e_id;
     val \<leftarrow> seed_val e_id;
     value \<leftarrow> zf_kv_encode_entity value val;
     value \<leftarrow> (if SIZEOF_ENTITY_VAL \<le> length value then Some (take SIZEOF_ENTITY_VAL value) else None);
     fdb_sync_set t (take key_len key) value w
   }"

definition seed_entities :: "fdb_client \<Rightarrow> direct_env \<Rightarrow> u32 \<Rightarrow> u32 \<Rightarrow> zt_world \<Rightarrow> (int \<times> zt_world) option"
where
  "seed_entities client env z n w =
     (if db (fdb_state w) = None then None
      else if direct_create_error env \<noteq> 0 then Some (-1, w)
      else do {
        let t = next_handle w;
        let w = w\<lparr>transactions := (transactions w)(t \<mapsto> empty_transaction), next_handle := Suc t\<rparr>;
        w \<leftarrow> for_loop 0 (unat n)
               (\<lambda>i. seed_entity (stack_key env i) (stack_value env i) t z (word_of_nat i)) w;
        (f, w) \<leftarrow> await client env t (Commit_Request t) w;
        w \<leftarrow> fdb_future_destroy f w;
        w \<leftarrow> fdb_transaction_destroy t w;
        Some (if out_error (direct_out env) \<noteq> 0 then -1 else 0, w)
      })"

subsection \<open>Probing\<close>

datatype probe_line =
    Probe_Not_Found u32 u32
  | Probe_Position u32 u32 i64 i64 i64 u32

text \<open>The value \<^verbatim>\<open>fdb_future_get_value\<close> returns for the key of the request is given by the
  function \<open>get_value\<close>, \<open>None\<close> when it is not present.\<close>

fun future_get_value :: "(bytes \<Rightarrow> bytes option) \<Rightarrow> fdb_request \<Rightarrow> bytes option" where
  "future_get_value get_value (Get_Request t key) = get_value key"
| "future_get_value get_value req = None"

definition probe_entity :: "fdb_client \<Rightarrow> direct_env \<Rightarrow> (bytes \<Rightarrow> bytes option) \<Rightarrow> u32 \<Rightarrow> u32 \<Rightarrow> zt_world
    \<Rightarrow> (int \<times> probe_line option \<times> zt_world) option" where
  "probe_entity client env get_value z e_id w =
     (if db (fdb_state w) = None then None
      else if direct_create_error env \<noteq> 0 then Some (-1, None, w)
      else do {
        let t = next_handle w;
        let w = w\<lparr>transactions := (transactions w)(t \<mapsto> empty_transaction), next_handle := Suc t\<rparr>;
        (key, key_len) \<leftarrow> zf_kv_entity_key (stack_key env 0) z e_id;
        (f, w) \<leftarrow> await client env t (Get_Request t (take key_len key)) w;
        (if out_error (direct_out env) \<noteq> 0
         then do {
           w \<leftarrow> fdb_future_destroy f w;
           w \<leftarrow> fdb_transaction_destroy t w;
           Some (-1, None, w)
         }
         else do {
           req \<leftarrow> futures w f;
           line \<leftarrow> (case future_get_value get_value req of
                     None \<Rightarrow> Some (Probe_Not_Found z e_id)
                   | Some v \<Rightarrow> do {
                       val \<leftarrow> zf_kv_decode_entity v (int (length v));
                       Some (Probe_Position z e_id (pos_um_x val) (pos_um_y val) (pos_um_z val) (hlc val))
                     });
           w \<leftarrow> fdb_future_destroy f w;
           w \<leftarrow> fdb_transaction_destroy t w;
           Some (0, Some line, w)
         })
      })"

subsection \<open>The measuring loop\<close>

record 'd tick_loop_ctx_t =
  loop_z_id :: u32
  ticks_done :: u32
  ticks_failed :: u32
  in_flight :: bool
  deadline :: 'd

definition on_tick_done :: "bool \<Rightarrow> 'd tick_loop_ctx_t \<Rightarrow> 'd tick_loop_ctx_t" where
  "on_tick_done ok l =
     (let l = l\<lparr>in_flight := False\<rparr>
      in if ok then l\<lparr>ticks_done := ticks_done l + 1\<rparr> else l\<lparr>ticks_failed := ticks_failed l + 1\<rparr>)"

text \<open>The function pointer on_tick_done and the address of the loop context.\<close>

definition ON_TICK_DONE :: handle where
  "ON_TICK_DONE = 0"

definition LOOP_CTX :: handle where
  "LOOP_CTX = 0"

text \<open>The completion callbacks a step of the zone tick has made, applied in order; on_tick_done is
  the only completion callback of this program.\<close>

definition completions :: "zt_world \<Rightarrow> zt_world \<Rightarrow> 'd tick_loop_ctx_t \<Rightarrow> 'd tick_loop_ctx_t" where
  "completions w w' l = fold (\<lambda>(d, u, ok). on_tick_done ok) (drop (length (done_log w)) (done_log w')) l"

record turn =
  turn_run :: zt_run_env
  turn_arrivals :: "arrival list"

type_synonym 'd loop_state = "'d tick_loop_ctx_t \<times> zt_world"

text \<open>What happens during \<^verbatim>\<open>h2o_evloop_run\<close>.\<close>

fun evloop_run :: "fdb_client \<Rightarrow> arrival list \<Rightarrow> 'd loop_state \<Rightarrow> 'd loop_state option" where
  "evloop_run client [] s = Some s"
| "evloop_run client (a # as) (l, w) = do {
     w' \<leftarrow> zt_arrive client a w;
     evloop_run client as (completions w w' l, w')
   }"

text \<open>The start of a tick, whose result is not looked at.\<close>

definition start_tick :: "zt_run_env \<Rightarrow> 'd loop_state \<Rightarrow> 'd loop_state option" where
  "start_tick env s =
     (case s of (l, w) \<Rightarrow>
        if \<not> in_flight l
        then do {
          let l = l\<lparr>in_flight := True\<rparr>;
          (_, w') \<leftarrow> zf_zonetick_run env (loop_z_id l) 1 (Some ON_TICK_DONE) LOOP_CTX w;
          Some (completions w w' l, w')
        }
        else Some (l, w))"

text \<open>The loops over the clock readings: \<open>Inr\<close> when the loop has ended, \<open>Inl\<close> when it is still
  running after all the readings given.\<close>

fun timed_loop :: "'d arith \<Rightarrow> fdb_client \<Rightarrow> (timespec \<times> turn) list \<Rightarrow> 'd loop_state
    \<Rightarrow> ('d loop_state + 'd loop_state) option" where
  "timed_loop A client [] s = Some (Inl s)"
| "timed_loop A client ((now, turn) # ts) s =
     (if lt A (now_sec A now) (deadline (fst s))
      then do {
        s \<leftarrow> start_tick (turn_run turn) s;
        s \<leftarrow> evloop_run client (turn_arrivals turn) s;
        timed_loop A client ts s
      }
      else Some (Inr s))"

fun drain_loop :: "'d arith \<Rightarrow> fdb_client \<Rightarrow> (timespec \<times> arrival list) list \<Rightarrow> 'd loop_state
    \<Rightarrow> ('d loop_state + 'd loop_state) option" where
  "drain_loop A client [] s = Some (if in_flight (fst s) then Inl s else Inr s)"
| "drain_loop A client ((now, as) # ts) s =
     (if in_flight (fst s) \<and> lt A (now_sec A now) (add A (deadline (fst s)) (lit A 2))
      then do {
        s \<leftarrow> evloop_run client as s;
        drain_loop A client ts s
      }
      else Some (Inr s))"

subsection \<open>The entry point\<close>

record 'd tool_opts =
  opt_cluster_file :: string
  opt_zone :: int
  opt_entities :: u32
  opt_duration :: 'd
  opt_probe_only :: bool

definition tool_spec :: "char \<Rightarrow> bool option" where
  "tool_spec c =
     (if c \<in> set ''cznd'' then Some True else if c \<in> set ''Ph'' then Some False else None)"

definition tool_defaults :: "'d arith \<Rightarrow> 'd tool_opts" where
  "tool_defaults A =
     \<lparr>opt_cluster_file = FDB_CLUSTER_FILE_DEFAULT, opt_zone = -1, opt_entities = 200,
      opt_duration = lit A 5, opt_probe_only = False\<rparr>"

text \<open>The double \<^verbatim>\<open>atof\<close> reads is given by the function \<open>atof\<close>.\<close>

fun tool_options :: "(string \<Rightarrow> 'd) \<Rightarrow> getopt_event list \<Rightarrow> 'd tool_opts \<Rightarrow> (int + 'd tool_opts) option" where
  "tool_options atof [] os = Some (Inr os)"
| "tool_options atof (Unknown # es) os = Some (Inl 1)"
| "tool_options atof (Option c arg # es) os =
     (if c = CHR ''c'' then tool_options atof es (os\<lparr>opt_cluster_file := arg\<rparr>)
      else if c = CHR ''z'' then do {
        z \<leftarrow> c_atol arg;
        tool_options atof es (os\<lparr>opt_zone := z\<rparr>)
      }
      else if c = CHR ''n'' then do {
        n \<leftarrow> c_atoi arg;
        tool_options atof es (os\<lparr>opt_entities := word_of_int n\<rparr>)
      }
      else if c = CHR ''d'' then tool_options atof es (os\<lparr>opt_duration := atof arg\<rparr>)
      else if c = CHR ''P'' then tool_options atof es (os\<lparr>opt_probe_only := True\<rparr>)
      else Some (Inl (if c = CHR ''h'' then 0 else 1)))"

record 'd tool_env =
  tool_atof :: "string \<Rightarrow> 'd"
  tool_boot :: boot_env
  tool_world :: zt_world
  tool_direct :: direct_env
  get_value :: "bytes \<Rightarrow> bytes option"
  time_start :: timespec
  timed_turns :: "(timespec \<times> turn) list"
  drain_turns :: "(timespec \<times> arrival list) list"
  time_end :: timespec

datatype 'd tool_output =
    Printed_Probe probe_line
  | Printed_Report u32 u32 'd u32 u32 'd bool

datatype 'd tool_result =
    Tool_Exited int boot_world zt_world "'d tool_output list"
  | Tool_Running boot_world zt_world

text \<open>The thread that runs the network, which is taken to be created; its call of
  \<^verbatim>\<open>fdb_run_network\<close> is recorded where the thread is started.\<close>

definition start_network_thread :: "boot_world \<Rightarrow> boot_world" where
  "start_network_thread b = call Run_Network (call (Create_Thread 0) b)"

text \<open>What the thread does when that call has returned.\<close>

definition fdb_run_network_thread :: "boot_env \<Rightarrow> boot_world \<Rightarrow> boot_world" where
  "fdb_run_network_thread env b =
     (if run_error env \<noteq> 0 then log_boot (LIBRARY_ERROR ''fdb_run_network'' (run_error env)) b else b)"

text \<open>The cleanup at the end of both paths; the join returns when \<^verbatim>\<open>fdb_run_network\<close> does.\<close>

definition tool_shutdown :: "boot_env \<Rightarrow> fdb_thread_state_t \<Rightarrow> int \<Rightarrow> 'd tool_output list \<Rightarrow> boot_world
    \<Rightarrow> zt_world \<Rightarrow> 'd tool_result" where
  "tool_shutdown env state rc out b w =
     (let b = fdb_global_cleanup env (fdb_thread_cleanup state b);
          joined = call (Join_Thread 0) b
      in if run_returns env (calls b) then Tool_Exited rc (fdb_run_network_thread env joined) w out
         else Tool_Running joined w)"

definition tool_report :: "'d arith \<Rightarrow> 'd \<Rightarrow> u32 \<Rightarrow> 'd tick_loop_ctx_t \<Rightarrow> 'd tool_output" where
  "tool_report A elapsed n l =
     (let rate = quot A (lit A (real (unat (ticks_done l)))) elapsed
      in Printed_Report (loop_z_id l) n elapsed (ticks_done l) (ticks_failed l) rate (le A (lit A 500) rate))"

definition measure_zone :: "'d arith \<Rightarrow> fdb_client \<Rightarrow> 'd tool_env \<Rightarrow> 'd tool_opts \<Rightarrow> fdb_thread_state_t
    \<Rightarrow> boot_world \<Rightarrow> zt_world \<Rightarrow> 'd tool_result option" where
  "measure_zone A client env os state b w = do {
     let z = word_of_int (opt_zone os);
     (rc, w) \<leftarrow> seed_entities client (tool_direct env) z (opt_entities os) w;
     (if rc \<noteq> 0 then Some (Tool_Exited 1 b w [])
      else do {
        let t0 = now_sec A (time_start env);
        let l = \<lparr>loop_z_id = z, ticks_done = 0, ticks_failed = 0, in_flight = False,
                 deadline = add A t0 (opt_duration os)\<rparr>;
        r \<leftarrow> timed_loop A client (timed_turns env) (l, w);
        (case r of
           Inl (_, w) \<Rightarrow> Some (Tool_Running b w)
         | Inr s \<Rightarrow> do {
             r \<leftarrow> drain_loop A client (drain_turns env) s;
             (case r of
                Inl (_, w) \<Rightarrow> Some (Tool_Running b w)
              | Inr (l, w) \<Rightarrow>
                  (let elapsed = sub A (now_sec A (time_end env)) t0
                   in Some (tool_shutdown (tool_boot env) state 0 [tool_report A elapsed (opt_entities os) l] b w)))
           })
      })
   }"

definition throughput_main :: "'d arith \<Rightarrow> fdb_client \<Rightarrow> 'd tool_env \<Rightarrow> string list \<Rightarrow> 'd tool_result option"
where
  "throughput_main A client env args = do {
     r \<leftarrow> tool_options (tool_atof env) (getopt_events tool_spec args) (tool_defaults A);
     (case r of
        Inl status \<Rightarrow> Some (Tool_Exited status boot_start (tool_world env) [])
      | Inr os \<Rightarrow>
          (if opt_zone os < 0 then Some (Tool_Exited 1 boot_start (tool_world env) [])
           else (let (err, b) = fdb_global_init (tool_boot env) (Some (opt_cluster_file os)) 1 boot_start
                 in if err \<noteq> 0 then Some (Tool_Exited 1 b (tool_world env) [])
                    else (let (_, state, b) = fdb_thread_init (create_database (tool_boot env) 0)
                                                (start_network_thread b);
                              w = (tool_world env)\<lparr>fdb_state := state\<rparr>
                          in if opt_probe_only os
                             then do {
                               (rc, line, w) \<leftarrow> probe_entity client (tool_direct env) (get_value env)
                                                  (word_of_int (opt_zone os)) 0 w;
                               Some (tool_shutdown (tool_boot env) state rc
                                 (case line of None \<Rightarrow> [] | Some p \<Rightarrow> [Printed_Probe p]) b w)
                             }
                             else measure_zone A client env os state b w))))
   }"

end
