(* ===== verification/Throughput_Seed.thy ===== *)
theory Throughput_Seed
  imports Throughput
begin

text \<open>
  What the throughput tool stores and reads back: the seeded zone, its positions after any
  number of ticks, and the probe of one entity.
\<close>

subsection \<open>The seeded values\<close>

definition stack_ok :: "direct_env \<Rightarrow> bool" where
  "stack_ok env \<longleftrightarrow> (\<forall>i. length (stack_key env i) = 32 \<and> length (stack_value env i) = 256)"

definition seeded_packet :: "u32 \<Rightarrow> zf_entity_val_t" where
  "seeded_packet e = packet_zero\<lparr>global_id := e, pos_um_x := i64_of (uint e * 1000), vel_x := 100\<rparr>"

definition seeded_value :: "direct_env \<Rightarrow> nat \<Rightarrow> bytes" where
  "seeded_value env i = packet_wire (seeded_packet (word_of_nat i)) @ take 4 (drop 100 (stack_value env i))"

lemma uint_e_bounds: "0 \<le> uint (e :: u32)" "uint (e :: u32) < 4294967296"
  using uint_lt2p[of e] by simp_all

lemma seed_in_i64: "in_i64 (uint (e :: u32) * 1000)"
proof -
  have "0 \<le> uint e * 1000" "uint e * 1000 < 4294967296 * 1000" using uint_e_bounds[of e] by linarith+
  then show ?thesis by (intro in_i64_small) simp
qed

lemma seed_val_eq: "seed_val e = Some (seeded_packet e)"
  by (simp add: seed_val_def c_i64_def seed_in_i64 seeded_packet_def packet_zero_def)

lemma seeded_packet_wf [simp]: "packet_wf (seeded_packet e)"
  using packet_zero_wf by (simp add: seeded_packet_def packet_wf_def)

lemma seeded_value_stored:
  assumes "stack_ok env"
  shows "length (seeded_value env i) = 104" and "stored_packet (seeded_value env i) = seeded_packet (word_of_nat i)"
  using assms wire_packet_packet_wire[OF seeded_packet_wf]
  by (simp_all add: seeded_value_def stack_ok_def length_packet_wire stored_packet_def)

lemma seed_entity_eq:
  assumes "stack_ok env"
  shows "seed_entity (stack_key env i) (stack_value env i) t z (word_of_nat i) w =
    fdb_sync_set t (entity_key z (word_of_nat i)) (seeded_value env i) w"
  using assms
  by (simp add: seed_entity_def stack_ok_def entity_key_eq seed_val_eq zf_kv_encode_entity_def encode_in
      SIZEOF_ENTITY_VAL_def length_packet_wire seeded_value_def take_overwrite entity_key_bytes)

definition seed_writes :: "direct_env \<Rightarrow> u32 \<Rightarrow> nat \<Rightarrow> key_value list" where
  "seed_writes env z n = map (\<lambda>i. (entity_key z (word_of_nat i), seeded_value env i)) [0..<n]"

lemma seed_loop:
  assumes "stack_ok env" and "transactions w t = Some y"
  shows "for_loop 0 n (\<lambda>i. seed_entity (stack_key env i) (stack_value env i) t z (word_of_nat i)) w =
    Some (w\<lparr>transactions := (transactions w)(t \<mapsto> y\<lparr>writes := writes y @ seed_writes env z n\<rparr>)\<rparr>)"
proof (induction n)
  case 0
  then show ?case using assms(2) by (simp add: seed_writes_def fun_upd_idem)
next
  case (Suc n)
  then show ?case
    by (simp add: for_loop_snoc seed_entity_eq[OF assms(1)] fdb_sync_set_def seed_writes_def)
      (simp add: fun_upd_def cong: if_cong)
qed

lemma unat_u32_of_nat: "i < unat (n :: u32) \<Longrightarrow> unat (word_of_nat i :: u32) = i"
  using unsigned_less[of n, where ?'a = nat] by (simp add: unsigned_of_nat take_bit_nat_eq_self)

lemma seed_writes_distinct: "distinct (map fst (seed_writes env z (unat (n :: u32))))"
proof -
  have "inj_on (\<lambda>i. entity_key z (word_of_nat i)) {0..<unat n}"
  proof (rule inj_onI)
    fix i j assume "i \<in> {0..<unat n}" "j \<in> {0..<unat n}"
      and "entity_key z (word_of_nat i) = entity_key z (word_of_nat j)"
    then show "i = j" using unat_u32_of_nat[of i n] unat_u32_of_nat[of j n] unfolding entity_key_inject
      by (metis atLeastLessThan_iff)
  qed
  then show ?thesis by (simp add: seed_writes_def distinct_map comp_def)
qed

lemma seed_writes_in:
  assumes "e < n"
  shows "(entity_key z e, seeded_value env (unat e)) \<in> set (seed_writes env z (unat n))"
  using assms by (auto simp: seed_writes_def word_less_nat_alt image_iff intro!: bexI[of _ "unat e"])

lemma seed_writes_notin:
  assumes "\<And>e. e < n \<Longrightarrow> k \<noteq> entity_key z e"
  shows "k \<notin> fst ` set (seed_writes env z (unat n))"
proof
  assume "k \<in> fst ` set (seed_writes env z (unat n))"
  then obtain i where i: "i < unat n" "k = entity_key z (word_of_nat i)" by (auto simp: seed_writes_def)
  then have "(word_of_nat i :: u32) < n" using unat_u32_of_nat[OF i(1)] by (simp add: word_less_nat_alt)
  then show False using assms i(2) by blast
qed

text \<open>The whole call, on every path that has a database.\<close>

definition seed_ok :: "direct_env \<Rightarrow> bool" where
  "seed_ok env \<longleftrightarrow> stack_ok env \<and> direct_create_error env = 0 \<and> \<not> future_null (direct_env env)"

lemma seed_entities_eq:
  assumes ok: "seed_ok env" and client: "client_documented client" and db: "db (fdb_state w) \<noteq> None"
    and fresh: "handles_fresh w"
  shows "seed_entities client env z n w =
    Some (if out_error (direct_out env) \<noteq> 0 then -1 else 0,
      w\<lparr>store := (if out_applied (direct_out env) then apply_writes (seed_writes env z (unat n)) (store w) else store w),
        next_handle := Suc (Suc (next_handle w))\<rparr>)"
proof -
  let ?t = "next_handle w"
  have no: "futures w (Suc ?t) = None" "transactions w ?t = None"
    using handles_fresh_None[OF fresh] by simp_all
  show ?thesis
    using ok client db no
    by (cases w) (auto simp: seed_entities_def seed_ok_def seed_loop Let_def await_def new_future_def
        become_ready_def client_documented_def client_commits_def empty_transaction_def
        fdb_future_destroy_def fdb_transaction_destroy_def fun_upd_fresh_cancel domIff)
qed

lemma seeded_store:
  assumes "seed_ok env"
  shows "e < n \<Longrightarrow> apply_writes (seed_writes env z (unat n)) m (entity_key z e) = Some (seeded_value env (unat e))"
    and "(\<And>e. e < n \<Longrightarrow> key \<noteq> entity_key z e) \<Longrightarrow> apply_writes (seed_writes env z (unat n)) m key = m key"
  using apply_writes_in[OF seed_writes_distinct seed_writes_in] apply_writes_notin[OF seed_writes_notin]
  by auto

text \<open>C36: seeding stores exactly the intended zone. If the client accepts the calls and applies the
  commit, \<open>seed_entities\<close> returns 0 and holds no handle afterwards; every entity e below n has
  a stored value that reads back as the packet with id e, position (1000 e, 0, 0) and velocity
  (100, 0, 0) and zeros elsewhere, in spite of the four bytes of uninitialised stack behind
  the 100 bytes of the packet; no other key of the database changes.\<close>

theorem seeded_zone:
  assumes "client_documented client" and "db (fdb_state w) \<noteq> None" and "handles_fresh w"
    and "seed_ok env" and "out_error (direct_out env) = 0" and "out_applied (direct_out env)"
  shows "\<exists>w'. seed_entities client env z n w = Some (0, w') \<and>
    transactions w' = transactions w \<and> futures w' = futures w \<and>
    (\<forall>e < n. \<exists>v. store w' (entity_key z e) = Some v \<and> length v = 104 \<and>
       stored_packet v = packet_zero\<lparr>global_id := e, pos_um_x := word_of_int (1000 * uint e), vel_x := 100\<rparr>) \<and>
    (\<forall>key. (\<forall>e < n. key \<noteq> entity_key z e) \<longrightarrow> store w' key = store w key)"
  using seed_entities_eq[OF assms(4,1-3), of z n] assms(4-6) seeded_store[OF assms(4)]
    seeded_value_stored[of env]
  by (auto simp: seed_ok_def seeded_packet_def i64_of_def mult.commute)

subsection \<open>Positions after ticks\<close>

lemma um_per_tick_100 [simp]: "um_per_tick 100 = 1525" "um_per_tick 0 = 0"
  by (simp_all add: um_per_tick_def signed_divide_int_def)

definition advanced_packet :: "u32 \<Rightarrow> nat \<Rightarrow> zf_entity_val_t" where
  "advanced_packet e k = (seeded_packet e)\<lparr>pos_um_x := i64_of (1000 * uint e + 1525 * int k)\<rparr>"

lemma advanced_packet_wf [simp]: "packet_wf (advanced_packet e k)"
  using seeded_packet_wf[of e] by (simp add: advanced_packet_def packet_wf_def)

lemma advanced_in_i64: "k \<le> 2 ^ 40 \<Longrightarrow> in_i64 (1000 * uint (e :: u32) + 1525 * int k)"
proof -
  assume "k \<le> 2 ^ 40"
  then have "int k \<le> 1099511627776" by simp
  then show ?thesis using uint_e_bounds[of e] by (intro in_i64_small) simp
qed

lemma advanced_packet_step:
  assumes "Suc k \<le> 2 ^ 40"
  shows "tick_packet 1 (advanced_packet e k) = advanced_packet e (Suc k)"
  using advanced_in_i64[of k e] assms
  by (simp add: tick_packet_def advanced_packet_def seeded_packet_def moved_def sint_i64_of packet_zero_def
      i64_of_def)

lemma ticked_seed:
  assumes "k \<le> 2 ^ 40" and "stored_packet v = seeded_packet e"
  shows "stored_packet ((tick_bytes 1 ^^ k) v) = advanced_packet e k"
  using assms(1)
proof (induction k)
  case 0
  then show ?case
    using assms(2) by (simp add: advanced_packet_def seeded_packet_def mult.commute)
next
  case (Suc k)
  then show ?case by (simp add: tick_bytes_def advanced_packet_step)
qed

lemma zone_ticked_iter:
  "(zone_ticked z n ^^ k) m key =
     (if in_zone_range z key then map_option (tick_bytes n ^^ k) (m key) else m key)"
  by (induction k) (auto simp: zone_ticked_def option.map_comp comp_def option.map_id0[unfolded id_def])

text \<open>Where a seeded zone is after k ticks: entity e is at exactly (1000 e + 1525 k, 0, 0), unless its id
  is 0xFF000000 or above; then it has never moved.\<close>

lemma seeded_entity_after:
  assumes "seed_ok env" "e < n" "k \<le> 2 ^ 40"
  shows "\<exists>v. (zone_ticked z 1 ^^ k) (apply_writes (seed_writes env z (unat n)) m) (entity_key z e) = Some v \<and>
    sint (pos_um_x (stored_packet v)) = 1000 * uint e + (if e < 0xFF000000 then 1525 * int k else 0) \<and>
    pos_um_y (stored_packet v) = 0 \<and> pos_um_z (stored_packet v) = 0"
proof -
  let ?v = "seeded_value env (unat e)"
  have "stored_packet ?v = seeded_packet e"
    using assms(1) seeded_value_stored(2)[of env] by (simp add: seed_ok_def)
  then have s: "stored_packet ((tick_bytes 1 ^^ j) ?v) = advanced_packet e j" if "j \<le> k" for j
    using ticked_seed that assms(3) by (meson order.trans)
  have pos: "sint (pos_um_x (advanced_packet e j)) = 1000 * uint e + 1525 * int j"
      "pos_um_y (advanced_packet e j) = 0" "pos_um_z (advanced_packet e j) = 0" if "j \<le> k" for j
    using advanced_in_i64[of j e] that assms(3)
    by (simp_all add: advanced_packet_def sint_i64_of seeded_packet_def packet_zero_def)
  show ?thesis
    using seeded_store(1)[OF assms(1,2), of z m] s[of k] s[of 0] pos[of k] pos[of 0]
    by (simp add: zone_ticked_iter entity_key_in_range_iff)
qed

subsection \<open>Probing\<close>

text \<open>Documented behaviour of the client: a point read changes nothing.\<close>

definition client_gets :: "fdb_client \<Rightarrow> bool" where
  "client_gets client \<longleftrightarrow> (\<forall>out t k x m. client out (Get_Request t k) (x, m) = (x, m))"

definition probe_result :: "u32 \<Rightarrow> u32 \<Rightarrow> bytes option \<Rightarrow> probe_line" where
  "probe_result z e v =
     (case v of
        None \<Rightarrow> Probe_Not_Found z e
      | Some v \<Rightarrow> (let p = stored_packet v in
          Probe_Position z e (pos_um_x p) (pos_um_y p) (pos_um_z p) (hlc p)))"

lemma probe_entity_eq:
  assumes "client_gets client" and "seed_ok env" and "db (fdb_state w) \<noteq> None" and "handles_fresh w"
    and "out_error (direct_out env) = 0"
  shows "probe_entity client env get z e w =
    Some (0, Some (probe_result z e (get (entity_key z e))), w\<lparr>next_handle := Suc (Suc (next_handle w))\<rparr>)"
proof -
  let ?t = "next_handle w"
  have no: "futures w (Suc ?t) = None" "transactions w ?t = None"
    using handles_fresh_None[OF assms(4)] by simp_all
  have key: "zf_kv_entity_key (stack_key env 0) z e = Some (overwrite 0 (entity_prefix z @ be32 e) (stack_key env 0), 19)"
    using assms(2) by (simp add: seed_ok_def stack_ok_def entity_key_eq)
  have req: "take 19 (overwrite 0 (entity_prefix z @ be32 e) (stack_key env 0)) = entity_key z e"
    using assms(2) by (simp add: seed_ok_def stack_ok_def entity_key_bytes take_overwrite)
  show ?thesis
    using assms(1,2,3,5) no key req
    by (cases w; cases "get (entity_key z e)") (auto simp: probe_entity_def seed_ok_def Let_def await_def new_future_def
        become_ready_def client_gets_def probe_result_def decode_stored
        fdb_future_destroy_def fdb_transaction_destroy_def fun_upd_fresh_cancel domIff)
qed

definition tool_accepted :: "'d arith \<Rightarrow> 'd tool_env \<Rightarrow> string list \<Rightarrow> 'd tool_opts \<Rightarrow> bool" where
  "tool_accepted A env args os \<longleftrightarrow> 0 \<le> opt_zone os \<and>
     tool_options (tool_atof env) (getopt_events tool_spec args) (tool_defaults A) = Some (Inr os)"

text \<open>C40: a probe run only looks. With the option -P, a started client, a network that returns once it
  is stopped, and a client that answers the request for a key with the value the database has
  under that key, the tool prints the position of entity 0 of the zone as it is stored (or that there is none), and
  ends with status 0 after the exact sequence of start and cleanup calls; the database and
  the handles held are as before.\<close>

theorem probe_run:
  assumes "tool_accepted A env args os" and "opt_probe_only os" and "boot_ok (tool_boot env)"
    and "create_database (tool_boot env) 0 = (0, Some h)" and "stop_error (tool_boot env) = 0"
    and "\<And>cs. Stop_Network \<in> set cs \<Longrightarrow> run_returns (tool_boot env) cs"
    and "client_gets client" and "seed_ok (tool_direct env)" and "out_error (direct_out (tool_direct env)) = 0"
    and "handles_fresh (tool_world env)"
    and "get_value env = store (tool_world env)"
  shows "\<exists>b w'. throughput_main A client env args = Some (Tool_Exited 0 b w'
      [Printed_Probe (probe_result (word_of_int (opt_zone os)) 0
         (store (tool_world env) (entity_key (word_of_int (opt_zone os)) 0)))]) \<and>
    store w' = store (tool_world env) \<and> transactions w' = transactions (tool_world env) \<and>
    futures w' = futures (tool_world env) \<and>
    calls b = [Select_Api_Version FDB_API_VERSION FDB_API_VERSION, Setup_Network, Create_Thread 0, Run_Network,
      Create_Database (opt_cluster_file os), Destroy_Database h, Stop_Network, Free_Thread_States, Join_Thread 0]"
proof -
  let ?w = "(tool_world env)\<lparr>fdb_state := zero_thread_state\<lparr>db := Some h\<rparr>\<rparr>"
  let ?z = "word_of_int (opt_zone os)"
  have "handles_fresh ?w" using assms(10) by (simp add: handles_fresh_def)
  then have p: "probe_entity client (tool_direct env) (get_value env) ?z 0 ?w =
      Some (0, Some (probe_result ?z 0 (get_value env (entity_key ?z 0))), ?w\<lparr>next_handle := Suc (Suc (next_handle ?w))\<rparr>)"
    using probe_entity_eq[OF assms(7,8) _ _ assms(9), of ?w] by simp
  have "select_error (tool_boot env) = 0" "setup_error (tool_boot env) = 0"
    using assms(3) by (simp_all add: boot_ok_def)
  note init = global_init_ok[OF this]
  show ?thesis
    using assms(1,2,4,5,6,11) p
    by (simp add: throughput_main_def tool_accepted_def init fdb_thread_init_def Let_def call_def
        fdb_run_network_thread_def start_network_thread_def log_boot_def zero_thread_state_def tool_shutdown_def fdb_thread_cleanup_def
        fdb_global_cleanup_def boot_start_def)
qed

end
