(* ===== verification/Zonetick_Service.thy ===== *)
theory Zonetick_Service
  imports Zonetick_Progress
begin

text \<open>
  The contract of the zone tick towards its callers, as an interface: what a call of
  \<open>zf_zonetick_run\<close> and the delivery of a future do to the set of live ticks and to the
  list of reported results. It is proved for the model of \<^verbatim>\<open>src/zf_zonetick.c\<close>; the
  measuring loop of the throughput tool is verified against it.
\<close>

subsection \<open>The tick as a service\<close>

text \<open>What a client of the zone tick relies on. A run is defined; it is refused, or makes one more
  tick live, or ends at once and reports failure. A delivery is to a live tick, and either
  leaves it live or ends it and reports once.\<close>

locale tick_service =
  fixes inv :: "'w \<Rightarrow> bool" and live :: "'w \<Rightarrow> handle set" and reports :: "'w \<Rightarrow> bool list"
    and run :: "'e \<Rightarrow> 'w \<Rightarrow> (int \<times> 'w) option" and deliver :: "'a \<Rightarrow> 'w \<Rightarrow> 'w option"
  assumes run_defined: "inv w \<Longrightarrow> \<exists>r w'. run e w = Some (r, w')"
    and run_law: "inv w \<Longrightarrow> run e w = Some (r, w') \<Longrightarrow> inv w' \<and>
      (r \<noteq> 0 \<and> live w' = live w \<and> reports w' = reports w \<or>
       r = 0 \<and> (\<exists>c. c \<notin> live w \<and> live w' = insert c (live w)) \<and> reports w' = reports w \<or>
       r = 0 \<and> live w' = live w \<and> reports w' = reports w @ [False])"
    and deliver_law: "inv w \<Longrightarrow> deliver a w = Some w' \<Longrightarrow> inv w' \<and>
      (\<exists>c \<in> live w. live w' = live w \<and> reports w' = reports w \<or>
         live w' = live w - {c} \<and> (\<exists>b. reports w' = reports w @ [b]))"
begin

text \<open>A client that starts a tick only when none is live.\<close>

lemma run_idle:
  assumes "inv w" "live w = {}" "run e w = Some (r, w')"
  obtains (refused) "inv w'" "r \<noteq> 0" "live w' = {}" "reports w' = reports w"
  | (pending) c where "inv w'" "live w' = {c}" "reports w' = reports w"
  | (failed) "inv w'" "live w' = {}" "reports w' = reports w @ [False]"
  using run_law[OF assms(1,3)] assms(2) by auto

lemma deliver_single:
  assumes "inv w" "live w = {} \<or> live w = {c}" "deliver a w = Some w'"
  obtains (pending) "inv w'" "live w = {c}" "live w' = {c}" "reports w' = reports w"
  | (ended) b where "inv w'" "live w = {c}" "live w' = {}" "reports w' = reports w @ [b]"
  using deliver_law[OF assms(1,3)] assms(2) by auto

lemma idle_silent: "inv w \<Longrightarrow> live w = {} \<Longrightarrow> deliver a w = None"
  using deliver_law[of w a] by (cases "deliver a w") auto

end

text \<open>The zone tick provides it, for a client that always passes a completion callback.\<close>

definition service_inv :: "zt_world \<Rightarrow> bool" where
  "service_inv w \<longleftrightarrow> zt_inv {} {} w \<and> db (fdb_state w) \<noteq> None \<and>
     (\<forall>c x. ctx_heap w c = Some x \<longrightarrow> done_cb x \<noteq> None)"

definition service_live :: "zt_world \<Rightarrow> handle set" where
  "service_live w = dom (ctx_heap w)"

definition service_reports :: "zt_world \<Rightarrow> bool list" where
  "service_reports w = map (\<lambda>(d, u, ok). ok) (done_log w)"

definition service_deliver :: "fdb_client \<Rightarrow> handle \<times> fdb_env \<times> fdb_outcome \<Rightarrow> zt_world \<Rightarrow> zt_world option" where
  "service_deliver client a w = (case a of (f, env, out) \<Rightarrow> zt_deliver client env out f w)"

lemma service_run:
  assumes inv: "service_inv w" and run: "zf_zonetick_run e z n (Some d) u w = Some (r, w')"
  shows "service_inv w' \<and>
    (r \<noteq> 0 \<and> service_live w' = service_live w \<and> service_reports w' = service_reports w \<or>
     r = 0 \<and> (\<exists>c. c \<notin> service_live w \<and> service_live w' = insert c (service_live w)) \<and>
       service_reports w' = service_reports w \<or>
     r = 0 \<and> service_live w' = service_live w \<and> service_reports w' = service_reports w @ [False])"
proof -
  have zi: "zt_inv {} {} w" and db: "db (fdb_state w) \<noteq> None"
    and cb: "\<forall>c x. ctx_heap w c = Some x \<longrightarrow> done_cb x \<noteq> None"
    using inv by (simp_all add: service_inv_def)
  have new: "ctx_heap w (next_handle w) = None" using ctx_fresh[OF zi] by simp
  note keeps = run_keeps(1,2)[OF zi db run]
  from zi db run show ?thesis
  proof (cases rule: run_cases)
    case refused
    then show ?thesis
      using keeps db cb frame_same_but_log[of w w']
      by (simp add: service_inv_def service_live_def service_reports_def)
  next
    case waiting
    then have "service_live w' = insert (next_handle w) (service_live w)" "service_reports w' = service_reports w"
      by (simp_all add: service_live_def service_reports_def)
    then show ?thesis
      using keeps db cb waiting(1,2) new by (auto simp: service_inv_def service_live_def split: if_splits)
  next
    case (ended w1)
    note fr = frame_same_but_log[OF ended(2)]
    have "ctx_heap w' = ctx_heap w" "service_reports w' = service_reports w @ [False]"
      using ended(3) fr new by (simp_all add: finished_def fun_upd_fresh_cancel domIff service_reports_def)
    then show ?thesis using keeps db cb ended(1) by (simp add: service_inv_def service_live_def)
  qed
qed

lemma service_delivery:
  assumes inv: "service_inv w" and d: "zt_deliver client env out f w = Some w'"
  shows "service_inv w' \<and>
    (\<exists>c \<in> service_live w. service_live w' = service_live w \<and> service_reports w' = service_reports w \<or>
       service_live w' = service_live w - {c} \<and> (\<exists>b. service_reports w' = service_reports w @ [b]))"
proof -
  have zi: "zt_inv {} {} w" using inv by (simp add: service_inv_def)
  obtain c p where wt: "waits w f c p" by (rule deliver_waiting[OF zi d])
  obtain x t where x: "ctx_heap w c = Some x"
    and af: "tick_after (zt_protocol env out p t (z_id x)) c x w w'"
    and fr: "\<forall>c'. c' \<noteq> c \<longrightarrow> ctx_heap w' c' = ctx_heap w c'"
    by (rule deliver_protocol[OF zi wt d])
  have heap: "ctx_heap w' = (ctx_heap w)(c := ctx_heap w' c)" using fr by (intro ext) simp
  have dom: "service_live w' =
      (if ctx_heap w' c = None then service_live w - {c} else insert c (service_live w))"
    unfolding service_live_def by (subst heap) simp
  obtain dn where dn: "done_cb x = Some dn" using inv x by (auto simp: service_inv_def)
  have cs: "ctx_heap w' c = Some x \<and> done_log w' = done_log w \<or>
      ctx_heap w' c = None \<and> (\<exists>b. done_log w' = done_log w @ [(dn, user_ctx x, b)])"
    using af dn by (auto simp: tick_after_def report_def split: tick_effect.splits)
  have "done_cb y \<noteq> None" if "ctx_heap w' c' = Some y" for c' y
    using that inv fr x cs by (cases "c' = c") (auto simp: service_inv_def)
  then have "service_inv w'"
    using inv deliver_keeps(1,2)[OF zi d] by (simp add: service_inv_def)
  moreover have "service_live w' = service_live w \<and> service_reports w' = service_reports w \<or>
      service_live w' = service_live w - {c} \<and> (\<exists>b. service_reports w' = service_reports w @ [b])"
    using cs dom x by (auto simp: service_reports_def service_live_def)
  ultimately show ?thesis using x by (auto simp: service_live_def)
qed

interpretation zone_tick: tick_service service_inv service_live service_reports
  "\<lambda>e. zf_zonetick_run e z n (Some d) u" "service_deliver client" for z n d u client
proof
  show "\<exists>r w'. zf_zonetick_run e z n (Some d) u w = Some (r, w')" if "service_inv w" for w e
    using that run_total[of w e z n "Some d" u] by (auto simp: service_inv_def)
qed (simp only: service_run, simp add: service_deliver_def service_delivery split: prod.splits)

end
