(* ===== verification/Throughput_Loop.thy ===== *)
theory Throughput_Loop
  imports Throughput_Seed Zonetick_Service Sinew_Exact
begin

text \<open>
  The measuring loop of the throughput tool: at most one tick in flight, the count of
  completions, the stall after a refused run, and the end of the measurement; then the
  theorems about the tool applied to a sample run.
\<close>

subsection \<open>The loop invariant\<close>

text \<open>Either no tick is live, or exactly one, and then the flag is set; and every completion has
  been counted.\<close>

definition loop_inv :: "'d loop_state \<Rightarrow> bool" where
  "loop_inv s \<longleftrightarrow> (case s of (l, w) \<Rightarrow> service_inv w \<and>
     (service_live w = {} \<or> in_flight l \<and> (\<exists>c. service_live w = {c})) \<and>
     ticks_done l + ticks_failed l = word_of_nat (length (service_reports w)))"

lemma on_tick_done_simps [simp]:
  "in_flight (on_tick_done ok l) = False" "loop_z_id (on_tick_done ok l) = loop_z_id l"
  "deadline (on_tick_done ok l) = deadline l"
  "ticks_done (on_tick_done ok l) + ticks_failed (on_tick_done ok l) = ticks_done l + ticks_failed l + 1"
  "ticks_done (on_tick_done False l) = ticks_done l" "ticks_failed (on_tick_done False l) = ticks_failed l + 1"
  by (simp_all add: on_tick_done_def Let_def)

lemma completions_reports:
  "completions w w' l = fold on_tick_done (drop (length (service_reports w)) (service_reports w')) l"
  by (simp add: completions_def service_reports_def drop_map fold_map comp_def case_prod_unfold)

lemma completions_none [simp]: "service_reports w' = service_reports w \<Longrightarrow> completions w w' l = l"
  by (simp add: completions_reports)

lemma completions_one: "service_reports w' = service_reports w @ [ok] \<Longrightarrow> completions w w' l = on_tick_done ok l"
  by (simp add: completions_reports)

lemma deliver_one:
  assumes inv: "loop_inv (l, w)" and d: "zt_deliver client env out f w = Some w'"
  shows "loop_inv (completions w w' l, w')" and "deadline (completions w w' l) = deadline l"
proof -
  have d': "service_deliver client (f, env, out) w = Some w'" using d by (simp add: service_deliver_def)
  obtain c where si: "service_inv w" and one: "service_live w = {} \<or> service_live w = {c}"
    using inv by (auto simp: loop_inv_def)
  have "loop_inv (completions w w' l, w') \<and> deadline (completions w w' l) = deadline l"
    using si one d'
  proof (cases rule: zone_tick.deliver_single)
    case pending
    then show ?thesis using inv by (auto simp: loop_inv_def)
  next
    case (ended b)
    then show ?thesis using inv by (auto simp: loop_inv_def completions_one[OF ended(4)])
  qed
  then show "loop_inv (completions w w' l, w')" and "deadline (completions w w' l) = deadline l" by simp_all
qed

lemma arrive_one:
  assumes inv: "loop_inv (l, w)" and d: "zt_arrive client a w = Some w'"
  shows "loop_inv (completions w w' l, w') \<and> deadline (completions w w' l) = deadline l"
proof (cases a)
  case (Delivery f env out)
  then show ?thesis using deliver_one[OF inv] d by simp
next
  case (Database m)
  then have w': "w' = w\<lparr>store := m\<rparr>" using d by simp
  then have "service_reports w' = service_reports w" by (simp add: service_reports_def)
  then have "completions w w' l = l" by simp
  moreover have "zt_inv {} {} w \<Longrightarrow> zt_inv {} {} w'" using inv_transactions(2)[of "{}" "{}" w "transactions w" m] w' by simp
  ultimately show ?thesis
    using inv w' by (auto simp: loop_inv_def service_inv_def service_live_def service_reports_def)
qed

lemma start_one:
  assumes inv: "loop_inv s" and st: "start_tick env s = Some s'"
  shows "loop_inv s'" and "deadline (fst s') = deadline (fst s)" and "ticks_done (fst s') = ticks_done (fst s)"
proof -
  obtain l w where s: "s = (l, w)" by force
  have "loop_inv s' \<and> deadline (fst s') = deadline (fst s) \<and> ticks_done (fst s') = ticks_done (fst s)"
  proof (cases "in_flight l")
    case True
    then show ?thesis using st inv by (simp add: start_tick_def s)
  next
    case False
    then have idle: "service_inv w" "service_live w = {}" using inv by (auto simp: loop_inv_def s)
    obtain r w' where run: "zf_zonetick_run env (loop_z_id l) 1 (Some ON_TICK_DONE) LOOP_CTX w = Some (r, w')"
      and s': "s' = (completions w w' (l\<lparr>in_flight := True\<rparr>), w')"
      using st False by (auto simp: start_tick_def s Let_def split: bind_splits)
    from idle run show ?thesis
    proof (cases rule: zone_tick.run_idle)
      case failed
      then show ?thesis using inv by (auto simp: s s' loop_inv_def completions_one[OF failed(3)])
    qed (use inv in \<open>auto simp: s s' loop_inv_def\<close>)
  qed
  then show "loop_inv s'" and "deadline (fst s') = deadline (fst s)" and "ticks_done (fst s') = ticks_done (fst s)"
    by simp_all
qed

lemma evloop_one:
  assumes "loop_inv s" and "evloop_run client as s = Some s'"
  shows "loop_inv s' \<and> deadline (fst s') = deadline (fst s)"
  using assms
proof (induction client as s rule: evloop_run.induct)
  case (2 client a as l w)
  then show ?case using arrive_one by (fastforce split: bind_splits)
qed simp

lemma timed_one:
  assumes "loop_inv s" and "timed_loop A client ts s = Some r" and "r = Inl s' \<or> r = Inr s'"
  shows "loop_inv s'"
  using assms(1,2)
proof (induction A client ts s rule: timed_loop.induct)
  case (1 A client s)
  then show ?case using assms(3) by auto
next
  case (2 A client now turn ts s)
  show ?case
  proof (cases "lt A (now_sec A now) (deadline (fst s))")
    case True
    then obtain s1 s2 where s1: "start_tick (turn_run turn) s = Some s1"
      and s2: "evloop_run client (turn_arrivals turn) s1 = Some s2"
      and r: "timed_loop A client ts s2 = Some r"
      using 2(3) by (auto simp: bind_eq_Some_conv)
    have "loop_inv s2" using evloop_one[OF start_one(1)[OF 2(2) s1] s2] by simp
    then show ?thesis using 2(1)[OF True s1 s2] r by simp
  next
    case False
    then show ?thesis using 2(2,3) assms(3) by auto
  qed
qed

lemma drain_one:
  assumes "loop_inv s" and "drain_loop A client ts s = Some r" and "r = Inl s' \<or> r = Inr s'"
  shows "loop_inv s'"
  using assms(1,2)
proof (induction A client ts s rule: drain_loop.induct)
  case (1 A client s)
  then show ?case using assms(3) by (auto split: if_splits)
next
  case (2 A client now as ts s)
  show ?case
  proof (cases "in_flight (fst s) \<and> lt A (now_sec A now) (add A (deadline (fst s)) (lit A 2))")
    case True
    then obtain s1 where s1: "evloop_run client as s = Some s1" and r: "drain_loop A client ts s1 = Some r"
      using 2(3) by (auto simp: bind_eq_Some_conv)
    then show ?thesis using 2(1)[OF True s1] evloop_one[OF 2(2) s1] by simp
  next
    case False
    then show ?thesis using 2(2,3) assms(3) by auto
  qed
qed

lemma loop_inv_start:
  assumes "zt_initial w" "\<not> in_flight l" "ticks_done l = 0" "ticks_failed l = 0"
  shows "loop_inv (l, w)"
  using assms zt_inv_initial[OF assms(1)]
  by (simp add: loop_inv_def service_inv_def service_live_def service_reports_def zt_initial_def)

lemma no_tick_no_handles:
  assumes "zt_inv {} {} w" and "ctx_heap w = Map.empty"
  shows "transactions w = Map.empty" and "futures w = Map.empty"
proof -
  have reg: "registered w f = None" for f
    using registered_owned[OF assms(1)] assms(2) by (cases "registered w f") (auto simp: owned_def)
  have "dom (futures w) \<subseteq> dom (registered w)"
    using zt_invD(3)[OF assms(1)] by (auto simp: future_inv_def)
  then show "futures w = Map.empty" using reg by (auto simp: domIff)
  have "dom (transactions w) = {}"
    using zt_invD(2)[OF assms(1)] assms(2) by (auto simp: ctx_inv_def)
  then show "transactions w = Map.empty" by simp
qed

text \<open>C14: the measuring loop keeps the contract of the zone tick: at most one tick in flight. Started
  with no tick, in every state the loop reaches (after any clock readings, answers and
  deliveries) at most one context is live; when the flag is clear none is, and no transaction
  and no future is held, so the next run starts from a clean state; the two counters add up,
  modulo 2^32, to the number of completion callbacks made. The same holds in every state the
  drain loop reaches from there.\<close>

theorem one_tick_in_flight:
  assumes "zt_initial w" and "\<not> in_flight l" "ticks_done l = 0" "ticks_failed l = 0"
    and "timed_loop A client ts (l, w) = Some r" and "r = Inl s \<or> r = Inr s"
    and "s' = (l', w')" and "s' = s \<or> drain_loop A client ds s = Some (Inl s') \<or> drain_loop A client ds s = Some (Inr s')"
  shows "card (dom (ctx_heap w')) \<le> 1 \<and>
    (\<not> in_flight l' \<longrightarrow> ctx_heap w' = Map.empty \<and> transactions w' = Map.empty \<and> futures w' = Map.empty) \<and>
    ticks_done l' + ticks_failed l' = word_of_nat (length (done_log w'))"
proof -
  have "loop_inv s" by (rule timed_one[OF loop_inv_start[OF assms(1-4)] assms(5,6)])
  then have inv: "loop_inv (l', w')" using drain_one[of s A client ds _ s'] assms(7,8) by auto
  then have "card (dom (ctx_heap w')) \<le> 1" "\<not> in_flight l' \<longrightarrow> ctx_heap w' = Map.empty"
    by (auto simp: loop_inv_def service_live_def)
  then show ?thesis
    using no_tick_no_handles[of w'] inv by (auto simp: loop_inv_def service_inv_def service_reports_def)
qed

subsection \<open>The stall\<close>

text \<open>The flag is set, no tick is live: nothing can clear the flag again.\<close>

definition stalled :: "'d loop_state \<Rightarrow> bool" where
  "stalled s \<longleftrightarrow> loop_inv s \<and> in_flight (fst s) \<and> service_live (snd s) = {}"

lemma stalled_store: "stalled (l, w) \<Longrightarrow> stalled (l, w\<lparr>store := m\<rparr>)"
  using arrive_one[of l w reference_client "Database m"]
  by (simp add: stalled_def service_live_def service_reports_def)

text \<open>Only the database may still change.\<close>

lemma stalled_evloop:
  assumes "stalled (l, w)" and "evloop_run client as (l, w) = Some s'"
  shows "\<exists>m. s' = (l, w\<lparr>store := m\<rparr>)"
  using assms
proof (induction as arbitrary: w)
  case Nil
  then show ?case by (intro exI[of _ "store w"]) simp
next
  case (Cons a as)
  have "zt_deliver client env out f w = None" for env out f
    using Cons.prems(1) zone_tick.idle_silent[of w client "(f, env, out)"]
    by (simp add: stalled_def loop_inv_def service_deliver_def)
  then obtain m where "a = Database m" using Cons.prems(2) by (cases a) auto
  then show ?case
    using Cons.IH[OF stalled_store[OF Cons.prems(1), of m]] Cons.prems(2) by (auto simp: service_reports_def)
qed

lemma stalled_start: "stalled s \<Longrightarrow> start_tick env s = Some s"
  by (cases s) (simp add: stalled_def start_tick_def)

lemma stalled_timed:
  assumes "stalled (l, w)" and "timed_loop A client ts (l, w) = Some r"
  shows "\<exists>m. r = Inl (l, w\<lparr>store := m\<rparr>) \<or> r = Inr (l, w\<lparr>store := m\<rparr>)"
  using assms
proof (induction ts arbitrary: w)
  case Nil
  then show ?case by (intro exI[of _ "store w"]) simp
next
  case (Cons a ts)
  obtain now turn where a: "a = (now, turn)" by (cases a)
  show ?case
  proof (cases "lt A (now_sec A now) (deadline l)")
    case True
    then obtain s where s: "evloop_run client (turn_arrivals turn) (l, w) = Some s" "timed_loop A client ts s = Some r"
      using Cons.prems(2) stalled_start[OF Cons.prems(1)] by (auto simp: a bind_eq_Some_conv)
    obtain m where m: "s = (l, w\<lparr>store := m\<rparr>)" using stalled_evloop[OF Cons.prems(1) s(1)] by blast
    show ?thesis using Cons.IH[OF stalled_store[OF Cons.prems(1), of m]] s(2) by (auto simp: m)
  next
    case False
    then show ?thesis using Cons.prems(2) by (intro exI[of _ "store w"]) (simp add: a)
  qed
qed

lemma stalled_drain:
  assumes "stalled (l, w)" and "drain_loop A client ds (l, w) = Some (Inr s')"
  shows "(\<exists>m. s' = (l, w\<lparr>store := m\<rparr>)) \<and>
    (\<exists>(t, as) \<in> set ds. \<not> lt A (now_sec A t) (add A (deadline l) (lit A 2)))"
  using assms
proof (induction ds arbitrary: w)
  case Nil
  then show ?case by (simp add: stalled_def)
next
  case (Cons a ds)
  obtain t as where a: "a = (t, as)" by (cases a)
  have fl: "in_flight l" using Cons.prems(1) by (simp add: stalled_def)
  show ?case
  proof (cases "lt A (now_sec A t) (add A (deadline l) (lit A 2))")
    case True
    then obtain s where s: "evloop_run client as (l, w) = Some s" "drain_loop A client ds s = Some (Inr s')"
      using Cons.prems(2) fl by (auto simp: a bind_eq_Some_conv)
    obtain m where m: "s = (l, w\<lparr>store := m\<rparr>)" using stalled_evloop[OF Cons.prems(1) s(1)] by blast
    show ?thesis using Cons.IH[OF stalled_store[OF Cons.prems(1), of m]] s(2) by (auto simp: m)
  next
    case False
    then have "s' = (l, w)" using Cons.prems(2) by (simp add: a)
    then show ?thesis using False by (auto simp: a intro: exI[of _ "store w"])
  qed
qed

lemma refused_stalls:
  assumes "loop_inv (l, w)" and "\<not> in_flight l" and "calloc_null env \<or> create_error env \<noteq> 0"
  shows "\<exists>w'. start_tick env (l, w) = Some (l\<lparr>in_flight := True\<rparr>, w') \<and> same_but_log w w' \<and>
    stalled (l\<lparr>in_flight := True\<rparr>, w')"
proof -
  have zi: "zt_inv {} {} w" and db: "db (fdb_state w) \<noteq> None" and heap: "ctx_heap w = Map.empty"
    using assms(1,2) by (auto simp: loop_inv_def service_inv_def service_live_def)
  obtain w' where r: "zf_zonetick_run env (loop_z_id l) 1 (Some ON_TICK_DONE) LOOP_CTX w = Some (-1, w')"
    and sb: "same_but_log w w'"
    using run_refused[OF zi db assms(3), of "loop_z_id l" 1 "Some ON_TICK_DONE" LOOP_CTX] by blast
  have st: "start_tick env (l, w) = Some (l\<lparr>in_flight := True\<rparr>, w')"
    using r assms(2) frame_same_but_log(3)[OF sb] by (simp add: start_tick_def service_reports_def)
  then show ?thesis
    using start_one(1)[OF assms(1) st] sb heap frame_same_but_log(1)[OF sb]
    by (simp add: stalled_def service_live_def)
qed

text \<open>C38: a run that is refused stalls the measurement. If \<open>zf_zonetick_run\<close> returns -1 (no
  memory, or no transaction) in some turn of the loop, then, since its result is not looked
  at, the flag stays set with no tick behind it: whatever happens in the later turns, no
  further tick is started, neither counter changes and no completion is ever reported, and
  the drain loop ends only by its time limit and changes nothing either. (What other processes
  write to the database meanwhile is the only thing that may change.)\<close>

theorem refused_run_stalls:
  assumes "zt_initial w" and "\<not> in_flight l" "ticks_done l = 0" "ticks_failed l = 0"
    and "timed_loop A client ts (l, w) = Some (Inl (l1, w1))" and "\<not> in_flight l1"
    and "calloc_null (turn_run turn) \<or> create_error (turn_run turn) \<noteq> 0" and "lt A (now_sec A now) (deadline l1)"
    and "timed_loop A client ((now, turn) # us) (l1, w1) = Some r" and "r = Inl (l2, w2) \<or> r = Inr (l2, w2)"
  shows "l2 = l1\<lparr>in_flight := True\<rparr> \<and> done_log w2 = done_log w1 \<and> ctx_heap w2 = Map.empty \<and>
    (drain_loop A client ds (l2, w2) = Some (Inr s) \<longrightarrow>
       (\<exists>m. s = (l2, w2\<lparr>store := m\<rparr>)) \<and>
       (\<exists>(t, as) \<in> set ds. \<not> lt A (now_sec A t) (add A (deadline l2) (lit A 2))))"
proof -
  let ?l = "l1\<lparr>in_flight := True\<rparr>"
  have "loop_inv (l1, w1)" by (rule timed_one[OF loop_inv_start[OF assms(1-4)] assms(5)]) simp
  then obtain w' where st: "start_tick (turn_run turn) (l1, w1) = Some (?l, w')"
    and sb: "same_but_log w1 w'" and sd: "stalled (?l, w')"
    using refused_stalls assms(6,7) by blast
  obtain s1 where s1: "evloop_run client (turn_arrivals turn) (?l, w') = Some s1" "timed_loop A client us s1 = Some r"
    using assms(8,9) st by (auto simp: bind_eq_Some_conv)
  obtain m where m: "s1 = (?l, w'\<lparr>store := m\<rparr>)" using stalled_evloop[OF sd s1(1)] by blast
  obtain m' where w2: "(l2, w2) = (?l, w'\<lparr>store := m'\<rparr>)"
    using stalled_timed[OF stalled_store[OF sd, of m] s1(2)[unfolded m]] assms(10) by auto
  have sd2: "stalled (l2, w2)" using stalled_store[OF sd, of m'] w2 by simp
  then show ?thesis
    using w2 frame_same_but_log(3)[OF sb] stalled_drain[OF sd2, of A client ds s] by (auto simp: stalled_def service_live_def)
qed

subsection \<open>The end of the measurement\<close>

lemma timed_ends:
  assumes "loop_inv s" and "(now, turn) \<in> set ts" and "\<not> lt A (now_sec A now) (deadline (fst s))"
  shows "timed_loop A client ts s \<noteq> Some (Inl s')"
  using assms
proof (induction A client ts s rule: timed_loop.induct)
  case (2 A client t u ts s)
  show ?case
  proof
    assume run: "timed_loop A client ((t, u) # ts) s = Some (Inl s')"
    then have lt: "lt A (now_sec A t) (deadline (fst s))" by (auto split: if_splits)
    with run obtain s1 s2 where s1: "start_tick (turn_run u) s = Some s1"
      and s2: "evloop_run client (turn_arrivals u) s1 = Some s2" and r: "timed_loop A client ts s2 = Some (Inl s')"
      by (auto simp: bind_eq_Some_conv)
    have "loop_inv s2" "deadline (fst s2) = deadline (fst s)"
      using evloop_one[OF start_one(1)[OF 2(2) s1] s2] start_one(2)[OF 2(2) s1] by simp_all
    then show False using 2(1)[OF lt s1 s2] 2(3,4) lt r by auto
  qed
qed simp

lemma start_total:
  assumes "loop_inv s"
  shows "\<exists>s'. start_tick env s = Some s'"
proof -
  obtain l w where s: "s = (l, w)" by force
  show ?thesis
    using zone_tick.run_defined[of w env "loop_z_id l" 1 ON_TICK_DONE LOOP_CTX] assms
    by (auto simp: start_tick_def s loop_inv_def Let_def)
qed

lemma timed_defined:
  assumes "loop_inv s" and "\<forall>(t, u) \<in> set ts. turn_arrivals u = []"
  shows "\<exists>r. timed_loop A client ts s = Some r"
  using assms
proof (induction ts arbitrary: s)
  case (Cons a ts)
  obtain t u where a: "a = (t, u)" by (cases a)
  obtain s1 where s1: "start_tick (turn_run u) s = Some s1" using start_total[OF Cons.prems(1)] by blast
  show ?case
    using Cons.IH[OF start_one(1)[OF Cons.prems(1) s1]] Cons.prems(2) s1 by (simp add: a)
qed simp

lemma silent_not_done:
  assumes "timed_loop A client ts s = Some (Inr s')" "loop_inv s" "\<forall>(t, u) \<in> set ts. turn_arrivals u = []"
  shows "ticks_done (fst s') = ticks_done (fst s)"
  using assms
proof (induction ts arbitrary: s)
  case (Cons a ts)
  obtain t u where a: "a = (t, u)" by (cases a)
  show ?case
  proof (cases "lt A (now_sec A t) (deadline (fst s))")
    case True
    then obtain s1 where s1: "start_tick (turn_run u) s = Some s1" "timed_loop A client ts s1 = Some (Inr s')"
      using Cons.prems(1,3) by (auto simp: a bind_eq_Some_conv)
    then show ?thesis
      using Cons.IH[OF s1(2) start_one(1)[OF Cons.prems(2) s1(1)]] Cons.prems(3)
        start_one(3)[OF Cons.prems(2) s1(1)] by simp
  next
    case False
    then show ?thesis using Cons.prems(1) by (simp add: a)
  qed
qed simp

text \<open>C39: the measurement ends by the clock. As soon as one of the readings is not before the
  deadline, the loop is not running any more, whatever the client answered; and if the
  database never answers at all, so that no future is ever delivered, the loop has no
  undefined behaviour and ends, with no tick counted as done.\<close>

theorem measurement_ends:
  assumes "zt_initial w" and "\<not> in_flight l" "ticks_done l = 0" "ticks_failed l = 0"
    and "(now, turn) \<in> set ts" and "\<not> lt A (now_sec A now) (deadline l)"
  shows "(\<forall>s. timed_loop A client ts (l, w) \<noteq> Some (Inl s)) \<and>
    ((\<forall>(t, u) \<in> set ts. turn_arrivals u = []) \<longrightarrow>
      (\<exists>l' w'. timed_loop A client ts (l, w) = Some (Inr (l', w')) \<and> ticks_done l' = 0))"
proof (intro conjI allI impI)
  note inv = loop_inv_start[OF assms(1-4)]
  show ends: "timed_loop A client ts (l, w) \<noteq> Some (Inl s)" for s
    using timed_ends[OF inv assms(5)] assms(6) by simp
  assume silent: "\<forall>(t, u) \<in> set ts. turn_arrivals u = []"
  obtain r where r: "timed_loop A client ts (l, w) = Some r" using timed_defined[OF inv silent] by blast
  obtain l' w' where r': "r = Inr (l', w')" using ends r by (cases r) auto
  show "\<exists>l' w'. timed_loop A client ts (l, w) = Some (Inr (l', w')) \<and> ticks_done l' = 0"
    using r r' silent_not_done[OF _ inv silent] assms(3) by fastforce
qed

subsection \<open>A sample run\<close>

text \<open>Zone 7 with a stack full of 0xAA; every call of the client succeeds.\<close>

definition sample_direct :: direct_env where
  "sample_direct = \<lparr>direct_create_error = 0, direct_env = good_env, direct_out = sample_done,
     stack_key = (\<lambda>_. replicate 32 0xAA), stack_value = (\<lambda>_. replicate 256 0xAA)\<rparr>"

definition sample_loop :: "real tick_loop_ctx_t" where
  "sample_loop = \<lparr>loop_z_id = 7, ticks_done = 0, ticks_failed = 0, in_flight = False, deadline = 5\<rparr>"

definition quiet_turn :: turn where
  "quiet_turn = \<lparr>turn_run = good_renv, turn_arrivals = []\<rparr>"

definition refused_turn :: turn where
  "refused_turn = \<lparr>turn_run = good_renv\<lparr>calloc_null := True\<rparr>, turn_arrivals = []\<rparr>"

definition sample_tool :: "real tool_env" where
  "sample_tool = \<lparr>tool_atof = (\<lambda>_. 0), tool_boot = sample_boot_env, tool_world = sample_w0,
     tool_direct = sample_direct, get_value = sample_store, time_start = (0, 0), timed_turns = [], drain_turns = [],
     time_end = (0, 0)\<rparr>"

definition probe_opts :: "real tool_opts" where
  "probe_opts = (tool_defaults exact)\<lparr>opt_zone := 7, opt_probe_only := True\<rparr>"

lemma sample_direct_ok [simp]: "seed_ok sample_direct" "out_error (direct_out sample_direct) = 0"
  "out_applied (direct_out sample_direct)"
  by (simp_all add: sample_direct_def seed_ok_def stack_ok_def good_env_def)

lemma sample_fresh [simp]: "handles_fresh sample_w0"
  by (simp add: sample_w0_def handles_fresh_def)

lemma now_sec_exact [simp]: "now_sec exact (s, ns) = real_of_int s + real_of_int ns / 10 ^ 9"
  by (simp add: now_sec_def)

lemma sample_loop_idle: "\<not> in_flight sample_loop" "ticks_done sample_loop = 0" "ticks_failed sample_loop = 0"
  "deadline sample_loop = 5"
  by (simp_all add: sample_loop_def)

theorem seeded_zone_witness:
  "\<exists>w' v. seed_entities reference_client sample_direct 7 2 sample_w0 = Some (0, w') \<and>
     store w' (entity_key 7 1) = Some v \<and> length v = 104 \<and> pos_um_x (stored_packet v) = 1000 \<and>
     store w' (entity_key 8 1) = store sample_w0 (entity_key 8 1)"
proof -
  obtain w' where w': "seed_entities reference_client sample_direct 7 2 sample_w0 = Some (0, w')"
    "\<forall>e < 2. \<exists>v. store w' (entity_key 7 e) = Some v \<and> length v = 104 \<and>
       stored_packet v = packet_zero\<lparr>global_id := e, pos_um_x := word_of_int (1000 * uint e), vel_x := 100\<rparr>"
    "\<forall>key. (\<forall>e < 2. key \<noteq> entity_key 7 e) \<longrightarrow> store w' key = store sample_w0 key"
    using seeded_zone[OF reference_client_documented sample_initial(6) sample_fresh sample_direct_ok, of 7 2]
    by blast
  have "(1 :: u32) < 2" by simp
  then obtain v where "store w' (entity_key 7 1) = Some v" "length v = 104" "pos_um_x (stored_packet v) = 1000"
    using w'(2) by fastforce
  then show ?thesis using w'(1,3) by auto
qed

lemma sample_tool_accepted: "tool_accepted exact sample_tool [''-z7'', ''-P''] probe_opts"
  by (simp add: tool_accepted_def tool_spec_def probe_opts_def tool_defaults_def sample_tool_def c_atol_def
      c_strtol_def is_space_def is_digit_def digits_value_def)

theorem probe_run_witness:
  "\<exists>b w'. throughput_main exact reference_client sample_tool [''-z7'', ''-P''] =
     Some (Tool_Exited 0 b w' [Printed_Probe (Probe_Not_Found 7 0)]) \<and> store w' = store sample_w0"
proof -
  have "sample_store (entity_key 7 0) = None" by (simp add: sample_store_def)
  moreover have "client_gets reference_client" by (simp add: client_gets_def)
  ultimately show ?thesis
    using probe_run[OF sample_tool_accepted, of 100 reference_client]
    by (auto simp: probe_opts_def sample_tool_def sample_boot_env_def boot_ok_def probe_result_def)
qed

theorem one_tick_in_flight_witness:
  "\<exists>l' w'. timed_loop exact reference_client [((0, 0), quiet_turn)] (sample_loop, sample_w0) = Some (Inl (l', w')) \<and>
     card (dom (ctx_heap w')) \<le> 1 \<and> ticks_done l' + ticks_failed l' = word_of_nat (length (done_log w'))"
proof -
  obtain s where st: "start_tick good_renv (sample_loop, sample_w0) = Some s"
    using start_total[OF loop_inv_start[OF sample_initial(1) sample_loop_idle(1-3)]] by blast
  obtain l' w' where s: "s = (l', w')" by force
  have r: "timed_loop exact reference_client [((0, 0), quiet_turn)] (sample_loop, sample_w0) = Some (Inl (l', w'))"
    using st by (simp add: quiet_turn_def sample_loop_idle s)
  show ?thesis
    using one_tick_in_flight[OF sample_initial(1) sample_loop_idle(1-3) r, of "(l', w')" "(l', w')" l' w' "[]"] r
    by blast
qed

theorem refused_run_stalls_witness:
  "timed_loop exact reference_client [((0, 0), refused_turn)] (sample_loop, sample_w0) =
     Some (Inl (sample_loop\<lparr>in_flight := True\<rparr>, sample_w0)) \<and>
   drain_loop exact reference_client [((6, 0), []), ((8, 0), [])] (sample_loop\<lparr>in_flight := True\<rparr>, sample_w0) =
     Some (Inr (sample_loop\<lparr>in_flight := True\<rparr>, sample_w0)) \<and>
   (\<exists>(t, as) \<in> set [((6, 0), []), ((8, 0) :: timespec, [] :: arrival list)]. \<not> lt exact (now_sec exact t) (7 :: real))"
proof -
  let ?l = "sample_loop\<lparr>in_flight := True\<rparr>"
  have r: "timed_loop exact reference_client [((0, 0), refused_turn)] (sample_loop, sample_w0) = Some (Inl (?l, sample_w0))"
    by (simp add: refused_turn_def sample_loop_idle start_tick_def zf_zonetick_run_def)
  have d: "drain_loop exact reference_client [((6, 0), []), ((8, 0), [])] (?l, sample_w0) = Some (Inr (?l, sample_w0))"
    by (simp add: sample_loop_idle)
  have pre: "timed_loop exact reference_client [] (sample_loop, sample_w0) = Some (Inl (sample_loop, sample_w0))"
    "lt exact (now_sec exact (0, 0)) (deadline sample_loop)" "calloc_null (turn_run refused_turn) \<or> create_error (turn_run refused_turn) \<noteq> 0"
    by (simp_all add: sample_loop_idle refused_turn_def)
  have "\<exists>(t, as) \<in> set [((6, 0), []), ((8, 0) :: timespec, [] :: arrival list)]. \<not> lt exact (now_sec exact t) (add exact (deadline ?l) (lit exact 2))"
    using refused_run_stalls[OF sample_initial(1) sample_loop_idle(1-3) pre(1) sample_loop_idle(1) pre(3,2) r,
        of ?l sample_w0 "[((6, 0), []), ((8, 0), [])]" "(?l, sample_w0)"] d by blast
  then show ?thesis using r d by (simp add: sample_loop_idle)
qed

theorem measurement_ends_witness:
  "\<exists>l' w'. timed_loop exact reference_client [((0, 0), quiet_turn), ((9, 0), quiet_turn)] (sample_loop, sample_w0) =
     Some (Inr (l', w')) \<and> ticks_done l' = 0"
  using measurement_ends[OF sample_initial(1) sample_loop_idle(1-3), of "(9, 0)" quiet_turn
      "[((0, 0), quiet_turn), ((9, 0), quiet_turn)]" exact reference_client]
  by (simp add: sample_loop_idle quiet_turn_def del: timed_loop.simps)

end
