(* ===== verification/Throughput_History.thy ===== *)
theory Throughput_History
  imports Throughput_Loop Zonetick_Atomic
begin

text \<open>
  The run of the throughput tool's loops as a history of the zone tick: what the client does while
  the loops run are documented steps, all the ticks are of one zone, and the count of the loop
  is the number of successes reported.
\<close>

subsection \<open>The history of a measurement\<close>

text \<open>The arrivals of a run of the loops, as steps of a history: what the client does is documented.\<close>

type_synonym hist = "zt_event list \<times> attempt list"

fun evloop_hist :: "fdb_client \<Rightarrow> (fdb_request \<Rightarrow> fdb_outcome \<Rightarrow> bool) \<Rightarrow> arrival list \<Rightarrow> hist_state \<Rightarrow> hist_state
    \<Rightarrow> bool" where
  "evloop_hist client ok [] s s' \<longleftrightarrow> s' = s"
| "evloop_hist client ok (a # as) s s' \<longleftrightarrow> (\<exists>s1. hist_step client ok a s s1 \<and> evloop_hist client ok as s1 s')"

fun timed_hist :: "'d arith \<Rightarrow> fdb_client \<Rightarrow> (fdb_request \<Rightarrow> fdb_outcome \<Rightarrow> bool) \<Rightarrow> (timespec \<times> turn) list
    \<Rightarrow> hist \<Rightarrow> 'd loop_state \<Rightarrow> hist \<Rightarrow> bool" where
  "timed_hist A client ok [] h s h' \<longleftrightarrow> h' = h"
| "timed_hist A client ok ((now, turn) # ts) h s h' \<longleftrightarrow>
     (if lt A (now_sec A now) (deadline (fst s))
      then (\<exists>s1 s2 h2. start_tick (turn_run turn) s = Some s1 \<and>
              evloop_run client (turn_arrivals turn) s1 = Some s2 \<and>
              evloop_hist client ok (turn_arrivals turn) (h, snd s1) (h2, snd s2) \<and>
              timed_hist A client ok ts h2 s2 h')
      else h' = h)"

fun drain_hist :: "'d arith \<Rightarrow> fdb_client \<Rightarrow> (fdb_request \<Rightarrow> fdb_outcome \<Rightarrow> bool) \<Rightarrow> (timespec \<times> arrival list) list
    \<Rightarrow> hist \<Rightarrow> 'd loop_state \<Rightarrow> hist \<Rightarrow> bool" where
  "drain_hist A client ok [] h s h' \<longleftrightarrow> h' = h"
| "drain_hist A client ok ((now, as) # ts) h s h' \<longleftrightarrow>
     (if in_flight (fst s) \<and> lt A (now_sec A now) (add A (deadline (fst s)) (lit A 2))
      then (\<exists>s2 h2. evloop_run client as s = Some s2 \<and> evloop_hist client ok as (h, snd s) (h2, snd s2) \<and>
              drain_hist A client ok ts h2 s2 h')
      else h' = h)"

text \<open>A history without foreign writes in which every read was complete when its commit was applied.\<close>

fun undisturbed :: "zt_event list \<Rightarrow> (bytes \<rightharpoonup> bytes) \<Rightarrow> bool" where
  "undisturbed [] m \<longleftrightarrow> True"
| "undisturbed (e # es) m \<longleftrightarrow>
     (case e of
        Ticked g z n stale kvs \<Rightarrow> range_current z kvs (apply_writes stale m)
      | Wrote m' \<Rightarrow> False
      | _ \<Rightarrow> True) \<and> undisturbed es (apply_event e m)"

subsection \<open>The ticks of one zone\<close>

definition zone_ticks :: "u32 \<Rightarrow> zt_world \<Rightarrow> bool" where
  "zone_ticks z w \<longleftrightarrow> (\<forall>c x. ctx_heap w c = Some x \<longrightarrow> z_id x = z \<and> tick_count x = 1)"

lemma zone_ticks_deliver:
  assumes "zt_inv {} {} w" "zone_ticks z w" "zt_deliver client env out f w = Some w'"
  shows "zone_ticks z w'"
proof -
  obtain c p where wt: "waits w f c p" by (rule deliver_waiting[OF assms(1,3)])
  obtain x t where x: "ctx_heap w c = Some x"
    and af: "tick_after (zt_protocol env out p t (z_id x)) c x w w'"
    and fr: "\<forall>c'. c' \<noteq> c \<longrightarrow> ctx_heap w' c' = ctx_heap w c'"
    by (rule deliver_protocol[OF assms(1) wt assms(3)])
  have "ctx_heap w' c = Some x \<or> ctx_heap w' c = None"
    using af by (auto simp: tick_after_def split: tick_effect.splits)
  then have "ctx_heap w c' = Some x'" if "ctx_heap w' c' = Some x'" for c' x'
    using that x fr by (cases "c' = c") auto
  then show ?thesis using assms(2) by (auto simp: zone_ticks_def)
qed

fun zone_event :: "u32 \<Rightarrow> zt_event \<Rightarrow> bool" where
  "zone_event z (Ticked g z' n stale kvs) \<longleftrightarrow> z' = z \<and> n = 1"
| "zone_event z (Told g z' n rs) \<longleftrightarrow> length rs = 1"
| "zone_event z _ \<longleftrightarrow> True"

definition zone_hist :: "u32 \<Rightarrow> hist \<Rightarrow> bool" where
  "zone_hist z h \<longleftrightarrow> (case h of (es, as) \<Rightarrow> list_all (zone_event z) es \<and>
     list_all (\<lambda>a. at_zone a = z \<and> at_count a = 1) as)"

lemma zone_hist_step:
  assumes inv: "service_inv w" and client: "client_documented client" and zt: "zone_ticks z w" and zh: "zone_hist z h"
    and st: "hist_step client ok a (h, w) (h', w')"
  shows "zone_hist z h' \<and> zone_ticks z w'"
  using st
proof cases
  case (deliver f req out es env as)
  have zi: "zt_inv {} {} w" using inv by (simp add: service_inv_def)
  obtain c p x t y where wt: "waits w f c p" and x: "ctx_heap w c = Some x" "tr x = Some t"
    and y: "transactions w t = Some y" and af: "tick_after (zt_protocol env out p t (z_id x)) c x w w'"
    by (rule delivery_facts[OF zi client deliver(4,8)])
  have "z_id x = z" "tick_count x = 1" using zt x by (simp_all add: zone_ticks_def)
  moreover obtain d where "done_cb x = Some d" using inv x by (auto simp: service_inv_def)
  ultimately have "zone_hist z h'"
    using zh delivery_events_eq[OF wt x(1), of env out] delivery_commits_eq[OF zi client wt deliver(8) x y af]
    by (simp add: deliver zone_hist_def report_def)
  then show ?thesis using zone_ticks_deliver[OF zi zt deliver(8)] by simp
next
  case (commit a m es as bs)
  then show ?thesis using zh zt by (simp add: zone_hist_def zone_ticks_def commit_event_def)
next
  case (other m es as)
  then show ?thesis using zh zt by (simp add: zone_hist_def zone_ticks_def)
qed

subsection \<open>The count\<close>

abbreviation successes :: "zt_world \<Rightarrow> nat" where
  "successes w \<equiv> count_list (service_reports w) True"

text \<open>The run of the loop is a history of ticks of one zone, and the count of the loop is the number
  of successes reported.\<close>

definition count_inv :: "fdb_client \<Rightarrow> (fdb_request \<Rightarrow> fdb_outcome \<Rightarrow> bool) \<Rightarrow> zt_world \<Rightarrow> u32 \<Rightarrow> hist
    \<Rightarrow> 'd loop_state \<Rightarrow> bool" where
  "count_inv client ok w0 z h s \<longleftrightarrow> loop_inv s \<and> (case s of (l, w) \<Rightarrow> loop_z_id l = z \<and>
     zt_history client ok w0 (h, w) \<and> zone_ticks z w \<and> zone_hist z h \<and> ticks_done l = word_of_nat (successes w))"

lemma count_invD:
  assumes "count_inv client ok w0 z h (l, w)"
  shows "loop_inv (l, w)" "service_inv w" "zt_inv {} {} w" "db (fdb_state w) \<noteq> None" "loop_z_id l = z"
    "zt_history client ok w0 (h, w)" "zone_ticks z w" "zone_hist z h" "ticks_done l = word_of_nat (successes w)"
proof -
  show inv: "loop_inv (l, w)" using assms by (simp add: count_inv_def)
  then show "service_inv w" "zt_inv {} {} w" "db (fdb_state w) \<noteq> None"
    by (simp_all add: loop_inv_def service_inv_def)
qed (use assms in \<open>simp_all add: count_inv_def\<close>)

lemma fold_on_tick_done:
  "ticks_done (fold on_tick_done bs l) = ticks_done l + word_of_nat (count_list bs True)"
  "loop_z_id (fold on_tick_done bs l) = loop_z_id l"
  by (induction bs arbitrary: l) (simp_all add: on_tick_done_def Let_def)

text \<open>Any step that only adds reports keeps the count.\<close>

lemma count_step:
  assumes "count_inv client ok w0 z h (l, w)" "loop_inv (completions w w' l1, w')"
    and "zt_history client ok w0 (h', w')" "zone_ticks z w'" "zone_hist z h'"
    and "service_reports w' = service_reports w @ rep" "loop_z_id l1 = loop_z_id l" "ticks_done l1 = ticks_done l"
  shows "count_inv client ok w0 z h' (completions w w' l1, w')"
proof -
  have "completions w w' l1 = fold on_tick_done rep l1" using assms(6) by (simp add: completions_reports)
  then show ?thesis
    using assms(2-8) count_invD(5,9)[OF assms(1)] by (simp add: count_inv_def fold_on_tick_done)
qed

lemma start_counts:
  assumes inv: "count_inv client ok w0 z h s" and st: "start_tick env s = Some s'"
  shows "count_inv client ok w0 z h s'"
proof -
  obtain l w where s: "s = (l, w)" by force
  note D = count_invD[OF inv[unfolded s]]
  show ?thesis
  proof (cases "in_flight l")
    case True
    then show ?thesis using st inv by (simp add: start_tick_def s)
  next
    case False
    obtain r w' where run: "zf_zonetick_run env (loop_z_id l) 1 (Some ON_TICK_DONE) LOOP_CTX w = Some (r, w')"
      and s': "s' = (completions w w' (l\<lparr>in_flight := True\<rparr>), w')"
      using st False by (auto simp: start_tick_def s Let_def split: bind_splits)
    have li: "loop_inv s'" using start_one(1)[OF D(1)] st s by simp
    obtain rep where rep: "service_reports w' = service_reports w @ rep"
      using service_run[OF D(2) run] by force
    have "zone_ticks z w'"
      using D(3,4) run
    proof (cases rule: run_cases)
      case refused
      then show ?thesis using D(7) frame_same_but_log(1)[of w w'] by (simp add: zone_ticks_def)
    next
      case waiting
      then show ?thesis using D(5,7) by (simp add: zone_ticks_def)
    next
      case (ended w1)
      then show ?thesis
        using D(7) frame_same_but_log(1)[OF ended(2)] by (simp add: zone_ticks_def finished_def)
    qed
    then show ?thesis
      using count_step[OF inv[unfolded s] li[unfolded s'] zt_history.run[OF D(6) run] _ D(8) rep] by (simp add: s')
  qed
qed

lemma arrive_counts:
  assumes inv: "count_inv client ok w0 z h (l, w)" and client: "client_documented client"
    and st: "hist_step client ok a (h, w) (h', w')"
  shows "count_inv client ok w0 z h' (completions w w' l, w')"
proof -
  note D = count_invD[OF inv] and arr = hist_step_arrives[OF st]
  have rep: "\<exists>rep. service_reports w' = service_reports w @ rep"
  proof (cases a)
    case (Delivery f env out)
    then show ?thesis using service_delivery[OF D(2), of client env out f w'] arr by auto
  next
    case (Database m)
    then show ?thesis using arr by (auto simp: service_reports_def)
  qed
  show ?thesis
    using rep arrive_one[OF D(1) arr] zt_history.arrive[OF D(6) st] zone_hist_step[OF D(2) client D(7,8) st]
    by (elim exE conjE) (rule count_step[OF inv]; simp)
qed

lemma evloop_counts:
  assumes "count_inv client ok w0 z h s" "client_documented client"
    and "evloop_hist client ok as (h, snd s) (h', w')" "evloop_run client as s = Some s'"
  shows "count_inv client ok w0 z h' s'"
  using assms(1,3,4)
proof (induction as arbitrary: h s)
  case (Cons a as)
  obtain l w where s: "s = (l, w)" by force
  obtain h1 w1 where st: "hist_step client ok a (h, w) (h1, w1)" "evloop_hist client ok as (h1, w1) (h', w')"
    using Cons.prems(2) by (auto simp: s)
  have "evloop_run client as (completions w w1 l, w1) = Some s'"
    using Cons.prems(3) hist_step_arrives[OF st(1)] by (simp add: s)
  then show ?case
    using Cons.IH[OF arrive_counts[OF Cons.prems(1)[unfolded s] assms(2) st(1)]] st(2) by simp
qed simp

lemma timed_counts:
  assumes "count_inv client ok w0 z h s" "client_documented client" "timed_hist A client ok ts h s h'"
    and "timed_loop A client ts s = Some r" "r = Inl s' \<or> r = Inr s'"
  shows "count_inv client ok w0 z h' s'"
  using assms(1,3,4)
proof (induction ts arbitrary: h s)
  case Nil
  then show ?case using assms(5) by auto
next
  case (Cons a ts)
  obtain now turn where a: "a = (now, turn)" by (cases a)
  show ?case
  proof (cases "lt A (now_sec A now) (deadline (fst s))")
    case True
    then obtain s1 s2 h2 where s1: "start_tick (turn_run turn) s = Some s1"
      and s2: "evloop_run client (turn_arrivals turn) s1 = Some s2"
        "evloop_hist client ok (turn_arrivals turn) (h, snd s1) (h2, snd s2)"
      and th: "timed_hist A client ok ts h2 s2 h'"
      using Cons.prems(2) by (auto simp: a)
    have "timed_loop A client ts s2 = Some r" using Cons.prems(3) True s1 s2 by (simp add: a)
    then show ?thesis
      using Cons.IH[OF evloop_counts[OF start_counts[OF Cons.prems(1) s1] assms(2) s2(2,1)] th] by simp
  next
    case False
    then show ?thesis using Cons.prems assms(5) by (auto simp: a)
  qed
qed

lemma drain_counts:
  assumes "count_inv client ok w0 z h s" "client_documented client" "drain_hist A client ok ds h s h'"
    and "drain_loop A client ds s = Some (Inr s')"
  shows "count_inv client ok w0 z h' s'"
  using assms(1,3,4)
proof (induction ds arbitrary: h s)
  case Nil
  then show ?case by (auto split: if_splits)
next
  case (Cons a ds)
  obtain now as where a: "a = (now, as)" by (cases a)
  show ?case
  proof (cases "in_flight (fst s) \<and> lt A (now_sec A now) (add A (deadline (fst s)) (lit A 2))")
    case True
    then obtain s2 h2 where s2: "evloop_run client as s = Some s2"
        "evloop_hist client ok as (h, snd s) (h2, snd s2)" and dh: "drain_hist A client ok ds h2 s2 h'"
      using Cons.prems(2) by (auto simp: a)
    have "drain_loop A client ds s2 = Some (Inr s')" using Cons.prems(3) True s2 by (simp add: a)
    then show ?thesis using Cons.IH[OF evloop_counts[OF Cons.prems(1) assms(2) s2(2,1)] dh] by simp
  next
    case False
    then show ?thesis using Cons.prems by (auto simp: a)
  qed
qed

lemma count_inv_start:
  assumes "zt_initial w" "\<not> in_flight l" "ticks_done l = 0" "ticks_failed l = 0"
  shows "count_inv client ok w (loop_z_id l) ([], []) (l, w)"
  using loop_inv_start[OF assms] assms(1,3) zt_history.start[OF assms(1)]
  by (simp add: count_inv_def zt_initial_def zone_ticks_def zone_hist_def service_reports_def)

end
