(* ===== verification/Throughput_Count.thy ===== *)
theory Throughput_Count
  imports Throughput_History
begin

text \<open>
  What the number the throughput tool prints means: across the seeding, the measuring loop, the
  zone tick and the database, the count of successful ticks against the number of times the
  zone in the database has been advanced.
\<close>

subsection \<open>Counting the commits\<close>

lemma count_true: "count_list (map (\<lambda>(d, u, ok). ok) rs) True = length (filter (\<lambda>(d, u, ok). ok) rs)"
  by (induction rs) auto

lemma reports_told:
  "list_all (zone_event z) es \<Longrightarrow> length (concat (map event_reports es)) = length (told es)"
proof (induction es)
  case (Cons e es)
  then show ?case by (cases e) simp_all
qed simp

lemma told_applied:
  assumes "told_after es" "g \<in> set (told es)"
  shows "g \<in> set (applied es)"
proof -
  obtain e where e: "e \<in> set es" "g \<in> set (told_id e)" using assms(2) by (auto simp: told_def)
  have "\<exists>z n rs. e = Told g z n rs" using e(2) by (cases e) auto
  then obtain z n rs es1 es2 where es: "es = es1 @ Told g z n rs # es2" using split_list[OF e(1)] by blast
  then obtain stale kvs where "Ticked g z n stale kvs \<in> set es1" using assms(1) unfolding told_after_def by blast
  then show ?thesis by (force simp: es applied_def)
qed

lemma waiting_card:
  assumes inv: "loop_inv (l, w)"
  shows "finite {f. \<exists>c. waits w f c p}" "card {f. \<exists>c. waits w f c p} \<le> card (dom (ctx_heap w))"
proof -
  have zi: "zt_inv {} {} w" and one: "dom (ctx_heap w) = {} \<or> (\<exists>c. dom (ctx_heap w) = {c})"
    using inv by (auto simp: loop_inv_def service_inv_def service_live_def)
  have live: "c \<in> dom (ctx_heap w)" if "waits w f c p" for f c
    by (rule waits_tick[OF zi that]) auto
  have "{f. \<exists>c. waits w f c p} = {} \<or> dom (ctx_heap w) \<noteq> {} \<and> (\<exists>g. {f. \<exists>c. waits w f c p} = {g})"
  proof (cases "{f. \<exists>c. waits w f c p} = {}")
    case False
    then obtain g c where g: "waits w g c p" by blast
    then obtain c0 where "dom (ctx_heap w) = {c0}" using one live by blast
    then have "f = g" if "waits w f c' p" for f c'
      using waits_unique[OF zi, of f c p g p] that g live[OF that] live[OF g] by auto
    then show ?thesis using g live[OF g] by blast
  qed simp
  then show "finite {f. \<exists>c. waits w f c p}" "card {f. \<exists>c. waits w f c p} \<le> card (dom (ctx_heap w))"
    using one by auto
qed

text \<open>The successes are at most the commits applied, and fall short of them only by the commits whose
  result was lost and the one still waited for.\<close>

lemma commits_counted:
  assumes "loop_inv (l, w)" "ids_inv es as w"
  shows "length (told es) \<le> length (applied es)"
    and "length (applied es) \<le> length (told es) + length (lost es) + card (dom (ctx_heap w))"
proof -
  let ?W = "{f. \<exists>c. waits w f c ZT_ON_COMMIT}"
  have d: "distinct (applied es)" "distinct (told es)" "told_after es"
    and sub: "set (applied es) \<subseteq> set (told es) \<union> set (lost es) \<union> ?W"
    using assms(2) by (auto simp: ids_inv_def)
  have c: "length (applied es) = card (set (applied es))" "length (told es) = card (set (told es))"
    using d by (simp_all add: distinct_card)
  show "length (told es) \<le> length (applied es)"
    unfolding c using told_applied[OF d(3)] by (intro card_mono) auto
  note w = waiting_card[OF assms(1), of ZT_ON_COMMIT]
  have "card (set (applied es)) \<le> card (set (told es) \<union> set (lost es) \<union> ?W)"
    using sub w(1) by (intro card_mono) auto
  also have "\<dots> \<le> card (set (told es)) + card (set (lost es)) + card ?W"
    by (meson add_mono card_Un_le le_refl order.trans)
  also have "\<dots> \<le> length (told es) + length (lost es) + card (dom (ctx_heap w))"
    using w(2) by (intro add_mono) (simp_all add: card_length)
  finally show "length (applied es) \<le> length (told es) + length (lost es) + card (dom (ctx_heap w))" using c by simp
qed

lemma undisturbed_ticks:
  assumes "undisturbed es m" "list_all (zone_event z) es"
    and "\<And>g z n stale kvs. Ticked g z n stale kvs \<in> set es \<Longrightarrow> stale = []"
  shows "fold apply_event es m = (zone_ticked z 1 ^^ length (applied es)) m"
  using assms
proof (induction es arbitrary: m)
  case (Cons e es)
  have IH: "fold apply_event es (apply_event e m) = (zone_ticked z 1 ^^ length (applied es)) (apply_event e m)"
  proof (rule Cons.IH)
    show "undisturbed es (apply_event e m)" "list_all (zone_event z) es" using Cons.prems(1,2) by simp_all
    show "stale = []" if "Ticked g z n stale kvs \<in> set es" for g z n stale kvs
      using Cons.prems(3) that by (meson list.set_intros(2))
  qed
  show ?case
  proof (cases e)
    case (Ticked g z' n stale kvs)
    then have "stale = []" using Cons.prems(3) by (metis list.set_intros(1))
    then have "apply_event e m = zone_ticked z 1 m"
      using Cons.prems(1,2) complete_read_ticks[of z kvs m 1] by (simp add: Ticked)
    then show ?thesis using IH Ticked by (simp add: funpow_swap1)
  qed (use IH Cons.prems(1) in simp_all)
qed simp

lemma counters_exact:
  assumes "count_inv client ok w0 z h (l, w)" "length (done_log w) < 2 ^ 32"
  shows "unat (ticks_done l) = successes w"
    and "unat (ticks_done l) + unat (ticks_failed l) = length (done_log w)"
proof -
  note D = count_invD[OF assms(1)]
  have le: "successes w \<le> length (done_log w)"
    using count_le_length[of "service_reports w" True] by (simp add: service_reports_def)
  then show ok: "unat (ticks_done l) = successes w"
    using assms(2) by (simp add: D(9) unsigned_of_nat take_bit_nat_eq_self)
  have "ticks_failed l = word_of_nat (length (done_log w)) - word_of_nat (successes w)"
    using D(1,9) by (simp add: loop_inv_def service_reports_def algebra_simps)
  then have "ticks_failed l = word_of_nat (length (done_log w) - successes w)" using le by simp
  moreover have "length (done_log w) - successes w < 2 ^ 32" using assms(2) by simp
  ultimately have "unat (ticks_failed l) = length (done_log w) - successes w"
    by (simp add: unsigned_of_nat take_bit_nat_eq_self)
  then show "unat (ticks_done l) + unat (ticks_failed l) = length (done_log w)" using ok le by simp
qed

text \<open>The count at the end of a run whose retries were all granted.\<close>

lemma report_exact:
  assumes "count_inv client retry_granted w0 z (es, as) (l, w)" "client_documented client" "length (done_log w) < 2 ^ 32"
  shows "unat (ticks_done l) = length (told es)" and "store w = fold apply_event es (store w0)"
    and "unat (ticks_done l) \<le> length (applied es)"
    and "length (applied es) \<le> unat (ticks_done l) + length (lost es) + card (dom (ctx_heap w))"
    and "undisturbed es (store w0) \<Longrightarrow> store w = (zone_ticked z 1 ^^ length (applied es)) (store w0)"
proof -
  note D = count_invD[OF assms(1)]
  have H: "store w = fold apply_event es (store w0)" "filter (\<lambda>(d, u, ok). ok) (done_log w) = concat (map event_reports es)"
    "ids_inv es as w"
    using history_hist_inv[OF D(6) assms(2)] by (simp_all add: hist_inv_def)
  have zh: "list_all (zone_event z) es" using D(8) by (simp add: zone_hist_def)
  have "successes w = length (told es)"
    using count_true[of "done_log w"] reports_told[OF zh] H(2) by (simp add: service_reports_def)
  then show t: "unat (ticks_done l) = length (told es)" using counters_exact(1)[OF assms(1,3)] by simp
  show "store w = fold apply_event es (store w0)" by (rule H(1))
  show "unat (ticks_done l) \<le> length (applied es)"
    "length (applied es) \<le> unat (ticks_done l) + length (lost es) + card (dom (ctx_heap w))"
    using commits_counted[OF D(1) H(3)] t by simp_all
  have clean: "stale = []" if "Ticked g z n stale kvs \<in> set es" for g z n stale kvs
    using history_clean[OF D(6) assms(2)] that by simp blast
  show "store w = (zone_ticked z 1 ^^ length (applied es)) (store w0)" if "undisturbed es (store w0)"
    unfolding H(1) by (rule undisturbed_ticks[OF that zh clean])
qed

subsection \<open>The printed report\<close>

lemma measure_zone_cases:
  assumes "measure_zone A client env os state b w = Some (Tool_Exited rc b' w' outs)"
    and "seed_entities client (tool_direct env) (word_of_int (opt_zone os)) (opt_entities os) w = Some (0, w1)"
    and "l = \<lparr>loop_z_id = word_of_int (opt_zone os), ticks_done = 0, ticks_failed = 0, in_flight = False,
      deadline = add A (now_sec A (time_start env)) (opt_duration os)\<rparr>"
  obtains s l' where "timed_loop A client (timed_turns env) (l, w1) = Some (Inr s)"
    "drain_loop A client (drain_turns env) s = Some (Inr (l', w'))" "rc = 0"
    "outs = [tool_report A (sub A (now_sec A (time_end env)) (now_sec A (time_start env))) (opt_entities os) l']"
proof -
  note run = assms(1)[unfolded measure_zone_def Let_def assms(2), simplified, folded assms(3)]
  obtain r where r: "timed_loop A client (timed_turns env) (l, w1) = Some r"
    using run by (auto simp: bind_eq_Some_conv)
  then obtain s where s: "r = Inr s" using run by (cases r) auto
  then obtain r2 where r2: "drain_loop A client (drain_turns env) s = Some r2"
    using run r by (auto simp: bind_eq_Some_conv)
  then obtain l' w2 where l': "r2 = Inr (l', w2)" using run r s by (cases r2) auto
  then show ?thesis
    using run r s r2 that[of s l'] by (auto simp: tool_shutdown_def Let_def split: if_splits)
qed

lemma measure_zone_ended:
  assumes "seed_entities client (tool_direct env) (word_of_int (opt_zone os)) (opt_entities os) w = Some (0, w1)"
    and "l = \<lparr>loop_z_id = word_of_int (opt_zone os), ticks_done = 0, ticks_failed = 0, in_flight = False,
      deadline = add A (now_sec A (time_start env)) (opt_duration os)\<rparr>"
    and "timed_loop A client (timed_turns env) (l, w1) = Some (Inr s)"
    and "drain_loop A client (drain_turns env) s = Some (Inr (l', w'))"
  shows "measure_zone A client env os state b w = Some (tool_shutdown (tool_boot env) state 0
    [tool_report A (sub A (now_sec A (time_end env)) (now_sec A (time_start env))) (opt_entities os) l'] b w')"
  using assms(3,4) by (simp add: measure_zone_def Let_def assms(1) assms(2)[symmetric])

text \<open>C15: what the number the tool prints says about the database. Take a measurement that seeds its
  zone (the commit of the seed is applied), runs and ends, with a client that behaves as
  documented in a run whose retries are all granted, and with fewer than 2^32 completion
  callbacks. Commits may be applied before their future is delivered, with an error that leaves
  their result unknown, or without being delivered before the tool gives up. Then the tool
  prints one report, with the elapsed time, the rate, which is ticks_ok by the elapsed time, and
  whether the rate is at least 500; ticks_ok and ticks_failed in it add up to the number of
  completion callbacks; the database is what the history makes of the seeded one. The commits
  applied are at least ticks_ok, and exceed it at most by the commits whose result was lost to
  the tool and by one for a tick still live at the end. If no other process wrote and every
  read was complete, the database is the seeded one with the zone advanced once for each commit
  applied, and nothing else changed; so (for up to 2^40 of them) every seeded entity e is found
  at (1000 e + 1525 for each, 0, 0) if e is below 0xFF000000, and where it was seeded if not.\<close>

theorem report_matches_database:
  assumes "client_documented client" "zt_initial w" "handles_fresh w"
    and "seed_ok (tool_direct env)" "out_applied (direct_out (tool_direct env))" "z = word_of_int (opt_zone os)"
    and "seed_entities client (tool_direct env) z (opt_entities os) w = Some (0, w1)"
    and "l = \<lparr>loop_z_id = z, ticks_done = 0, ticks_failed = 0, in_flight = False,
      deadline = add A (now_sec A (time_start env)) (opt_duration os)\<rparr>"
    and "timed_hist A client retry_granted (timed_turns env) ([], []) (l, w1) h"
    and "\<And>s. timed_loop A client (timed_turns env) (l, w1) = Some (Inr s) \<Longrightarrow>
      drain_hist A client retry_granted (drain_turns env) h s (es, as)"
    and "measure_zone A client env os state b w = Some (Tool_Exited rc b' w' outs)" "length (done_log w') < 2 ^ 32"
    and "elapsed = sub A (now_sec A (time_end env)) (now_sec A (time_start env))"
  shows "\<exists>ticks_ok ticks_bad rate. rc = 0 \<and>
    outs = [Printed_Report z (opt_entities os) elapsed ticks_ok ticks_bad rate (le A (lit A 500) rate)] \<and>
    rate = quot A (lit A (real (unat ticks_ok))) elapsed \<and>
    unat ticks_ok + unat ticks_bad = length (done_log w') \<and>
    store w' = fold apply_event es (store w1) \<and>
    unat ticks_ok = length (told es) \<and> unat ticks_ok \<le> length (applied es) \<and>
    length (applied es) \<le> unat ticks_ok + length (lost es) + card (dom (ctx_heap w')) \<and>
    card (dom (ctx_heap w')) \<le> 1 \<and>
    (undisturbed es (store w1) \<longrightarrow>
       store w' = (zone_ticked z 1 ^^ length (applied es)) (store w1) \<and>
       (length (applied es) \<le> 2 ^ 40 \<longrightarrow>
          (\<forall>e < opt_entities os. \<exists>v. store w' (entity_key z e) = Some v \<and>
             sint (pos_um_x (stored_packet v)) =
               1000 * uint e + (if e < 0xFF000000 then 1525 * int (length (applied es)) else 0) \<and>
             pos_um_y (stored_packet v) = 0 \<and> pos_um_z (stored_packet v) = 0)))"
proof -
  have db: "db (fdb_state w) \<noteq> None" using assms(2) by (simp add: zt_initial_def)
  have w1: "w1 = w\<lparr>store := apply_writes (seed_writes (tool_direct env) z (unat (opt_entities os))) (store w),
      next_handle := Suc (Suc (next_handle w))\<rparr>"
    using seed_entities_eq[OF assms(4,1) db assms(3), of z "opt_entities os"] assms(5,7) by simp
  then have "zt_initial w1" using assms(2) by (simp add: zt_initial_def)
  then have start: "count_inv client retry_granted w1 z ([], []) (l, w1)"
    using count_inv_start[of w1 l] by (simp add: assms(8))
  obtain s l' where t: "timed_loop A client (timed_turns env) (l, w1) = Some (Inr s)"
    and d: "drain_loop A client (drain_turns env) s = Some (Inr (l', w'))" and rc: "rc = 0"
    and o1: "outs = [tool_report A (sub A (now_sec A (time_end env)) (now_sec A (time_start env))) (opt_entities os) l']"
    by (rule measure_zone_cases[OF assms(11) assms(7,8)[unfolded assms(6)]])
  have inv: "count_inv client retry_granted w1 z (es, as) (l', w')"
    using drain_counts[OF timed_counts[OF start assms(1,9) t] assms(1) assms(10)[OF t] d] by simp
  note ex = report_exact[OF inv assms(1,12)]
  have pos: "\<forall>e < opt_entities os. \<exists>v. store w' (entity_key z e) = Some v \<and>
      sint (pos_um_x (stored_packet v)) = 1000 * uint e + (if e < 0xFF000000 then 1525 * int (length (applied es)) else 0) \<and>
      pos_um_y (stored_packet v) = 0 \<and> pos_um_z (stored_packet v) = 0"
    if "undisturbed es (store w1)" "length (applied es) \<le> 2 ^ 40"
    using seeded_entity_after[OF assms(4) _ that(2), of _ "opt_entities os" z "store w"] ex(5)[OF that(1)] w1 by simp
  have "card (dom (ctx_heap w')) \<le> 1"
    using count_invD(1)[OF inv] by (auto simp: loop_inv_def service_live_def)
  moreover have "outs = [Printed_Report z (opt_entities os) elapsed (ticks_done l') (ticks_failed l')
      (quot A (lit A (real (unat (ticks_done l')))) elapsed)
      (le A (lit A 500) (quot A (lit A (real (unat (ticks_done l')))) elapsed))]"
    using o1 count_invD(5)[OF inv] assms(13) by (simp add: tool_report_def Let_def)
  ultimately show ?thesis using ex pos rc counters_exact(2)[OF inv assms(12)] by blast
qed

subsection \<open>A measured tick\<close>

lemma at_phase_store:
  assumes "at_phase w f c p x cs m l"
  shows "at_phase (w\<lparr>store := m'\<rparr>) f c p x cs m' l"
proof -
  have "waits (w\<lparr>store := m'\<rparr>) = waits w" by (rule waits_cong) simp_all
  then show ?thesis
    using assms inv_transactions(2)[of "{}" "{}" w "transactions w" m'] tx_inv_mono[of w "w\<lparr>store := m'\<rparr>"]
    by (simp add: at_phase_def)
qed

lemma phase_request:
  assumes "at_phase w f c p x cs m l"
  shows "\<exists>req. futures w f = Some req \<and> request_ok req p (the (tr x)) x"
  by (rule waits_tick[OF at_phaseD(1,3)[OF assms]]) (use at_phaseD(4)[OF assms] in auto)

text \<open>The delivery of a complete and current range read, as a step of a history.\<close>

lemma hist_read:
  assumes ph: "at_phase w f c ZT_ON_RANGE_READ x cs m l" and client: "client_documented client"
    and read: "good_read out (tick_count x)" "range_current (z_id x) (out_kvs out) m" and env: "submit_ok env"
  obtains w' y where "zt_deliver client env out f w = Some w'" "at_phase w' (next_handle w) c ZT_ON_COMMIT x cs m l"
    "transactions w' (the (tr x)) = Some y"
    "hist_step client retry_granted (Delivery f env out) (([], []), w)
      (([], [\<lparr>at_commit = next_handle w, at_zone = z_id x, at_count = tick_count x, at_stale = [],
        at_read = out_kvs out, at_writes = tick_kvs (tick_count x) (out_kvs out)\<rparr>]), w')"
proof -
  note i = at_phaseD[OF ph]
  obtain w' f' y' where d: "zt_deliver client env out f w = Some w'" and ph': "at_phase w' f' c ZT_ON_COMMIT x cs m l"
    and y': "transactions w' (the (tr x)) = Some y'"
    using step_read[OF ph client read(1) env] by blast
  obtain req where req: "futures w f = Some req" "request_ok req ZT_ON_RANGE_READ (the (tr x)) x"
    using phase_request[OF ph] by blast
  obtain c0 p x0 t y where F: "waits w f c0 p" "ctx_heap w c0 = Some x0" "tr x0 = Some t" "transactions w t = Some y"
    "tick_after (zt_protocol env out p t (z_id x0)) c0 x0 w w'"
    by (rule delivery_facts[OF i(1) client req(1) d])
  have p: "c0 = c" "p = ZT_ON_RANGE_READ" "x0 = x"
    using F(1,2) i(3,4) by (auto simp: waits_def split: option.splits)
  have rc: "requests_commit env out p" using read(1) env by (simp add: p requests_commit_def good_read_def submit_ok_def)
  have "writes y = []" using i(2,3) F(2-4) unfolding p tx_inv_def by (metis phase_ok.simps(1))
  then have cms: "delivery_commits env out f w w' = [\<lparr>at_commit = next_handle w, at_zone = z_id x, at_count = tick_count x,
      at_stale = [], at_read = out_kvs out, at_writes = tick_kvs (tick_count x) (out_kvs out)\<rparr>]"
    and evs: "delivery_events env out f w = []"
    using delivery_commits_eq[OF i(1) client F(1) d F(2-5)] delivery_events_eq[OF F(1,2), of env out] rc env
    by (simp_all add: p)
  have "waits w' (next_handle w) c ZT_ON_COMMIT"
    using F(5) read(1) env by (simp add: p tick_after_def good_read_def submit_effect_def)
  then have f': "f' = next_handle w" using waits_unique[OF at_phaseD(1,3)[OF ph']] by blast
  have "answer_ok req out" "retry_granted req out" "commit_ok [] f req out"
    using req(2) read(2) by (auto simp: request_ok_def range_request_def range_current_def in_zone_range_def)
  then show ?thesis
    using hist_step.deliver[OF req(1) _ _ _ d, of retry_granted "[]" "[]"] that[OF d ph'[unfolded f'] y']
    by (simp add: cms evs)
qed

text \<open>A turn of the loop in which one tick is started and completes; its commit is applied before its
  future is delivered.\<close>

lemma clean_turn:
  assumes init: "zt_initial w" and client: "client_documented client" and idle: "\<not> in_flight l"
    and renv: "\<not> calloc_null renv" "create_error renv = 0" "submit_ok (submit_env renv)" and env: "submit_ok env"
    and read: "good_read out1 1" "range_current (loop_z_id l) (out_kvs out1) (store w)"
    and commit: "out_error out2 = 0" "\<not> out_applied out2"
  shows "\<exists>f1 m f2 w1 w3 es. start_tick renv (l, w) = Some (l\<lparr>in_flight := True\<rparr>, w1) \<and>
    evloop_run client [Delivery f1 env out1, Database m, Delivery f2 env out2] (l\<lparr>in_flight := True\<rparr>, w1) =
      Some (on_tick_done True (l\<lparr>in_flight := True\<rparr>), w3) \<and>
    evloop_hist client retry_granted [Delivery f1 env out1, Database m, Delivery f2 env out2]
      (([], []), w1) ((es, []), w3) \<and>
    length (done_log w3) = 1 \<and> length (applied es) = 1 \<and> undisturbed es (store w)"
proof -
  let ?x = "\<lparr>tr = Some (Suc (next_handle w)), z_id = loop_z_id l, tick_count = 1,
    done_cb = Some ON_TICK_DONE, user_ctx = LOOP_CTX\<rparr>"
  let ?l = "l\<lparr>in_flight := True\<rparr>"
  have log: "done_log w = []" using init by (simp add: zt_initial_def)
  obtain w1 f1 where w1: "zf_zonetick_run renv (loop_z_id l) 1 (Some ON_TICK_DONE) LOOP_CTX w = Some (0, w1)"
    "at_phase w1 f1 (next_handle w) ZT_ON_RANGE_READ ?x (ctx_heap w) (store w) (done_log w)"
    using step_started[OF zt_reach.init[OF init] client renv] by blast
  let ?f = "next_handle w1"
  let ?a = "\<lparr>at_commit = ?f, at_zone = loop_z_id l, at_count = 1, at_stale = [],
    at_read = out_kvs out1, at_writes = tick_kvs 1 (out_kvs out1)\<rparr>"
  obtain w2 y where w2: "zt_deliver client env out1 f1 w1 = Some w2"
    "at_phase w2 ?f (next_handle w) ZT_ON_COMMIT ?x (ctx_heap w) (store w) (done_log w)"
    "transactions w2 (the (tr ?x)) = Some y"
    "hist_step client retry_granted (Delivery f1 env out1) (([], []), w1) (([], [?a]), w2)"
    using hist_read[OF w1(2) client _ _ env, of out1] read by auto
  let ?m = "apply_writes (at_writes ?a) (store w)"
  let ?w = "w2\<lparr>store := ?m\<rparr>"
  have ph: "at_phase ?w ?f (next_handle w) ZT_ON_COMMIT ?x (ctx_heap w) ?m (done_log w)"
    by (rule at_phase_store[OF w2(2)])
  have cur: "read_current ?a (store w2)"
    using read(2) at_phaseD(6)[OF w2(2)] by (auto simp: read_current_def range_current_def)
  have h2: "hist_step client retry_granted (Database ?m) (([], [?a]), w2) (([commit_event ?a], []), ?w)"
    using hist_step.commit[OF cur refl, of client retry_granted "[]" "[]" "[]"] at_phaseD(6)[OF w2(2)] by simp
  obtain w3 where w3: "zt_deliver client env out2 ?f ?w = Some w3" "done_log w3 = done_log w @ report ?x True"
    using step_reported[OF ph client _ commit(1), of y env] w2(3) by auto
  obtain req where req: "futures ?w ?f = Some req" "request_ok req ZT_ON_COMMIT (Suc (next_handle w)) ?x"
    using phase_request[OF ph] by auto
  note p3 = at_phaseD(3,4)[OF ph]
  let ?es = "[commit_event ?a, Told ?f (loop_z_id l) 1 (report ?x True)]"
  have evs: "delivery_events env out2 ?f ?w = [Told ?f (loop_z_id l) 1 (report ?x True)]"
    "delivery_commits env out2 ?f ?w w3 = []"
    using delivery_events_eq[OF p3, of env out2] waits_pending[OF p3] commit
    by (simp_all add: delivery_commits_def requests_commit_def)
  have h3: "hist_step client retry_granted (Delivery ?f env out2) (([commit_event ?a], []), ?w) ((?es, []), w3)"
    using hist_step.deliver[OF req(1) _ _ _ w3(1), of retry_granted "[commit_event ?a]" "[]"] req(2) evs commit
    by (simp add: request_ok_def commit_event_def)
  have c: "completions w1 w2 ?l = ?l" "completions w2 ?w ?l = ?l" "completions ?w w3 ?l = on_tick_done True ?l"
    using at_phaseD(7)[OF w1(2)] at_phaseD(7)[OF w2(2)] w3(2)
    by (simp_all add: service_reports_def completions_one report_def)
  have "start_tick renv (l, w) = Some (?l, w1)"
    using w1(1) idle at_phaseD(7)[OF w1(2)] by (simp add: start_tick_def service_reports_def)
  moreover have "evloop_run client [Delivery f1 env out1, Database ?m, Delivery ?f env out2] (?l, w1) =
      Some (on_tick_done True ?l, w3)"
    using w2(1) w3(1) c by simp
  moreover have "evloop_hist client retry_granted [Delivery f1 env out1, Database ?m, Delivery ?f env out2]
      (([], []), w1) ((?es, []), w3)"
    unfolding evloop_hist.simps using w2(4) h2 h3 by blast
  moreover have "undisturbed ?es (store w)" "length (applied ?es) = 1" "length (done_log w3) = 1"
    using read(2) w3(2) log by (simp_all add: commit_event_def report_def)
  ultimately show ?thesis by blast
qed

text \<open>One entity in zone 9, one tick, five seconds; the second reading of the clock is behind the
  deadline.\<close>

definition measured_read :: fdb_outcome where
  "measured_read = sample_read\<lparr>out_kvs := [(entity_key 9 0, seeded_value sample_direct 0)]\<rparr>"

definition measured_turn :: "handle \<Rightarrow> (bytes \<rightharpoonup> bytes) \<Rightarrow> handle \<Rightarrow> turn" where
  "measured_turn f1 m f2 = \<lparr>turn_run = good_renv,
     turn_arrivals = [Delivery f1 good_env measured_read, Database m,
       Delivery f2 good_env (sample_done\<lparr>out_applied := False\<rparr>)]\<rparr>"

definition measured_tool :: "handle \<Rightarrow> (bytes \<rightharpoonup> bytes) \<Rightarrow> handle \<Rightarrow> real tool_env" where
  "measured_tool f1 m f2 = sample_tool\<lparr>
     timed_turns := [((0, 0), measured_turn f1 m f2), ((9, 0), quiet_turn)], time_end := (9, 0)\<rparr>"

definition measured_opts :: "real tool_opts" where
  "measured_opts = (tool_defaults exact)\<lparr>opt_zone := 9, opt_entities := 1\<rparr>"

definition measured_loop :: "real tick_loop_ctx_t" where
  "measured_loop = \<lparr>loop_z_id = 9, ticks_done = 0, ticks_failed = 0, in_flight = False, deadline = 5\<rparr>"

definition measured_w1 :: zt_world where
  "measured_w1 = sample_w0\<lparr>store := apply_writes (seed_writes sample_direct 9 1) sample_store, next_handle := 2\<rparr>"

definition measured_boot :: boot_world where
  "measured_boot = snd (fdb_global_init sample_boot_env (Some FDB_CLUSTER_FILE_DEFAULT) 1 boot_start)"

lemma measured_boot_started: "network_started (fdb_global measured_boot)"
  by (simp add: measured_boot_def global_init_ok sample_boot_env_def)

lemma measured_read_good: "good_read measured_read 1"
  "range_current (loop_z_id measured_loop) (out_kvs measured_read) (store measured_w1)"
proof -
  have "stored_packet (seeded_value sample_direct 0) = seeded_packet 0"
    using sample_direct_ok(1) seeded_value_stored(2)[of sample_direct 0] by (simp add: seed_ok_def)
  moreover have "tick_defined 1 (seeded_packet 0)"
    by (simp add: tick_defined_def tick_packet_def moved_def seeded_packet_def packet_zero_def i64_of_def in_i64_def)
  ultimately show "good_read measured_read 1"
    by (simp add: good_read_def measured_read_def)
  show "range_current (loop_z_id measured_loop) (out_kvs measured_read) (store measured_w1)"
    by (auto simp: range_current_def measured_read_def measured_loop_def measured_w1_def seed_writes_def
        sample_store_def entity_key_in_range_iff split: if_splits)
qed

lemma measured_start: "zt_initial measured_w1" "\<not> in_flight measured_loop"
  by (simp_all add: measured_w1_def sample_w0_def zt_initial_def measured_loop_def)

lemma measured_seed: "seed_entities reference_client sample_direct 9 1 sample_w0 = Some (0, measured_w1)"
  using seed_entities_eq[OF sample_direct_ok(1) reference_client_documented sample_initial(6) sample_fresh, of 9 1]
  by (simp add: measured_w1_def)

theorem report_matches_database_witness:
  "\<exists>f1 m f2 b' w' v. measure_zone exact reference_client (measured_tool f1 m f2) measured_opts zero_thread_state
      measured_boot sample_w0 = Some (Tool_Exited 0 b' w' [Printed_Report 9 1 9 1 0 (1 / 9) False]) \<and>
     store w' (entity_key 9 0) = Some v \<and> sint (pos_um_x (stored_packet v)) = 1525"
proof -
  let ?l = "measured_loop\<lparr>in_flight := True\<rparr>" and ?z = "loop_z_id measured_loop"
  let ?out = "sample_done\<lparr>out_applied := False\<rparr>"
  have out: "out_error ?out = 0" "\<not> out_applied ?out" by simp_all
  obtain f1 m f2 w2 w3 es where st: "start_tick good_renv (measured_loop, measured_w1) = Some (?l, w2)"
    and ev: "evloop_run reference_client (turn_arrivals (measured_turn f1 m f2)) (?l, w2) = Some (on_tick_done True ?l, w3)"
    and hi: "evloop_hist reference_client retry_granted (turn_arrivals (measured_turn f1 m f2)) (([], []), w2) ((es, []), w3)"
    and log: "length (done_log w3) = 1" and es: "length (applied es) = 1" "undisturbed es (store measured_w1)"
    using clean_turn[OF measured_start(1) reference_client_documented measured_start(2) sample_envs(3,4) _ sample_envs(1)
        measured_read_good out] by (simp add: measured_turn_def) blast
  let ?env = "measured_tool f1 m f2"
  have l: "measured_loop = \<lparr>loop_z_id = 9, ticks_done = 0, ticks_failed = 0, in_flight = False,
      deadline = add exact (now_sec exact (time_start ?env)) (opt_duration measured_opts)\<rparr>"
    by (simp add: measured_loop_def measured_tool_def sample_tool_def measured_opts_def tool_defaults_def)
  have turns: "timed_turns ?env = [((0, 0), measured_turn f1 m f2), ((9, 0), quiet_turn)]" "drain_turns ?env = []"
    "turn_run (measured_turn f1 m f2) = good_renv" "tool_direct ?env = sample_direct"
    "deadline measured_loop = 5" "deadline ?l = 5" "?z = 9" "opt_entities measured_opts = 1" "opt_zone measured_opts = 9"
    by (simp_all add: measured_tool_def sample_tool_def measured_turn_def measured_loop_def measured_opts_def)
  have t: "timed_loop exact reference_client (timed_turns ?env) (measured_loop, measured_w1) =
      Some (Inr (on_tick_done True ?l, w3))"
    using st ev by (simp add: turns)
  have a: "timed_hist exact reference_client retry_granted (timed_turns ?env) ([], []) (measured_loop, measured_w1) (es, [])"
    using st ev hi by (simp add: turns)
  have r: "tool_report exact 9 1 (on_tick_done True ?l) = Printed_Report 9 1 9 1 0 (1 / 9) False"
    by (simp add: tool_report_def on_tick_done_def measured_loop_def)
  have "measure_zone exact reference_client ?env measured_opts zero_thread_state measured_boot sample_w0 =
      Some (tool_shutdown sample_boot_env zero_thread_state 0 [Printed_Report 9 1 9 1 0 (1 / 9) False] measured_boot w3)"
    using measure_zone_ended[OF _ _ t, of measured_opts sample_w0 "on_tick_done True ?l" w3 zero_thread_state measured_boot]
      measured_seed l r by (simp add: turns) (simp add: measured_tool_def sample_tool_def)
  then obtain b' where m: "measure_zone exact reference_client ?env measured_opts zero_thread_state measured_boot sample_w0 =
      Some (Tool_Exited 0 b' w3 [Printed_Report 9 1 9 1 0 (1 / 9) False])"
    using measured_boot_started
    by (simp add: tool_shutdown_def fdb_global_cleanup_def fdb_thread_cleanup_def zero_thread_state_def
        sample_boot_env_def Let_def call_def)
  show ?thesis
    using report_matches_database[OF reference_client_documented sample_initial(1) sample_fresh _ _ _ _ l a _ m, of es "[]"] m log
      measured_seed es by (simp add: turns) blast
qed

end
