(* ===== verification/Spec2Isabelle.thy ===== *)
theory Spec2Isabelle
  imports Packet Kv Rebac Intrusive_Queue Fdb Boot Zonetick_Atomic Sinew_Valid Throughput_Count
begin

text \<open>
  A verification development for gyreplane, a zone server that keeps the entities of a zone in
  FoundationDB and advances them tick by tick.

  \<^bold>\<open>The program.\<close> An entity is a 100-byte packet (\<^verbatim>\<open>src/gen/xr_grid_entity_packet\<close>). Its key
  is a prefix, the big-endian zone id, a slash and the big-endian entity id
  (\<^verbatim>\<open>src/zf_kv\<close>), so that a zone is one key range. A tick (\<^verbatim>\<open>src/zf_zonetick\<close>) opens a
  transaction, reads the range of the zone, moves every packet by its velocity and commits; it
  is written as a chain of callbacks on the futures of the database client, which an adapter
  (\<^verbatim>\<open>src/fdb_database\<close>) submits and releases. \<^verbatim>\<open>src/main.c\<close> reads the options, starts the
  client and one worker per thread. \<^verbatim>\<open>tools/zonetick_throughput.c\<close> is a second program on
  the same code: it seeds a zone and measures ticks. Independent of these are the access check
  (\<^verbatim>\<open>src/gen/rebac\<close>), the intrusive queue (\<^verbatim>\<open>src/list.h\<close>) and the rotation fit
  (\<^verbatim>\<open>src/gen/sinew_align\<close>).

  \<^bold>\<open>Theories and sources.\<close>
  \<^item> \<open>Prelude\<close>: C integers as words, buffers, memset, memcpy and for loops with undefined
    behaviour as \<open>None\<close>; byte order.
  \<^item> \<open>Packet\<close>: \<^verbatim>\<open>xr_grid_entity_packet.{h,c}\<close>, all functions. Layout, both round trips.
  \<^item> \<open>Kv\<close>: \<^verbatim>\<open>zf_kv.{h,c}\<close>, all functions. Bytes written, order of keys, exactly which
    keys the range of a zone contains, disjointness of ranges; the interface the tick relies
    on is a locale, interpreted on the key builders.
  \<^item> \<open>Rebac\<close>: \<^verbatim>\<open>rebac.{h,c}\<close>. The check against its specification; the grant table.
  \<^item> \<open>Intrusive_Queue\<close>: \<^verbatim>\<open>list.h\<close> over an explicit store of next pointers. Refinement of a
    list.
  \<^item> \<open>Fdb\<close>: \<^verbatim>\<open>fdb_database.{h,c}\<close>, \<^verbatim>\<open>error.h\<close>. The four functions that submit a request
    share a contract, stated as the locales \<open>async_request\<close> and \<open>reported_request\<close> and
    interpreted on each of them.
  \<^item> \<open>Boot\<close>: \<^verbatim>\<open>main.c\<close>, \<^verbatim>\<open>global_data.h\<close> and the start and cleanup functions of the adapter,
    with the option scanner and the number reader of the C library; the calls to the system and
    the client in order, and the messages of \<^verbatim>\<open>main.c\<close>, line by line.
  \<^item> \<open>Zonetick\<close>: \<^verbatim>\<open>zf_zonetick.{h,c}\<close>, all functions; the arithmetic of one entity.
    \<open>Zonetick_Protocol\<close>: ownership of handles and the abstract protocol of a tick, which the
    handlers refine. \<open>Zonetick_Runs\<close>: every interleaving of runs, deliveries and foreign
    writes as a step relation; memory safety, no leak, conservation of callbacks.
    \<open>Zonetick_Progress\<close>: one delivery is one protocol step; ticks that never report.
    \<open>Zonetick_Effect\<close>: what reaches the database. \<open>Zonetick_Ticks\<close>: whole ticks, from the
    call to the callback. \<open>Zonetick_Service\<close>: the contract towards callers as the locale
    \<open>tick_service\<close>, interpreted on the model. \<open>Zonetick_Samples\<close>: sample worlds and the
    theorems applied to them. \<open>Zonetick_Events\<close>: histories, in which the database applies a
    commit by a step of its own (before its delivery, without one, or with an unknown result);
    \<open>Zonetick_History\<close>: their invariant; \<open>Zonetick_Atomic\<close>: any interleaving is a sequence of
    atomic events.
  \<^item> \<open>Sinew\<close>: \<^verbatim>\<open>sinew_align.{h,c}\<close>, all functions over any arithmetic. \<open>Sinew_Exact\<close>: in
    exact arithmetic the single-pair fit is the rotation between the two directions, the Jacobi
    routine is a change of basis, and the dispatcher's cases. \<open>Sinew_Kabsch\<close>: the singular
    value fit is the best rotation. \<open>Sinew_Fit\<close>: the Newton-Schulz steps act on the singular
    values alone and converge, and the whole dispatcher recovers a rotation from exact data.
    \<open>Sinew_Valid\<close>: what the dispatcher returns for every count, and when it passes the
    validity test: a single pair above the length guard, the fast path by its own test, the
    fallback when the sweeps ended by their threshold with eigenvalues of at least 1e-17.
  \<^item> \<open>Throughput\<close>: \<^verbatim>\<open>tools/zonetick_throughput.c\<close>, all functions. \<open>Throughput_Seed\<close>: what is
    seeded, where it is after any number of ticks, what a probe prints. \<open>Throughput_Loop\<close>:
    the measuring loop, verified against \<open>tick_service\<close>. \<open>Throughput_History\<close>: a run of the loops
    as a history of the zone tick. \<open>Throughput_Count\<close>: the printed count of ticks against the
    number of times the zone in the database was advanced.

  \<^bold>\<open>State and undefined behaviour.\<close> A C function is a HOL function that takes and returns the
  state it works on. \<open>None\<close> is undefined behaviour: an access outside a buffer, the use or
  second release of a handle that is not live, a signed overflow, a failed assertion. A theorem
  that a call is \<open>Some\<close> is therefore a theorem that it is safe.

  \<^bold>\<open>Parameters.\<close> The database client is not part of the sources. What its calls answer
  (\<open>fdb_env\<close>, \<open>zt_run_env\<close>, \<open>fdb_outcome\<close>, \<open>boot_env\<close>, \<open>direct_env\<close>) and what it does to
  transactions and database when a future becomes ready (\<open>fdb_client\<close>) are arguments; where a
  theorem needs the documented behaviour it is the hypothesis \<open>client_documented\<close> or
  \<open>client_gets\<close>, which \<open>reference_client\<close> satisfies. That a range read is complete and still
  current when its commit applies is the hypothesis \<open>range_current\<close>, that the database has for
  the keys read what was read is \<open>read_current\<close>, and that an on_error future was delivered
  without an error is \<open>retry_granted\<close>. In a step of a history, \<open>answer_ok\<close> says that a range read
  returns keys of the requested range, each once, and \<open>commit_ok\<close> that a commit without an error
  has been applied; of a commit with an error nothing is assumed. In single deliveries
  \<open>out_applied\<close> says whether the commit is applied with that delivery; histories apply commits
  by a step of their own. \<open>undisturbed\<close> says of a history that no other process wrote and every
  read was complete. The callback of a future runs by a step of its own, never inside the call
  that registers it. The arithmetic of
  doubles is the parameter \<open>arith\<close>; theorems about control flow hold for every arithmetic, the
  algebraic ones for \<open>exact\<close>, the reals. The byte order of the host, the contents of
  uninitialised arrays and the readings of the clock are arguments too.

  \<^bold>\<open>Bounds and fuel.\<close> No function runs on fuel that could end early. Loops with a bound in the
  source have that bound (30 and 50 iterations of the fit, the counts of the workers and of the
  seeded entities). The loops that wait (\<open>worker_main\<close>, \<open>timed_loop\<close>, \<open>drain_loop\<close>) take the
  list of what they read, and have a result of their own for the case that they are still
  running when it is used up; \<open>measurement_ends\<close> shows when they are not.

  \<^bold>\<open>What is shown.\<close> A tick without errors completes and advances exactly its zone; an applied
  commit advances what was read, which is one tick of the zone when the read was complete and is
  current; however runs, deliveries, commits and foreign writes interleave, the database is the
  result of one sequence of atomic ticks and writes, every success reported is one of these
  ticks, and a zone is affected by its own ticks and by foreign writes only; no interleaving leads to a use after free, a double free or
  a leak; callbacks are conserved; the database changes by commits only and holds well-typed
  packets only. The faults of the retry and error paths are theorems as well: an unknown commit
  result ticks twice, entities behind the first page or with an id of 0xFF000000 or more are
  not ticked, errors are retried without being reported, and a tick whose commit or on_error
  request is refused is lost. The server runs until \<^verbatim>\<open>fdb_run_network\<close> returns, which nothing in
  the process brings about. The tool has one tick in flight at most, ends by the clock, stalls
  after a refused run, and prints a count of ticks that the database has seen, short of those
  with a lost result and of one still pending. The fallback of the fit returns the best
  rotation, and on exact, well-conditioned data the whole fit returns the rotation sought to
  within a thousandth: thirty steps are enough when the singular values are at least a
  fiftieth of the largest row sum. What the fit hands out passes its own validity test under the conditions above.

  \<^bold>\<open>Not modelled.\<close> The text of the throughput tool's messages (the numbers it prints are) and the
  macros that print messages; timing and sleeping;
  the rounding of IEEE doubles beyond its being a parameter, and the contraction of operations
  by a compiler; data races, since the model takes callbacks one at a time; the event loop of
  h2o, which only decides when futures are delivered; \<^verbatim>\<open>fdb_op_param_t\<close>, which no code uses;
  the unit tests and the build files.
\<close>

end
